(* ===== verification/Ht_Prelude.thy ===== *)
theory Ht_Prelude
  imports Main "HOL-Library.Word"
begin

unbundle bit_operations_syntax

text \<open>
  Shared ground of the hauntty development: the machine integers of the Go sources as words,
  Go's byte strings, Go errors as values, decimal printing, and the few functions of Go's
  \<open>strings\<close> and \<open>bytes\<close> packages the components call. The lemma collections
  \<open>go_simps\<close> (rewriting), \<open>dec_intros\<close> (stream decoders) and \<open>codec_simps\<close> (encoders) are
  declared here and filled by the component theories.
\<close>

named_theorems go_simps \<open>rewrite rules for the modelled Go library functions\<close>
named_theorems dec_intros \<open>closure of stream decoders under the decoder combinators\<close>
named_theorems codec_simps \<open>what encoders write and what decoders read back\<close>

section \<open>Machine integers and bytes\<close>

type_synonym byte = "8 word"
type_synonym u8 = "8 word"
type_synonym u16 = "16 word"
type_synonym u32 = "32 word"
type_synonym u64 = "64 word"

text \<open>
  A Go \<open>string\<close> is an immutable byte sequence; the model uses HOL's \<open>string\<close>, whose
  characters are the 256 byte values. The conversions \<open>[]byte(s)\<close> and \<open>string(b)\<close> are
  explicit in Go and explicit here.
\<close>

definition byte_of_char :: "char \<Rightarrow> byte" where
  "byte_of_char c = of_nat (of_char c)"

definition char_of_byte :: "byte \<Rightarrow> char" where
  "char_of_byte b = char_of (unat b)"

definition bytes_of_string :: "string \<Rightarrow> byte list" where
  "bytes_of_string s = map byte_of_char s"

definition string_of_bytes :: "byte list \<Rightarrow> string" where
  "string_of_bytes bs = map char_of_byte bs"

lemma of_char_less_256: "(of_char c :: nat) < 256"
  by (metis of_char_mod_256 mod_less_divisor zero_less_numeral)

lemma unat_byte_of_char: "unat (byte_of_char c) = of_char c"
  by (simp add: byte_of_char_def unat_of_nat of_char_less_256)

lemma char_of_byte_of_char [simp]: "char_of_byte (byte_of_char c) = c"
  by (simp add: char_of_byte_def unat_byte_of_char)

lemma byte_of_char_of_byte [simp]: "byte_of_char (char_of_byte b) = b"
proof -
  have "unat b < 256" using unsigned_less [of b, where 'a = nat] by simp
  then show ?thesis by (simp add: byte_of_char_def char_of_byte_def)
qed

lemma string_of_bytes_of_string [simp]: "string_of_bytes (bytes_of_string s) = s"
  by (simp add: string_of_bytes_def bytes_of_string_def o_def)

lemma bytes_of_string_of_bytes [simp]: "bytes_of_string (string_of_bytes bs) = bs"
  by (simp add: string_of_bytes_def bytes_of_string_def o_def)

lemma length_bytes_of_string [simp]: "length (bytes_of_string s) = length s"
  by (simp add: bytes_of_string_def)

lemma length_string_of_bytes [simp]: "length (string_of_bytes bs) = length bs"
  by (simp add: string_of_bytes_def)

lemma unat_of_nat_small: "n < 2 ^ LENGTH('a) \<Longrightarrow> unat (of_nat n :: 'a::len word) = n"
  by (simp add: unat_of_nat)

section \<open>Go errors as values\<close>

text \<open>
  The sentinel errors the code tests with \<open>errors.Is\<close>, plain errors with a text, and errors
  that wrap a cause: \<open>fmt.Errorf("ctx: %w", err)\<close> is \<open>Wrap ''ctx'' err\<close>.
\<close>

datatype gerror =
    EOF
  | ErrUnexpectedEOF
  | ErrNotExist
  | ErrClosed
  | ErrIO string
  | Errorf string
  | Wrap string gerror

type_synonym 'a result = "gerror + 'a"

fun error_text :: "gerror \<Rightarrow> string" where
  "error_text EOF = ''EOF''"
| "error_text ErrUnexpectedEOF = ''unexpected EOF''"
| "error_text ErrNotExist = ''file does not exist''"
| "error_text ErrClosed = ''use of closed network connection''"
| "error_text (ErrIO s) = s"
| "error_text (Errorf s) = s"
| "error_text (Wrap s e) = s @ '': '' @ error_text e"

fun errors_Is :: "gerror \<Rightarrow> gerror \<Rightarrow> bool" where
  "errors_Is (Wrap s e) t = (Wrap s e = t \<or> errors_Is e t)"
| "errors_Is e t = (e = t)"

fun is_ok :: "'e + 'a \<Rightarrow> bool" where
  "is_ok (Inl _) = False"
| "is_ok (Inr _) = True"

lemma is_ok_iff: "is_ok r \<longleftrightarrow> (\<exists>v. r = Inr v)"
  by (cases r) auto

section \<open>Printing\<close>

text \<open>\<open>strconv\<close>'s decimal printing of non-negative integers, as used by \<open>%d\<close>.\<close>

definition digit_char :: "nat \<Rightarrow> char" where
  "digit_char d = char_of (48 + d)"

fun string_of_nat :: "nat \<Rightarrow> string" where
  "string_of_nat n =
     (if n < 10 then [digit_char n] else string_of_nat (n div 10) @ [digit_char (n mod 10)])"

declare string_of_nat.simps [simp del]

definition digit_val :: "char \<Rightarrow> nat" where
  "digit_val c = of_char c - 48"

definition nat_of_digits :: "string \<Rightarrow> nat" where
  "nat_of_digits s = foldl (\<lambda>a c. a * 10 + digit_val c) 0 s"

lemma digit_val_digit_char: "d < 10 \<Longrightarrow> digit_val (digit_char d) = d"
  by (simp add: digit_val_def digit_char_def)

lemma nat_of_digits_string_of_nat [simp]: "nat_of_digits (string_of_nat n) = n"
proof (induction n rule: string_of_nat.induct)
  case (1 n)
  show ?case
  proof (cases "n < 10")
    case True
    then show ?thesis
      by (simp add: string_of_nat.simps [of n] nat_of_digits_def digit_val_digit_char)
  next
    case False
    with 1 have "foldl (\<lambda>a c. a * 10 + digit_val c) 0 (string_of_nat (n div 10)) = n div 10"
      by (simp add: nat_of_digits_def)
    with False show ?thesis
      by (simp add: string_of_nat.simps [of n] nat_of_digits_def digit_val_digit_char)
  qed
qed

lemma string_of_nat_inject [simp]: "string_of_nat m = string_of_nat n \<longleftrightarrow> m = n"
  by (metis nat_of_digits_string_of_nat)

lemma string_of_nat_not_Nil [simp]: "string_of_nat n \<noteq> []"
  by (subst string_of_nat.simps) simp

definition hex_digit :: "nat \<Rightarrow> char" where
  "hex_digit d = (if d < 10 then char_of (48 + d) else char_of (87 + d))"

definition hex02 :: "u8 \<Rightarrow> string" where
  "hex02 b = [hex_digit (unat b div 16), hex_digit (unat b mod 16)]"

text \<open>
  \<open>%q\<close> on a string, for strings whose bytes above 0x7F are printable UTF-8 (Go prints those
  unchanged) and any ASCII bytes.
\<close>

definition quote_char :: "char \<Rightarrow> string" where
  "quote_char c =
     (if c = CHR 0x22 then [CHR 0x5C, CHR 0x22]
      else if c = CHR 0x5C then [CHR 0x5C, CHR 0x5C]
      else if c = CHR 0x07 then [CHR 0x5C, CHR ''a'']
      else if c = CHR 0x08 then [CHR 0x5C, CHR ''b'']
      else if c = CHR 0x0C then [CHR 0x5C, CHR ''f'']
      else if c = CHR 0x0A then [CHR 0x5C, CHR ''n'']
      else if c = CHR 0x0D then [CHR 0x5C, CHR ''r'']
      else if c = CHR 0x09 then [CHR 0x5C, CHR ''t'']
      else if c = CHR 0x0B then [CHR 0x5C, CHR ''v'']
      else if (of_char c :: nat) < 32 \<or> c = CHR 0x7F
           then [CHR 0x5C, CHR ''x''] @ hex02 (byte_of_char c)
      else [c])"

definition quoted :: "string \<Rightarrow> string" where
  "quoted s = [CHR 0x22] @ concat (map quote_char s) @ [CHR 0x22]"

section \<open>Functions of the strings and bytes packages\<close>

definition hasPrefix :: "'a list \<Rightarrow> 'a list \<Rightarrow> bool" where
  "hasPrefix s p \<longleftrightarrow> length p \<le> length s \<and> take (length p) s = p"

definition hasSuffix :: "'a list \<Rightarrow> 'a list \<Rightarrow> bool" where
  "hasSuffix s p \<longleftrightarrow> length p \<le> length s \<and> drop (length s - length p) s = p"

definition trimSuffix :: "'a list \<Rightarrow> 'a list \<Rightarrow> 'a list" where
  "trimSuffix s p = (if hasSuffix s p then take (length s - length p) s else s)"

definition trimPrefix :: "'a list \<Rightarrow> 'a list \<Rightarrow> 'a list" where
  "trimPrefix s p = (if hasPrefix s p then drop (length p) s else s)"

text \<open>\<open>IndexByte\<close> and \<open>Index\<close>; Go's -1 is \<open>None\<close>.\<close>

fun indexByte :: "'a list \<Rightarrow> 'a \<Rightarrow> nat option" where
  "indexByte [] c = None"
| "indexByte (x # xs) c = (if x = c then Some 0 else map_option Suc (indexByte xs c))"

fun indexSub :: "'a list \<Rightarrow> 'a list \<Rightarrow> nat option" where
  "indexSub [] p = (if p = [] then Some 0 else None)"
| "indexSub (x # xs) p = (if hasPrefix (x # xs) p then Some 0 else map_option Suc (indexSub xs p))"

text \<open>\<open>Split(s, sep)\<close> for a one-character separator, and \<open>Cut\<close> at its first occurrence.\<close>

fun splitOn :: "'a \<Rightarrow> 'a list \<Rightarrow> 'a list list" where
  "splitOn c [] = [[]]"
| "splitOn c (x # xs) =
     (if x = c then [] # splitOn c xs
      else (case splitOn c xs of [] \<Rightarrow> [[x]] | w # ws \<Rightarrow> (x # w) # ws))"

definition cutAt :: "'a \<Rightarrow> 'a list \<Rightarrow> 'a list \<times> 'a list \<times> bool" where
  "cutAt c s = (case indexByte s c of
       None \<Rightarrow> (s, [], False)
     | Some i \<Rightarrow> (take i s, drop (Suc i) s, True))"

definition toLowerAscii :: "char \<Rightarrow> char" where
  "toLowerAscii c = (let n = (of_char c :: nat) in
     if 65 \<le> n \<and> n \<le> 90 then char_of (n + 32) else c)"

definition isSpaceAscii :: "char \<Rightarrow> bool" where
  "isSpaceAscii c \<longleftrightarrow> c \<in> {CHR 0x09, CHR 0x0A, CHR 0x0B, CHR 0x0C, CHR 0x0D, CHR 0x20}"

definition trimSpace :: "string \<Rightarrow> string" where
  "trimSpace s = rev (dropWhile isSpaceAscii (rev (dropWhile isSpaceAscii s)))"

fun joinWith :: "string \<Rightarrow> string list \<Rightarrow> string" where
  "joinWith sep [] = []"
| "joinWith sep [x] = x"
| "joinWith sep (x # y # ys) = x @ sep @ joinWith sep (y # ys)"

lemma hasPrefix_iff [go_simps]: "hasPrefix s p \<longleftrightarrow> (\<exists>r. s = p @ r)"
  unfolding hasPrefix_def by (metis append_eq_conv_conj append_take_drop_id length_append le_add1)

lemma hasSuffix_iff [go_simps]: "hasSuffix s p \<longleftrightarrow> (\<exists>r. s = r @ p)"
  unfolding hasSuffix_def
  by (metis add_diff_cancel_right' append_eq_append_conv append_take_drop_id diff_diff_cancel
      le_add2 length_append length_drop)

lemma trimSuffix_append [simp]: "trimSuffix (s @ p) p = s"
  by (auto simp: trimSuffix_def hasSuffix_iff)

lemma indexByte_None: "indexByte s c = None \<longleftrightarrow> c \<notin> set s"
  by (induction s) auto

lemma indexByte_SomeD:
  "indexByte s c = Some i \<Longrightarrow> i < length s \<and> s ! i = c \<and> c \<notin> set (take i s)"
  by (induction s arbitrary: i) (auto split: if_splits)

lemma indexByte_first:
  "c \<notin> set a \<Longrightarrow> indexByte (a @ c # b) c = Some (length a)"
  by (induction a) auto

lemma cutAt_first: "c \<notin> set a \<Longrightarrow> cutAt c (a @ c # b) = (a, b, True)"
  by (simp add: cutAt_def indexByte_first)

lemma indexSub_None: "indexSub s p = None \<longleftrightarrow> \<not> (\<exists>a b. s = a @ p @ b)"
proof (induction s)
  case Nil
  then show ?case by auto
next
  case (Cons x xs)
  then show ?case
    by (auto simp: hasPrefix_iff) (metis append_eq_Cons_conv)+
qed

lemma indexSub_SomeD:
  "indexSub s p = Some i \<Longrightarrow> i + length p \<le> length s \<and> take (length p) (drop i s) = p"
  by (induction s arbitrary: i) (auto simp: hasPrefix_def split: if_splits)

section \<open>Functions of path/filepath\<close>

text \<open>\<open>filepath.Clean\<close> on Unix: the lexical clean-up of a path, component by component.\<close>

fun cleanComps :: "bool \<Rightarrow> string list \<Rightarrow> string list \<Rightarrow> string list" where
  "cleanComps rooted stack [] = rev stack"
| "cleanComps rooted stack (c # cs) =
     (if c = [] \<or> c = ''.'' then cleanComps rooted stack cs
      else if c = ''..'' then
        (case stack of
           [] \<Rightarrow> cleanComps rooted (if rooted then [] else [c]) cs
         | d # ds \<Rightarrow> if d = ''..'' then cleanComps rooted (c # stack) cs
                     else cleanComps rooted ds cs)
      else cleanComps rooted (c # stack) cs)"

definition filepathClean :: "string \<Rightarrow> string" where
  "filepathClean p =
     (let rooted = hasPrefix p ''/'';
          out = joinWith ''/'' (cleanComps rooted [] (splitOn CHR ''/'' p))
      in if rooted then ''/'' @ out else if out = [] then ''.'' else out)"

definition filepathJoin :: "string list \<Rightarrow> string" where
  "filepathJoin elems =
     (case filter (\<lambda>e. e \<noteq> []) elems of
        [] \<Rightarrow> []
      | e # es \<Rightarrow> filepathClean (joinWith ''/'' (e # es)))"

definition filepathBase :: "string \<Rightarrow> string" where
  "filepathBase p =
     (if p = [] then ''.''
      else let q = rev (dropWhile (\<lambda>c. c = CHR ''/'') (rev p))
           in if q = [] then ''/'' else last (splitOn CHR ''/'' q))"

text \<open>\<open>filepath.Dir\<close>: the cleaned text before the last slash.\<close>

definition filepathDir :: "string \<Rightarrow> string" where
  "filepathDir p = filepathClean (rev (dropWhile (\<lambda>c. c \<noteq> CHR ''/'') (rev p)))"

section \<open>Generic list facts\<close>

lemma filter_ne_not_in: "x \<notin> set xs \<Longrightarrow> filter (\<lambda>y. y \<noteq> x) xs = xs"
  by (induction xs) auto

lemma length_filter_less_iff: "length (filter P xs) < length xs \<longleftrightarrow> (\<exists>x \<in> set xs. \<not> P x)"
  using length_filter_less [of _ xs P] by (metis filter_True nat_neq_iff)

lemma map_filter_mem: "x \<in> set (List.map_filter f xs) \<longleftrightarrow> (\<exists>y \<in> set xs. f y = Some x)"
  by (induction xs) (auto simp: map_filter_simps split: option.splits)

lemma length_remove1_less: "x \<in> set xs \<Longrightarrow> length (remove1 x xs) < length xs"
  by (induction xs) auto

end
