(* ===== verification/Wire_Encoding.thy ===== *)
theory Wire_Encoding
  imports Ht_Prelude
begin

unbundle bit_operations_syntax

text \<open>
  \<open>internal/protocol/encoding.go\<close>: the primitive encoders (\<open>Encoder.Write*\<close>) and decoders
  (\<open>Decoder.Read*\<close>) of the wire protocol, over a model of \<open>io.Writer\<close> that may fail at any
  byte and of \<open>io.Reader\<close> as the byte stream still to come. The locale \<open>codec\<close> states what an
  encoder and a decoder of one Go type promise each other; it is interpreted here for every
  primitive and in \<open>Wire_Messages\<close> for every message.
\<close>

section \<open>Writers and readers\<close>

text \<open>
  A writer has accepted \<open>sink_out\<close> so far. \<open>sink_room = None\<close> never fails, as
  \<open>bytes.Buffer\<close>; \<open>Some n\<close> is a connection that takes \<open>n\<close> more bytes and then fails: by
  \<open>io.Writer\<close>'s contract a short write returns an error.
\<close>

record sink =
  sink_out :: "byte list"
  sink_room :: "nat option"

type_synonym enc = "sink \<Rightarrow> unit result \<times> sink"

definition ErrShortWrite :: gerror where
  "ErrShortWrite = ErrIO ''write: broken pipe''"

definition sput :: "byte list \<Rightarrow> enc" where
  "sput p s = (case sink_room s of
       None \<Rightarrow> (Inr (), s\<lparr>sink_out := sink_out s @ p\<rparr>)
     | Some n \<Rightarrow>
         if length p \<le> n
         then (Inr (), s\<lparr>sink_out := sink_out s @ p, sink_room := Some (n - length p)\<rparr>)
         else (Inl ErrShortWrite, s\<lparr>sink_out := sink_out s @ take n p, sink_room := Some 0\<rparr>))"

text \<open>The chain \<open>if err := e.WriteX(..); err != nil { return err }; ...\<close>.\<close>

fun eall :: "enc list \<Rightarrow> enc" where
  "eall [] s = (Inr (), s)"
| "eall (e # es) s = (case e s of (Inl err, s') \<Rightarrow> (Inl err, s') | (Inr _, s') \<Rightarrow> eall es s')"

definition efail :: "gerror \<Rightarrow> enc" where
  "efail err s = (Inl err, s)"

definition buffer :: sink where
  "buffer = \<lparr>sink_out = [], sink_room = None\<rparr>"

text \<open>What an encoder puts into an empty \<open>bytes.Buffer\<close>.\<close>

definition bytes_of :: "enc \<Rightarrow> byte list" where
  "bytes_of e = sink_out (snd (e buffer))"

type_synonym 'a dec = "byte list \<Rightarrow> 'a result \<times> byte list"

definition dret :: "'a \<Rightarrow> 'a dec" where
  "dret v bs = (Inr v, bs)"

definition dfail :: "gerror \<Rightarrow> 'a dec" where
  "dfail err bs = (Inl err, bs)"

definition dbind :: "'a dec \<Rightarrow> ('a \<Rightarrow> 'b dec) \<Rightarrow> 'b dec" where
  "dbind d f bs = (case d bs of (Inl err, r) \<Rightarrow> (Inl err, r) | (Inr v, r) \<Rightarrow> f v r)"

fun drepeat :: "nat \<Rightarrow> 'a dec \<Rightarrow> 'a list dec" where
  "drepeat 0 d = dret []"
| "drepeat (Suc n) d = dbind d (\<lambda>x. dbind (drepeat n d) (\<lambda>xs. dret (x # xs)))"

text \<open>\<open>io.ReadFull\<close> of \<open>n\<close> bytes: \<open>EOF\<close> when nothing was read, \<open>ErrUnexpectedEOF\<close> after a
  partial read, which consumes what there was.\<close>

definition readFull :: "nat \<Rightarrow> byte list dec" where
  "readFull n bs =
     (if n \<le> length bs then (Inr (take n bs), drop n bs)
      else (Inl (if bs = [] then EOF else ErrUnexpectedEOF), []))"

section \<open>Big-endian integers\<close>

definition putUint16 :: "u16 \<Rightarrow> byte list" where
  "putUint16 v = [ucast (drop_bit 8 v), ucast v]"

definition getUint16 :: "byte list \<Rightarrow> u16" where
  "getUint16 b = ucast (b ! 1) OR push_bit 8 (ucast (b ! 0))"

definition putUint32 :: "u32 \<Rightarrow> byte list" where
  "putUint32 v = [ucast (drop_bit 24 v), ucast (drop_bit 16 v), ucast (drop_bit 8 v), ucast v]"

definition getUint32 :: "byte list \<Rightarrow> u32" where
  "getUint32 b = ucast (b ! 3) OR push_bit 8 (ucast (b ! 2))
     OR push_bit 16 (ucast (b ! 1)) OR push_bit 24 (ucast (b ! 0))"

definition putUint64 :: "u64 \<Rightarrow> byte list" where
  "putUint64 v = putUint32 (ucast (drop_bit 32 v)) @ putUint32 (ucast v)"

definition getUint64 :: "byte list \<Rightarrow> u64" where
  "getUint64 b = ucast (getUint32 (drop 4 b)) OR push_bit 32 (ucast (getUint32 (take 4 b)))"

section \<open>Encoder\<close>

definition WriteU8 :: "u8 \<Rightarrow> enc" where
  "WriteU8 v = sput [v]"

definition WriteU16 :: "u16 \<Rightarrow> enc" where
  "WriteU16 v = sput (putUint16 v)"

definition WriteU32 :: "u32 \<Rightarrow> enc" where
  "WriteU32 v = sput (putUint32 v)"

text \<open>\<open>int32\<close> values are 32-bit words read by \<open>sint\<close>; \<open>uint32(v)\<close> keeps the bits.\<close>

definition WriteI32 :: "32 word \<Rightarrow> enc" where
  "WriteI32 v = sput (putUint32 v)"

definition WriteBool :: "bool \<Rightarrow> enc" where
  "WriteBool v = sput [if v then 0x01 else 0x00]"

definition WriteString :: "string \<Rightarrow> enc" where
  "WriteString v =
     (if length v > 0xFFFF
      then efail (Errorf (''string too long: '' @ string_of_nat (length v) @ '' bytes''))
      else eall [WriteU16 (of_nat (length v)),
                 if length v = 0 then eall [] else sput (bytes_of_string v)])"

definition WriteStringSlice :: "string list \<Rightarrow> enc" where
  "WriteStringSlice v = eall (WriteU32 (of_nat (length v)) # map WriteString v)"

definition WriteBytes :: "byte list \<Rightarrow> enc" where
  "WriteBytes v = eall [WriteU32 (of_nat (length v)), if length v = 0 then eall [] else sput v]"

section \<open>Decoder\<close>

definition maxFrameSize :: u32 where
  "maxFrameSize = push_bit 20 16"

definition ReadU8 :: "u8 dec" where
  "ReadU8 = dbind (readFull 1) (\<lambda>b. dret (b ! 0))"

definition ReadU16 :: "u16 dec" where
  "ReadU16 = dbind (readFull 2) (\<lambda>b. dret (getUint16 b))"

definition ReadU32 :: "u32 dec" where
  "ReadU32 = dbind (readFull 4) (\<lambda>b. dret (getUint32 b))"

definition ReadI32 :: "32 word dec" where
  "ReadI32 = dbind (readFull 4) (\<lambda>b. dret (getUint32 b))"

definition ReadBool :: "bool dec" where
  "ReadBool = dbind (readFull 1) (\<lambda>b. dret (b ! 0 \<noteq> 0))"

definition ReadString :: "string dec" where
  "ReadString = dbind ReadU16 (\<lambda>n.
     if n = 0 then dret [] else dbind (readFull (unat n)) (\<lambda>b. dret (string_of_bytes b)))"

definition ReadStringSlice :: "string list dec" where
  "ReadStringSlice = dbind ReadU32 (\<lambda>n.
     if n > maxFrameSize
     then dfail (Errorf (''string slice count '' @ string_of_nat (unat n) @ '' exceeds maximum''))
     else drepeat (unat n) ReadString)"

definition ReadBytes :: "byte list dec" where
  "ReadBytes = dbind ReadU32 (\<lambda>n.
     if n = 0 then dret []
     else if n > maxFrameSize
     then dfail (Errorf (''byte slice size '' @ string_of_nat (unat n) @ '' exceeds maximum''))
     else readFull (unat n))"

section \<open>Laws of writers\<close>

lemma sput_buffer [codec_simps]: "sput p buffer = (Inr (), \<lparr>sink_out = p, sink_room = None\<rparr>)"
  by (simp add: sput_def buffer_def)

lemma sput_Nil [simp]: "sput [] s = (Inr (), s)"
  by (cases s) (auto simp: sput_def split: option.splits)

lemma eall_Nil_sput: "eall [] = sput []"
  by (rule ext) simp

text \<open>Consecutive writes are one write: a connection that fails fails at the same byte.\<close>

lemma sput_append:
  "(case sput p s of (Inl err, s') \<Rightarrow> (Inl err, s') | (Inr _, s') \<Rightarrow> sput q s') = sput (p @ q) s"
  by (cases s) (auto simp: sput_def split: option.splits)

lemma eall_sputs [codec_simps]: "eall (map sput ps) = sput (concat ps)"
proof (induction ps)
  case Nil
  show ?case by (rule ext) simp
next
  case (Cons p ps)
  show ?case
  proof (rule ext)
    fix s
    show "eall (map sput (p # ps)) s = sput (concat (p # ps)) s"
      using sput_append [where p = p and s = s and q = "concat ps"] Cons
      by (auto split: prod.splits sum.splits)
  qed
qed

lemma eall_fuse [codec_simps]:
  "eall [sput p] = sput p"
  "eall (sput p # sput q # es) = eall (sput (p @ q) # es)"
proof -
  show "eall [sput p] = sput p"
    by (rule ext) (simp split: prod.split sum.split)
  show "eall (sput p # sput q # es) = eall (sput (p @ q) # es)"
    by (rule ext) (simp add: sput_append [symmetric] split: prod.split sum.split)
qed

lemma bytes_of_sput [simp]: "bytes_of (sput p) = p"
  by (simp add: bytes_of_def codec_simps)

text \<open>Encoders only append, and an encoder that fails on a never-failing buffer fails everywhere
  it gets that far; both are used for whole messages.\<close>

lemma sput_appends: "\<exists>p. sink_out (snd (sput q s)) = sink_out s @ p"
  by (auto simp: sput_def split: option.splits)

section \<open>Laws of readers\<close>

text \<open>A decoder that succeeded does the same with more input behind it.\<close>

definition extends :: "'a dec \<Rightarrow> bool" where
  "extends d \<longleftrightarrow> (\<forall>bs v r m. d bs = (Inr v, r) \<longrightarrow> d (bs @ m) = (Inr v, r @ m))"

lemma extendsD: "extends d \<Longrightarrow> d bs = (Inr v, r) \<Longrightarrow> d (bs @ m) = (Inr v, r @ m)"
  by (simp add: extends_def)

lemma extends_dret [dec_intros]: "extends (dret v)"
  by (simp add: extends_def dret_def)

lemma extends_dfail [dec_intros]: "extends (dfail e)"
  by (simp add: extends_def dfail_def)

lemma extends_dbind [dec_intros]:
  assumes "extends d" and "\<And>v. extends (f v)"
  shows "extends (dbind d f)"
  unfolding extends_def
proof (intro allI impI)
  fix bs v r m
  assume "dbind d f bs = (Inr v, r)"
  then obtain u q where u: "d bs = (Inr u, q)" and v: "f u q = (Inr v, r)"
    by (auto simp: dbind_def split: prod.splits sum.splits)
  from extendsD [OF assms(1) u] extendsD [OF assms(2) v]
  show "dbind d f (bs @ m) = (Inr v, r @ m)"
    by (simp add: dbind_def)
qed

lemma extends_readFull [dec_intros]: "extends (readFull n)"
  by (auto simp: extends_def readFull_def split: if_splits)

lemma extends_if [dec_intros]: "extends d \<Longrightarrow> extends e \<Longrightarrow> extends (if b then d else e)"
  by simp

lemma extends_drepeat [dec_intros]: "extends d \<Longrightarrow> extends (drepeat n d)"
  by (induction n) (auto intro!: dec_intros)

section \<open>The codec interface\<close>

text \<open>
  \<open>enc\<close> and \<open>dec\<close> implement the wire format of a Go type on the values where \<open>ok\<close> holds
  (the lengths fit their length fields): the encoder writes one run of bytes, the decoder reads
  it back and leaves the rest of the stream, and more input never changes a result.
\<close>

locale codec =
  fixes enc :: "'a \<Rightarrow> enc"
    and dec :: "'a dec"
    and ok :: "'a \<Rightarrow> bool"
  assumes enc_run: "ok x \<Longrightarrow> enc x = sput (bytes_of (enc x))"
    and dec_enc: "ok x \<Longrightarrow> dec (bytes_of (enc x) @ r) = (Inr x, r)"
    and dec_extends: "extends dec"
begin

lemma enc_inject: "ok x \<Longrightarrow> ok y \<Longrightarrow> bytes_of (enc x) @ r = bytes_of (enc y) @ q \<Longrightarrow> x = y \<and> r = q"
  by (metis dec_enc Inr_inject prod.inject)

text \<open>No encoding is a proper prefix of another; a truncated encoding is refused.\<close>

lemma truncated_fails:
  assumes "ok x" and "bytes_of (enc x) = p @ q" and "q \<noteq> []"
  shows "\<not> is_ok (fst (dec p))"
proof
  assume "is_ok (fst (dec p))"
  then obtain v r where "dec p = (Inr v, r)"
    by (cases "dec p") (auto simp: is_ok_iff)
  from extendsD [OF dec_extends this, of q] dec_enc [OF assms(1), of "[]"] assms(2)
  have "r @ q = []" by simp
  with assms(3) show False by simp
qed

lemma drepeat_enc:
  assumes "\<forall>x \<in> set xs. ok x"
  shows "drepeat (length xs) dec (concat (map (\<lambda>x. bytes_of (enc x)) xs) @ r) = (Inr xs, r)"
  using assms
proof (induction xs)
  case Nil
  show ?case by (simp add: dret_def)
next
  case (Cons x xs)
  then have "dec (bytes_of (enc x) @ concat (map (\<lambda>x. bytes_of (enc x)) xs) @ r)
      = (Inr x, concat (map (\<lambda>x. bytes_of (enc x)) xs) @ r)"
    by (simp add: dec_enc)
  with Cons show ?case by (simp add: dbind_def dret_def)
qed

lemma eall_enc:
  assumes "\<forall>x \<in> set xs. ok x"
  shows "eall (map enc xs) = sput (concat (map (\<lambda>x. bytes_of (enc x)) xs))"
proof -
  from assms have "map enc xs = map sput (map (\<lambda>x. bytes_of (enc x)) xs)"
    by (induction xs) (auto simp: enc_run [symmetric])
  then show ?thesis by (simp only: eall_sputs)
qed

end

section \<open>The primitive codecs\<close>

definition str_bytes :: "string \<Rightarrow> byte list" where
  "str_bytes s = putUint16 (of_nat (length s)) @ bytes_of_string s"

definition blob_bytes :: "byte list \<Rightarrow> byte list" where
  "blob_bytes b = putUint32 (of_nat (length b)) @ b"

definition slice_bytes :: "string list \<Rightarrow> byte list" where
  "slice_bytes v = putUint32 (of_nat (length v)) @ concat (map str_bytes v)"

definition str_ok :: "string \<Rightarrow> bool" where
  "str_ok s \<longleftrightarrow> length s \<le> 0xFFFF"

definition blob_ok :: "byte list \<Rightarrow> bool" where
  "blob_ok b \<longleftrightarrow> length b \<le> unat maxFrameSize"

definition slice_ok :: "string list \<Rightarrow> bool" where
  "slice_ok v \<longleftrightarrow> length v \<le> unat maxFrameSize \<and> list_all str_ok v"

lemma unat_maxFrameSize [simp]: "unat maxFrameSize = 16777216"
  by (simp add: maxFrameSize_def push_bit_eq_mult)

lemma length_putUint [simp]:
  "length (putUint16 v) = 2" "length (putUint32 w) = 4" "length (putUint64 x) = 8"
  by (simp_all add: putUint16_def putUint32_def putUint64_def)

lemma getUint16_put [simp]: "getUint16 (putUint16 v) = v"
  unfolding getUint16_def putUint16_def
  by (rule bit_word_eqI) (auto simp: bit_simps not_less le_Suc_eq)

lemma getUint32_put [simp]: "getUint32 (putUint32 v) = v"
proof (rule bit_word_eqI)
  fix n
  assume "n < LENGTH(32)"
  then consider "n < 8" | "8 \<le> n" "n < 16" | "16 \<le> n" "n < 24" | "24 \<le> n" "n < 32"
    by force
  then show "bit (getUint32 (putUint32 v)) n = bit v n"
    by cases (auto simp: getUint32_def putUint32_def bit_simps)
qed

lemma getUint64_put [simp]: "getUint64 (putUint64 v) = v"
  unfolding getUint64_def putUint64_def
  by (rule bit_word_eqI) (auto simp: bit_simps not_less)

text \<open>The other direction: the bytes that were read are the encoding of the value.\<close>

lemma putUint16_get: "length b = 2 \<Longrightarrow> putUint16 (getUint16 b) = b"
proof -
  assume "length b = 2"
  then obtain x y where b: "b = [x, y]"
    by (auto simp: numeral_2_eq_2 length_Suc_conv)
  have "ucast (drop_bit 8 (getUint16 [x, y])) = x" and "ucast (getUint16 [x, y]) = y"
    by (rule bit_word_eqI; auto simp: getUint16_def bit_simps dest: bit_imp_le_length)+
  then show ?thesis by (simp add: b putUint16_def)
qed

lemma putUint32_get: "length b = 4 \<Longrightarrow> putUint32 (getUint32 b) = b"
proof -
  assume "length b = 4"
  then obtain w x y z where b: "b = [w, x, y, z]"
    by (auto simp: numeral_eq_Suc length_Suc_conv)
  have "ucast (drop_bit 24 (getUint32 [w, x, y, z])) = w"
    and "ucast (drop_bit 16 (getUint32 [w, x, y, z])) = x"
    and "ucast (drop_bit 8 (getUint32 [w, x, y, z])) = y"
    and "ucast (getUint32 [w, x, y, z]) = z"
    by (rule bit_word_eqI; auto simp: getUint32_def bit_simps dest: bit_imp_le_length)+
  then show ?thesis by (simp add: b putUint32_def)
qed

lemma putUint64_get:
  assumes "length b = 8"
  shows "putUint64 (getUint64 b) = b"
proof -
  let ?h = "getUint32 (take 4 b)" and ?l = "getUint32 (drop 4 b)"
  have "ucast (drop_bit 32 (getUint64 b)) = ?h" and "ucast (getUint64 b) = ?l"
    by (rule bit_word_eqI; auto simp: getUint64_def bit_simps dest: bit_imp_le_length)+
  then have "putUint64 (getUint64 b) = putUint32 ?h @ putUint32 ?l"
    by (simp add: putUint64_def)
  also have "\<dots> = take 4 b @ drop 4 b"
    using assms by (simp add: putUint32_get)
  finally show ?thesis by simp
qed

lemma readFull_SomeD: "readFull n bs = (Inr p, r) \<Longrightarrow> bs = p @ r \<and> length p = n"
  by (auto simp: readFull_def split: if_splits)

lemma WriteString_run [codec_simps]: "str_ok s \<Longrightarrow> WriteString s = sput (str_bytes s)"
  by (auto simp: WriteString_def str_ok_def str_bytes_def WriteU16_def codec_simps
      eall_Nil_sput bytes_of_string_def)

lemma WriteString_too_long:
  "\<not> str_ok s \<Longrightarrow>
     WriteString s = efail (Errorf (''string too long: '' @ string_of_nat (length s) @ '' bytes''))"
  by (simp add: WriteString_def str_ok_def)

lemma WriteBytes_run [codec_simps]: "WriteBytes b = sput (blob_bytes b)"
  by (auto simp: WriteBytes_def blob_bytes_def WriteU32_def codec_simps eall_Nil_sput)

lemma WriteStringSlice_run [codec_simps]:
  assumes "slice_ok v"
  shows "WriteStringSlice v = sput (slice_bytes v)"
proof -
  from assms have "list_all str_ok v" by (simp add: slice_ok_def)
  then have "map WriteString v = map (sput \<circ> str_bytes) v"
    by (induction v) (auto simp: codec_simps)
  then have "WriteStringSlice v = eall (map sput (putUint32 (of_nat (length v)) # map str_bytes v))"
    by (simp only: WriteStringSlice_def WriteU32_def list.map map_map)
  then show ?thesis by (simp only: eall_sputs slice_bytes_def concat.simps)
qed

lemmas [codec_simps] = WriteU8_def WriteU16_def WriteU32_def WriteI32_def WriteBool_def

lemma readFull_append [codec_simps]: "length p = n \<Longrightarrow> readFull n (p @ r) = (Inr p, r)"
  by (auto simp: readFull_def)

lemma ReadU8_put [codec_simps]: "ReadU8 (b # r) = (Inr b, r)"
  using readFull_append [of "[b]" 1 r] by (simp add: ReadU8_def dbind_def dret_def)

lemma ReadBool_put [codec_simps]: "ReadBool ((if v then 1 else 0) # r) = (Inr v, r)"
  using readFull_append [of "[if v then 1 else 0]" 1 r]
  by (auto simp: ReadBool_def dbind_def dret_def)

lemma ReadU16_put [codec_simps]: "ReadU16 (putUint16 v @ r) = (Inr v, r)"
  by (simp add: ReadU16_def dbind_def dret_def codec_simps)

lemma ReadU32_put [codec_simps]: "ReadU32 (putUint32 v @ r) = (Inr v, r)"
  by (simp add: ReadU32_def dbind_def dret_def codec_simps)

lemma ReadI32_put [codec_simps]: "ReadI32 (putUint32 v @ r) = (Inr v, r)"
  by (simp add: ReadI32_def dbind_def dret_def codec_simps)

lemma of_nat_eq_0_small:
  "n < 2 ^ LENGTH('a) \<Longrightarrow> (of_nat n :: 'a::len word) = 0 \<longleftrightarrow> n = 0"
  by (subst unat_eq_zero [symmetric]) (simp add: unat_of_nat_small)

lemma ReadString_put [codec_simps]:
  assumes "str_ok s"
  shows "ReadString (str_bytes s @ r) = (Inr s, r)"
proof (cases "s = []")
  case True
  then show ?thesis
    by (simp add: ReadString_def str_bytes_def bytes_of_string_def dbind_def dret_def codec_simps)
next
  case False
  from assms have "length s < 2 ^ LENGTH(16)" by (simp add: str_ok_def)
  with False show ?thesis
    by (simp add: ReadString_def str_bytes_def dbind_def dret_def codec_simps
        of_nat_eq_0_small unat_of_nat_small del: of_nat_eq_0_iff)
qed

lemma unat_of_nat_frame: "n \<le> unat maxFrameSize \<Longrightarrow> unat (of_nat n :: u32) = n"
  by (rule unat_of_nat_small) simp

lemma of_nat_le_maxFrameSize: "n \<le> unat maxFrameSize \<Longrightarrow> \<not> (of_nat n :: u32) > maxFrameSize"
  by (simp add: word_less_nat_alt unat_of_nat_frame)

lemma ReadBytes_put [codec_simps]:
  assumes "blob_ok b"
  shows "ReadBytes (blob_bytes b @ r) = (Inr b, r)"
proof (cases "b = []")
  case True
  then show ?thesis
    by (simp add: ReadBytes_def blob_bytes_def dbind_def dret_def codec_simps)
next
  case False
  from assms have n: "length b \<le> unat maxFrameSize" by (simp only: blob_ok_def)
  from n have "length b < 2 ^ LENGTH(32)" by simp
  with False of_nat_le_maxFrameSize [OF n] unat_of_nat_frame [OF n] show ?thesis
    by (simp add: ReadBytes_def blob_bytes_def dbind_def codec_simps of_nat_eq_0_small
        del: of_nat_eq_0_iff)
qed

lemma extends_prims [dec_intros]:
  "extends ReadU8" "extends ReadU16" "extends ReadU32" "extends ReadI32" "extends ReadBool"
  "extends ReadString" "extends ReadStringSlice" "extends ReadBytes"
  unfolding ReadU8_def ReadU16_def ReadU32_def ReadI32_def ReadBool_def ReadString_def
    ReadStringSlice_def ReadBytes_def
  by (intro dec_intros)+

interpretation u8: codec WriteU8 ReadU8 "\<lambda>_. True"
  by unfold_locales (simp_all add: codec_simps dec_intros)

interpretation u16: codec WriteU16 ReadU16 "\<lambda>_. True"
  by unfold_locales (simp_all add: codec_simps dec_intros)

interpretation u32: codec WriteU32 ReadU32 "\<lambda>_. True"
  by unfold_locales (simp_all add: codec_simps dec_intros)

interpretation i32: codec WriteI32 ReadI32 "\<lambda>_. True"
  by unfold_locales (simp_all add: codec_simps dec_intros)

interpretation gobool: codec WriteBool ReadBool "\<lambda>_. True"
  by unfold_locales (simp_all add: codec_simps dec_intros)

interpretation gostr: codec WriteString ReadString str_ok
  by unfold_locales (simp_all add: codec_simps dec_intros)

interpretation blob: codec WriteBytes ReadBytes blob_ok
  by unfold_locales (simp_all add: codec_simps dec_intros)

lemma concat_str_bytes:
  "list_all str_ok v \<Longrightarrow>
     concat (map (\<lambda>s. bytes_of (WriteString s)) v) = concat (map str_bytes v)"
  by (induction v) (auto simp: codec_simps)

lemma ReadStringSlice_put [codec_simps]:
  assumes "slice_ok v"
  shows "ReadStringSlice (slice_bytes v @ r) = (Inr v, r)"
proof -
  from assms have n: "length v \<le> unat maxFrameSize" and ok: "list_all str_ok v"
    by (simp_all only: slice_ok_def)
  from ok have "drepeat (length v) ReadString (concat (map str_bytes v) @ r) = (Inr v, r)"
    using gostr.drepeat_enc [of v r] by (simp add: concat_str_bytes list_all_iff)
  with of_nat_le_maxFrameSize [OF n] unat_of_nat_frame [OF n] show ?thesis
    by (simp add: ReadStringSlice_def slice_bytes_def dbind_def codec_simps)
qed

interpretation goslice: codec WriteStringSlice ReadStringSlice slice_ok
  by unfold_locales (simp_all add: codec_simps dec_intros)

section \<open>Counted lists\<close>

text \<open>Lists go over the wire as a \<open>u32\<close> count and the elements one after the other.\<close>

context codec begin

lemma eall_enc_Cons:
  assumes "\<forall>x \<in> set xs. ok x"
  shows "eall (sput p # map enc xs) = sput (p @ concat (map (\<lambda>x. bytes_of (enc x)) xs))"
proof -
  from assms have "map enc xs = map sput (map (\<lambda>x. bytes_of (enc x)) xs)"
    by (induction xs) (auto simp: enc_run [symmetric])
  then have "sput p # map enc xs = map sput (p # map (\<lambda>x. bytes_of (enc x)) xs)"
    by (simp only: list.map)
  then show ?thesis by (simp only: eall_sputs concat.simps)
qed

lemma drepeat_counted:
  assumes "\<forall>x \<in> set xs. ok x" and "length xs \<le> unat maxFrameSize"
  shows "drepeat (unat (of_nat (length xs) :: u32)) dec
           (concat (map (\<lambda>x. bytes_of (enc x)) xs) @ r) = (Inr xs, r)"
  using drepeat_enc [OF assms(1)] unat_of_nat_frame [OF assms(2)] by simp

end

end
