(* ===== verification/Wire_Messages.thy ===== *)
theory Wire_Messages
  imports Wire_Encoding
begin

text \<open>
  \<open>internal/protocol/messages.go\<close>, \<open>messages_request.go\<close> and \<open>messages_response.go\<close>: every
  message of the protocol as a record with the fields of the Go struct, its \<open>encode\<close> and
  \<open>decode\<close> methods in the order of the source, and the interpretation of \<open>codec\<close> for each.
  \<open>ok_X\<close> says that the strings and lists of a message fit their length fields.
\<close>

section \<open>Session rows\<close>

record sessionClient =
  sc_ClientID :: string
  sc_ReadOnly :: bool
  sc_Version :: string

definition SessionStateRunning :: string where
  "SessionStateRunning = ''running''"

definition SessionStateDead :: string where
  "SessionStateDead = ''dead''"

record sessionRow =
  row_Name :: string
  row_State :: string
  row_Cols :: u16
  row_Rows :: u16
  row_PID :: u32
  row_CreatedAt :: u32
  row_SavedAt :: u32
  row_CWD :: string
  row_Clients :: "sessionClient list"

record daemonStatus =
  ds_PID :: u32
  ds_Uptime :: u32
  ds_SocketPath :: string
  ds_RunningCount :: u32
  ds_DeadCount :: u32
  ds_Version :: string

record sessionStatus =
  ss_Name :: string
  ss_State :: string
  ss_Cols :: u16
  ss_Rows :: u16
  ss_PID :: u32
  ss_CWD :: string
  ss_Clients :: "sessionClient list"

definition encodeSessionClient :: "sessionClient \<Rightarrow> enc" where
  "encodeSessionClient m = eall
     [WriteString (sc_ClientID m),
      WriteBool (sc_ReadOnly m),
      WriteString (sc_Version m)]"

definition decodeSessionClient :: "sessionClient dec" where
  "decodeSessionClient =
     dbind ReadString (\<lambda>vClientID.
     dbind ReadBool (\<lambda>vReadOnly.
     dbind ReadString (\<lambda>vVersion.
     dret \<lparr>sc_ClientID = vClientID, sc_ReadOnly = vReadOnly, sc_Version = vVersion\<rparr>)))"

definition ok_SessionClient :: "sessionClient \<Rightarrow> bool" where
  "ok_SessionClient m \<longleftrightarrow> str_ok (sc_ClientID m) \<and> str_ok (sc_Version m)"

definition encodeSessionClients :: "sessionClient list \<Rightarrow> enc" where
  "encodeSessionClients cs = eall (WriteU32 (of_nat (length cs)) # map encodeSessionClient cs)"

definition decodeSessionClients :: "sessionClient list dec" where
  "decodeSessionClients = dbind ReadU32 (\<lambda>count.
     if count > maxFrameSize
     then dfail (Errorf (''client count '' @ string_of_nat (unat count) @ '' exceeds maximum''))
     else drepeat (unat count) decodeSessionClient)"

definition clients_ok :: "sessionClient list \<Rightarrow> bool" where
  "clients_ok cs \<longleftrightarrow> length cs \<le> unat maxFrameSize \<and> list_all ok_SessionClient cs"

section \<open>Requests\<close>

record createMsg =
  create_Name :: string
  create_Command :: "string list"
  create_Env :: "string list"
  create_CWD :: string
  create_Scrollback :: u32
  create_Force :: bool

definition encode_Create :: "createMsg \<Rightarrow> enc" where
  "encode_Create m = eall
     [WriteString (create_Name m),
      WriteStringSlice (create_Command m),
      WriteStringSlice (create_Env m),
      WriteString (create_CWD m),
      WriteU32 (create_Scrollback m),
      WriteBool (create_Force m)]"

definition decode_Create :: "createMsg dec" where
  "decode_Create =
     dbind ReadString (\<lambda>vName.
     dbind ReadStringSlice (\<lambda>vCommand.
     dbind ReadStringSlice (\<lambda>vEnv.
     dbind ReadString (\<lambda>vCWD.
     dbind ReadU32 (\<lambda>vScrollback.
     dbind ReadBool (\<lambda>vForce.
     dret \<lparr>create_Name = vName, create_Command = vCommand, create_Env = vEnv, create_CWD = vCWD, create_Scrollback = vScrollback, create_Force = vForce\<rparr>))))))"

definition ok_Create :: "createMsg \<Rightarrow> bool" where
  "ok_Create m \<longleftrightarrow> str_ok (create_Name m) \<and> slice_ok (create_Command m) \<and> slice_ok (create_Env m) \<and> str_ok (create_CWD m)"

record attachMsg =
  attach_Name :: string
  attach_Command :: "string list"
  attach_Env :: "string list"
  attach_CWD :: string
  attach_Cols :: u16
  attach_Rows :: u16
  attach_Xpixel :: u16
  attach_Ypixel :: u16
  attach_ReadOnly :: bool
  attach_Restore :: bool
  attach_Scrollback :: u32

definition encode_Attach :: "attachMsg \<Rightarrow> enc" where
  "encode_Attach m = eall
     [WriteString (attach_Name m),
      WriteStringSlice (attach_Command m),
      WriteStringSlice (attach_Env m),
      WriteString (attach_CWD m),
      WriteU16 (attach_Cols m),
      WriteU16 (attach_Rows m),
      WriteU16 (attach_Xpixel m),
      WriteU16 (attach_Ypixel m),
      WriteBool (attach_ReadOnly m),
      WriteBool (attach_Restore m),
      WriteU32 (attach_Scrollback m)]"

definition decode_Attach :: "attachMsg dec" where
  "decode_Attach =
     dbind ReadString (\<lambda>vName.
     dbind ReadStringSlice (\<lambda>vCommand.
     dbind ReadStringSlice (\<lambda>vEnv.
     dbind ReadString (\<lambda>vCWD.
     dbind ReadU16 (\<lambda>vCols.
     dbind ReadU16 (\<lambda>vRows.
     dbind ReadU16 (\<lambda>vXpixel.
     dbind ReadU16 (\<lambda>vYpixel.
     dbind ReadBool (\<lambda>vReadOnly.
     dbind ReadBool (\<lambda>vRestore.
     dbind ReadU32 (\<lambda>vScrollback.
     dret \<lparr>attach_Name = vName, attach_Command = vCommand, attach_Env = vEnv, attach_CWD = vCWD, attach_Cols = vCols, attach_Rows = vRows, attach_Xpixel = vXpixel, attach_Ypixel = vYpixel, attach_ReadOnly = vReadOnly, attach_Restore = vRestore, attach_Scrollback = vScrollback\<rparr>)))))))))))"

definition ok_Attach :: "attachMsg \<Rightarrow> bool" where
  "ok_Attach m \<longleftrightarrow> str_ok (attach_Name m) \<and> slice_ok (attach_Command m) \<and> slice_ok (attach_Env m) \<and> str_ok (attach_CWD m)"

record inputMsg =
  input_Data :: "byte list"

definition encode_Input :: "inputMsg \<Rightarrow> enc" where
  "encode_Input m = eall
     [WriteBytes (input_Data m)]"

definition decode_Input :: "inputMsg dec" where
  "decode_Input =
     dbind ReadBytes (\<lambda>vData.
     dret \<lparr>input_Data = vData\<rparr>)"

definition ok_Input :: "inputMsg \<Rightarrow> bool" where
  "ok_Input m \<longleftrightarrow> blob_ok (input_Data m)"

record resizeMsg =
  resize_Cols :: u16
  resize_Rows :: u16
  resize_Xpixel :: u16
  resize_Ypixel :: u16

definition encode_Resize :: "resizeMsg \<Rightarrow> enc" where
  "encode_Resize m = eall
     [WriteU16 (resize_Cols m),
      WriteU16 (resize_Rows m),
      WriteU16 (resize_Xpixel m),
      WriteU16 (resize_Ypixel m)]"

definition decode_Resize :: "resizeMsg dec" where
  "decode_Resize =
     dbind ReadU16 (\<lambda>vCols.
     dbind ReadU16 (\<lambda>vRows.
     dbind ReadU16 (\<lambda>vXpixel.
     dbind ReadU16 (\<lambda>vYpixel.
     dret \<lparr>resize_Cols = vCols, resize_Rows = vRows, resize_Xpixel = vXpixel, resize_Ypixel = vYpixel\<rparr>))))"

definition ok_Resize :: "resizeMsg \<Rightarrow> bool" where
  "ok_Resize m \<longleftrightarrow> True"

record listMsg =
  list_IncludeClients :: bool

definition encode_List :: "listMsg \<Rightarrow> enc" where
  "encode_List m = eall
     [WriteBool (list_IncludeClients m)]"

definition decode_List :: "listMsg dec" where
  "decode_List =
     dbind ReadBool (\<lambda>vIncludeClients.
     dret \<lparr>list_IncludeClients = vIncludeClients\<rparr>)"

definition ok_List :: "listMsg \<Rightarrow> bool" where
  "ok_List m \<longleftrightarrow> True"

record killMsg =
  kill_Name :: string

definition encode_Kill :: "killMsg \<Rightarrow> enc" where
  "encode_Kill m = eall
     [WriteString (kill_Name m)]"

definition decode_Kill :: "killMsg dec" where
  "decode_Kill =
     dbind ReadString (\<lambda>vName.
     dret \<lparr>kill_Name = vName\<rparr>)"

definition ok_Kill :: "killMsg \<Rightarrow> bool" where
  "ok_Kill m \<longleftrightarrow> str_ok (kill_Name m)"

record sendMsg =
  send_Name :: string
  send_Data :: "byte list"

definition encode_Send :: "sendMsg \<Rightarrow> enc" where
  "encode_Send m = eall
     [WriteString (send_Name m),
      WriteBytes (send_Data m)]"

definition decode_Send :: "sendMsg dec" where
  "decode_Send =
     dbind ReadString (\<lambda>vName.
     dbind ReadBytes (\<lambda>vData.
     dret \<lparr>send_Name = vName, send_Data = vData\<rparr>))"

definition ok_Send :: "sendMsg \<Rightarrow> bool" where
  "ok_Send m \<longleftrightarrow> str_ok (send_Name m) \<and> blob_ok (send_Data m)"

record sendKeyMsg =
  sendKey_Name :: string
  sendKey_Key :: u32
  sendKey_Mods :: u32

definition encode_SendKey :: "sendKeyMsg \<Rightarrow> enc" where
  "encode_SendKey m = eall
     [WriteString (sendKey_Name m),
      WriteU32 (sendKey_Key m),
      WriteU32 (sendKey_Mods m)]"

definition decode_SendKey :: "sendKeyMsg dec" where
  "decode_SendKey =
     dbind ReadString (\<lambda>vName.
     dbind ReadU32 (\<lambda>vKey.
     dbind ReadU32 (\<lambda>vMods.
     dret \<lparr>sendKey_Name = vName, sendKey_Key = vKey, sendKey_Mods = vMods\<rparr>)))"

definition ok_SendKey :: "sendKeyMsg \<Rightarrow> bool" where
  "ok_SendKey m \<longleftrightarrow> str_ok (sendKey_Name m)"

record dumpMsg =
  dump_Name :: string
  dump_Format :: u8

definition encode_Dump :: "dumpMsg \<Rightarrow> enc" where
  "encode_Dump m = eall
     [WriteString (dump_Name m),
      WriteU8 (dump_Format m)]"

definition decode_Dump :: "dumpMsg dec" where
  "decode_Dump =
     dbind ReadString (\<lambda>vName.
     dbind ReadU8 (\<lambda>vFormat.
     dret \<lparr>dump_Name = vName, dump_Format = vFormat\<rparr>))"

definition ok_Dump :: "dumpMsg \<Rightarrow> bool" where
  "ok_Dump m \<longleftrightarrow> str_ok (dump_Name m)"

record kickMsg =
  kick_Name :: string
  kick_ClientID :: string

definition encode_Kick :: "kickMsg \<Rightarrow> enc" where
  "encode_Kick m = eall
     [WriteString (kick_Name m),
      WriteString (kick_ClientID m)]"

definition decode_Kick :: "kickMsg dec" where
  "decode_Kick =
     dbind ReadString (\<lambda>vName.
     dbind ReadString (\<lambda>vClientID.
     dret \<lparr>kick_Name = vName, kick_ClientID = vClientID\<rparr>))"

definition ok_Kick :: "kickMsg \<Rightarrow> bool" where
  "ok_Kick m \<longleftrightarrow> str_ok (kick_Name m) \<and> str_ok (kick_ClientID m)"

record statusMsg =
  status_Name :: string

definition encode_Status :: "statusMsg \<Rightarrow> enc" where
  "encode_Status m = eall
     [WriteString (status_Name m)]"

definition decode_Status :: "statusMsg dec" where
  "decode_Status =
     dbind ReadString (\<lambda>vName.
     dret \<lparr>status_Name = vName\<rparr>)"

definition ok_Status :: "statusMsg \<Rightarrow> bool" where
  "ok_Status m \<longleftrightarrow> str_ok (status_Name m)"

section \<open>Responses\<close>

record errorMsg =
  error_Message :: string

definition encode_Error :: "errorMsg \<Rightarrow> enc" where
  "encode_Error m = eall
     [WriteString (error_Message m)]"

definition decode_Error :: "errorMsg dec" where
  "decode_Error =
     dbind ReadString (\<lambda>vMessage.
     dret \<lparr>error_Message = vMessage\<rparr>)"

definition ok_Error :: "errorMsg \<Rightarrow> bool" where
  "ok_Error m \<longleftrightarrow> str_ok (error_Message m)"

record outputMsg =
  output_Data :: "byte list"

definition encode_Output :: "outputMsg \<Rightarrow> enc" where
  "encode_Output m = eall
     [WriteBytes (output_Data m)]"

definition decode_Output :: "outputMsg dec" where
  "decode_Output =
     dbind ReadBytes (\<lambda>vData.
     dret \<lparr>output_Data = vData\<rparr>)"

definition ok_Output :: "outputMsg \<Rightarrow> bool" where
  "ok_Output m \<longleftrightarrow> blob_ok (output_Data m)"

record createdMsg =
  created_Name :: string
  created_PID :: u32

definition encode_Created :: "createdMsg \<Rightarrow> enc" where
  "encode_Created m = eall
     [WriteString (created_Name m),
      WriteU32 (created_PID m)]"

definition decode_Created :: "createdMsg dec" where
  "decode_Created =
     dbind ReadString (\<lambda>vName.
     dbind ReadU32 (\<lambda>vPID.
     dret \<lparr>created_Name = vName, created_PID = vPID\<rparr>))"

definition ok_Created :: "createdMsg \<Rightarrow> bool" where
  "ok_Created m \<longleftrightarrow> str_ok (created_Name m)"

record attachedMsg =
  attached_Name :: string
  attached_PID :: u32
  attached_ClientID :: string
  attached_Cols :: u16
  attached_Rows :: u16
  attached_ScreenDump :: "byte list"
  attached_CursorRow :: u32
  attached_CursorCol :: u32
  attached_AltScreen :: bool
  attached_Created :: bool

definition encode_Attached :: "attachedMsg \<Rightarrow> enc" where
  "encode_Attached m = eall
     [WriteString (attached_Name m),
      WriteU32 (attached_PID m),
      WriteString (attached_ClientID m),
      WriteU16 (attached_Cols m),
      WriteU16 (attached_Rows m),
      WriteBytes (attached_ScreenDump m),
      WriteU32 (attached_CursorRow m),
      WriteU32 (attached_CursorCol m),
      WriteBool (attached_AltScreen m),
      WriteBool (attached_Created m)]"

definition decode_Attached :: "attachedMsg dec" where
  "decode_Attached =
     dbind ReadString (\<lambda>vName.
     dbind ReadU32 (\<lambda>vPID.
     dbind ReadString (\<lambda>vClientID.
     dbind ReadU16 (\<lambda>vCols.
     dbind ReadU16 (\<lambda>vRows.
     dbind ReadBytes (\<lambda>vScreenDump.
     dbind ReadU32 (\<lambda>vCursorRow.
     dbind ReadU32 (\<lambda>vCursorCol.
     dbind ReadBool (\<lambda>vAltScreen.
     dbind ReadBool (\<lambda>vCreated.
     dret \<lparr>attached_Name = vName, attached_PID = vPID, attached_ClientID = vClientID, attached_Cols = vCols, attached_Rows = vRows, attached_ScreenDump = vScreenDump, attached_CursorRow = vCursorRow, attached_CursorCol = vCursorCol, attached_AltScreen = vAltScreen, attached_Created = vCreated\<rparr>))))))))))"

definition ok_Attached :: "attachedMsg \<Rightarrow> bool" where
  "ok_Attached m \<longleftrightarrow> str_ok (attached_Name m) \<and> str_ok (attached_ClientID m) \<and> blob_ok (attached_ScreenDump m)"

record exitedMsg =
  exited_ExitCode :: "32 word"

definition encode_Exited :: "exitedMsg \<Rightarrow> enc" where
  "encode_Exited m = eall
     [WriteI32 (exited_ExitCode m)]"

definition decode_Exited :: "exitedMsg dec" where
  "decode_Exited =
     dbind ReadI32 (\<lambda>vExitCode.
     dret \<lparr>exited_ExitCode = vExitCode\<rparr>)"

definition ok_Exited :: "exitedMsg \<Rightarrow> bool" where
  "ok_Exited m \<longleftrightarrow> True"

record dumpResponseMsg =
  dumpResponse_Data :: "byte list"

definition encode_DumpResponse :: "dumpResponseMsg \<Rightarrow> enc" where
  "encode_DumpResponse m = eall
     [WriteBytes (dumpResponse_Data m)]"

definition decode_DumpResponse :: "dumpResponseMsg dec" where
  "decode_DumpResponse =
     dbind ReadBytes (\<lambda>vData.
     dret \<lparr>dumpResponse_Data = vData\<rparr>)"

definition ok_DumpResponse :: "dumpResponseMsg \<Rightarrow> bool" where
  "ok_DumpResponse m \<longleftrightarrow> blob_ok (dumpResponse_Data m)"

record pruneResponseMsg =
  pruneResponse_Count :: u32

definition encode_PruneResponse :: "pruneResponseMsg \<Rightarrow> enc" where
  "encode_PruneResponse m = eall
     [WriteU32 (pruneResponse_Count m)]"

definition decode_PruneResponse :: "pruneResponseMsg dec" where
  "decode_PruneResponse =
     dbind ReadU32 (\<lambda>vCount.
     dret \<lparr>pruneResponse_Count = vCount\<rparr>)"

definition ok_PruneResponse :: "pruneResponseMsg \<Rightarrow> bool" where
  "ok_PruneResponse m \<longleftrightarrow> True"

record clientsChangedMsg =
  clientsChanged_Count :: u16
  clientsChanged_Cols :: u16
  clientsChanged_Rows :: u16

definition encode_ClientsChanged :: "clientsChangedMsg \<Rightarrow> enc" where
  "encode_ClientsChanged m = eall
     [WriteU16 (clientsChanged_Count m),
      WriteU16 (clientsChanged_Cols m),
      WriteU16 (clientsChanged_Rows m)]"

definition decode_ClientsChanged :: "clientsChangedMsg dec" where
  "decode_ClientsChanged =
     dbind ReadU16 (\<lambda>vCount.
     dbind ReadU16 (\<lambda>vCols.
     dbind ReadU16 (\<lambda>vRows.
     dret \<lparr>clientsChanged_Count = vCount, clientsChanged_Cols = vCols, clientsChanged_Rows = vRows\<rparr>)))"

definition ok_ClientsChanged :: "clientsChangedMsg \<Rightarrow> bool" where
  "ok_ClientsChanged m \<longleftrightarrow> True"

definition encode_SessionRow :: "sessionRow \<Rightarrow> enc" where
  "encode_SessionRow m = eall
     [WriteString (row_Name m),
      WriteString (row_State m),
      WriteU16 (row_Cols m),
      WriteU16 (row_Rows m),
      WriteU32 (row_PID m),
      WriteU32 (row_CreatedAt m),
      WriteU32 (row_SavedAt m),
      WriteString (row_CWD m),
      encodeSessionClients (row_Clients m)]"

definition decode_SessionRow :: "sessionRow dec" where
  "decode_SessionRow =
     dbind ReadString (\<lambda>vName.
     dbind ReadString (\<lambda>vState.
     dbind ReadU16 (\<lambda>vCols.
     dbind ReadU16 (\<lambda>vRows.
     dbind ReadU32 (\<lambda>vPID.
     dbind ReadU32 (\<lambda>vCreatedAt.
     dbind ReadU32 (\<lambda>vSavedAt.
     dbind ReadString (\<lambda>vCWD.
     dbind decodeSessionClients (\<lambda>vClients.
     dret \<lparr>row_Name = vName, row_State = vState, row_Cols = vCols, row_Rows = vRows, row_PID = vPID, row_CreatedAt = vCreatedAt, row_SavedAt = vSavedAt, row_CWD = vCWD, row_Clients = vClients\<rparr>)))))))))"

definition ok_SessionRow :: "sessionRow \<Rightarrow> bool" where
  "ok_SessionRow m \<longleftrightarrow> str_ok (row_Name m) \<and> str_ok (row_State m) \<and> str_ok (row_CWD m) \<and> clients_ok (row_Clients m)"

record sessionsMsg =
  sessions_Sessions :: "sessionRow list"

definition encode_Sessions :: "sessionsMsg \<Rightarrow> enc" where
  "encode_Sessions m =
     eall (WriteU32 (of_nat (length (sessions_Sessions m))) # map encode_SessionRow (sessions_Sessions m))"

definition decode_Sessions :: "sessionsMsg dec" where
  "decode_Sessions = dbind ReadU32 (\<lambda>count.
     if count > maxFrameSize
     then dfail (Errorf (''session count '' @ string_of_nat (unat count) @ '' exceeds maximum''))
     else dbind (drepeat (unat count) decode_SessionRow) (\<lambda>rows.
       dret \<lparr>sessions_Sessions = rows\<rparr>))"

definition ok_Sessions :: "sessionsMsg \<Rightarrow> bool" where
  "ok_Sessions m \<longleftrightarrow> length (sessions_Sessions m) \<le> unat maxFrameSize
     \<and> list_all ok_SessionRow (sessions_Sessions m)"

definition encode_DaemonStatus :: "daemonStatus \<Rightarrow> enc" where
  "encode_DaemonStatus m = eall
     [WriteU32 (ds_PID m),
      WriteU32 (ds_Uptime m),
      WriteString (ds_SocketPath m),
      WriteU32 (ds_RunningCount m),
      WriteU32 (ds_DeadCount m),
      WriteString (ds_Version m)]"

definition decode_DaemonStatus :: "daemonStatus dec" where
  "decode_DaemonStatus =
     dbind ReadU32 (\<lambda>vPID.
     dbind ReadU32 (\<lambda>vUptime.
     dbind ReadString (\<lambda>vSocketPath.
     dbind ReadU32 (\<lambda>vRunningCount.
     dbind ReadU32 (\<lambda>vDeadCount.
     dbind ReadString (\<lambda>vVersion.
     dret \<lparr>ds_PID = vPID, ds_Uptime = vUptime, ds_SocketPath = vSocketPath, ds_RunningCount = vRunningCount, ds_DeadCount = vDeadCount, ds_Version = vVersion\<rparr>))))))"

definition ok_DaemonStatus :: "daemonStatus \<Rightarrow> bool" where
  "ok_DaemonStatus m \<longleftrightarrow> str_ok (ds_SocketPath m) \<and> str_ok (ds_Version m)"

definition encode_SessionStatus :: "sessionStatus \<Rightarrow> enc" where
  "encode_SessionStatus m = eall
     [WriteString (ss_Name m),
      WriteString (ss_State m),
      WriteU16 (ss_Cols m),
      WriteU16 (ss_Rows m),
      WriteU32 (ss_PID m),
      WriteString (ss_CWD m),
      encodeSessionClients (ss_Clients m)]"

definition decode_SessionStatus :: "sessionStatus dec" where
  "decode_SessionStatus =
     dbind ReadString (\<lambda>vName.
     dbind ReadString (\<lambda>vState.
     dbind ReadU16 (\<lambda>vCols.
     dbind ReadU16 (\<lambda>vRows.
     dbind ReadU32 (\<lambda>vPID.
     dbind ReadString (\<lambda>vCWD.
     dbind decodeSessionClients (\<lambda>vClients.
     dret \<lparr>ss_Name = vName, ss_State = vState, ss_Cols = vCols, ss_Rows = vRows, ss_PID = vPID, ss_CWD = vCWD, ss_Clients = vClients\<rparr>)))))))"

definition ok_SessionStatus :: "sessionStatus \<Rightarrow> bool" where
  "ok_SessionStatus m \<longleftrightarrow> str_ok (ss_Name m) \<and> str_ok (ss_State m) \<and> str_ok (ss_CWD m) \<and> clients_ok (ss_Clients m)"

record statusResponseMsg =
  statusResponse_Daemon :: daemonStatus
  statusResponse_Session :: "sessionStatus option"

definition encode_StatusResponse :: "statusResponseMsg \<Rightarrow> enc" where
  "encode_StatusResponse m = eall
     [encode_DaemonStatus (statusResponse_Daemon m),
      (case statusResponse_Session m of
         None \<Rightarrow> WriteU8 0
       | Some s \<Rightarrow> eall [WriteU8 1, encode_SessionStatus s])]"

definition decode_StatusResponse :: "statusResponseMsg dec" where
  "decode_StatusResponse = dbind decode_DaemonStatus (\<lambda>d. dbind ReadU8 (\<lambda>flag.
     if flag = 0 then dret \<lparr>statusResponse_Daemon = d, statusResponse_Session = None\<rparr>
     else dbind decode_SessionStatus (\<lambda>s.
       dret \<lparr>statusResponse_Daemon = d, statusResponse_Session = Some s\<rparr>)))"

definition ok_StatusResponse :: "statusResponseMsg \<Rightarrow> bool" where
  "ok_StatusResponse m \<longleftrightarrow> ok_DaemonStatus (statusResponse_Daemon m)
     \<and> (case statusResponse_Session m of None \<Rightarrow> True | Some s \<Rightarrow> ok_SessionStatus s)"

section \<open>The message sum\<close>

datatype message =
    MAttach attachMsg
  | MInput inputMsg
  | MResize resizeMsg
  | MDetach
  | MList listMsg
  | MKill killMsg
  | MSend sendMsg
  | MDump dumpMsg
  | MPrune
  | MSendKey sendKeyMsg
  | MCreate createMsg
  | MStatus statusMsg
  | MKick kickMsg
  | MOK
  | MError errorMsg
  | MOutput outputMsg
  | MAttached attachedMsg
  | MSessions sessionsMsg
  | MExited exitedMsg
  | MDumpResponse dumpResponseMsg
  | MPruneResponse pruneResponseMsg
  | MClientsChanged clientsChangedMsg
  | MStatusResponse statusResponseMsg
  | MCreated createdMsg

definition TypeAttach :: u8 where
  "TypeAttach = 0x01"

definition TypeInput :: u8 where
  "TypeInput = 0x02"

definition TypeResize :: u8 where
  "TypeResize = 0x03"

definition TypeDetach :: u8 where
  "TypeDetach = 0x04"

definition TypeList :: u8 where
  "TypeList = 0x05"

definition TypeKill :: u8 where
  "TypeKill = 0x06"

definition TypeSend :: u8 where
  "TypeSend = 0x07"

definition TypeDump :: u8 where
  "TypeDump = 0x08"

definition TypePrune :: u8 where
  "TypePrune = 0x09"

definition TypeSendKey :: u8 where
  "TypeSendKey = 0x0A"

definition TypeCreate :: u8 where
  "TypeCreate = 0x0B"

definition TypeStatus :: u8 where
  "TypeStatus = 0x0C"

definition TypeKick :: u8 where
  "TypeKick = 0x0D"

definition TypeOK :: u8 where
  "TypeOK = 0x80"

definition TypeError :: u8 where
  "TypeError = 0x81"

definition TypeOutput :: u8 where
  "TypeOutput = 0x82"

definition TypeAttached :: u8 where
  "TypeAttached = 0x83"

definition TypeSessions :: u8 where
  "TypeSessions = 0x84"

definition TypeExited :: u8 where
  "TypeExited = 0x85"

definition TypeDumpResponse :: u8 where
  "TypeDumpResponse = 0x86"

definition TypePruneResponse :: u8 where
  "TypePruneResponse = 0x87"

definition TypeClientsChanged :: u8 where
  "TypeClientsChanged = 0x88"

definition TypeStatusResponse :: u8 where
  "TypeStatusResponse = 0x89"

definition TypeCreated :: u8 where
  "TypeCreated = 0x8A"

lemmas type_defs =
  TypeAttach_def TypeInput_def TypeResize_def TypeDetach_def TypeList_def TypeKill_def
  TypeSend_def TypeDump_def TypePrune_def TypeSendKey_def TypeCreate_def TypeStatus_def
  TypeKick_def TypeOK_def TypeError_def TypeOutput_def TypeAttached_def TypeSessions_def
  TypeExited_def TypeDumpResponse_def TypePruneResponse_def TypeClientsChanged_def TypeStatusResponse_def TypeCreated_def

fun msgType :: "message \<Rightarrow> u8" where
  "msgType (MAttach m) = TypeAttach"
| "msgType (MInput m) = TypeInput"
| "msgType (MResize m) = TypeResize"
| "msgType MDetach = TypeDetach"
| "msgType (MList m) = TypeList"
| "msgType (MKill m) = TypeKill"
| "msgType (MSend m) = TypeSend"
| "msgType (MDump m) = TypeDump"
| "msgType MPrune = TypePrune"
| "msgType (MSendKey m) = TypeSendKey"
| "msgType (MCreate m) = TypeCreate"
| "msgType (MStatus m) = TypeStatus"
| "msgType (MKick m) = TypeKick"
| "msgType MOK = TypeOK"
| "msgType (MError m) = TypeError"
| "msgType (MOutput m) = TypeOutput"
| "msgType (MAttached m) = TypeAttached"
| "msgType (MSessions m) = TypeSessions"
| "msgType (MExited m) = TypeExited"
| "msgType (MDumpResponse m) = TypeDumpResponse"
| "msgType (MPruneResponse m) = TypePruneResponse"
| "msgType (MClientsChanged m) = TypeClientsChanged"
| "msgType (MStatusResponse m) = TypeStatusResponse"
| "msgType (MCreated m) = TypeCreated"

fun encode :: "message \<Rightarrow> enc" where
  "encode (MAttach m) = encode_Attach m"
| "encode (MInput m) = encode_Input m"
| "encode (MResize m) = encode_Resize m"
| "encode MDetach = eall []"
| "encode (MList m) = encode_List m"
| "encode (MKill m) = encode_Kill m"
| "encode (MSend m) = encode_Send m"
| "encode (MDump m) = encode_Dump m"
| "encode MPrune = eall []"
| "encode (MSendKey m) = encode_SendKey m"
| "encode (MCreate m) = encode_Create m"
| "encode (MStatus m) = encode_Status m"
| "encode (MKick m) = encode_Kick m"
| "encode MOK = eall []"
| "encode (MError m) = encode_Error m"
| "encode (MOutput m) = encode_Output m"
| "encode (MAttached m) = encode_Attached m"
| "encode (MSessions m) = encode_Sessions m"
| "encode (MExited m) = encode_Exited m"
| "encode (MDumpResponse m) = encode_DumpResponse m"
| "encode (MPruneResponse m) = encode_PruneResponse m"
| "encode (MClientsChanged m) = encode_ClientsChanged m"
| "encode (MStatusResponse m) = encode_StatusResponse m"
| "encode (MCreated m) = encode_Created m"

fun ok_message :: "message \<Rightarrow> bool" where
  "ok_message (MAttach m) = ok_Attach m"
| "ok_message (MInput m) = ok_Input m"
| "ok_message (MResize m) = ok_Resize m"
| "ok_message MDetach = True"
| "ok_message (MList m) = ok_List m"
| "ok_message (MKill m) = ok_Kill m"
| "ok_message (MSend m) = ok_Send m"
| "ok_message (MDump m) = ok_Dump m"
| "ok_message MPrune = True"
| "ok_message (MSendKey m) = ok_SendKey m"
| "ok_message (MCreate m) = ok_Create m"
| "ok_message (MStatus m) = ok_Status m"
| "ok_message (MKick m) = ok_Kick m"
| "ok_message MOK = True"
| "ok_message (MError m) = ok_Error m"
| "ok_message (MOutput m) = ok_Output m"
| "ok_message (MAttached m) = ok_Attached m"
| "ok_message (MSessions m) = ok_Sessions m"
| "ok_message (MExited m) = ok_Exited m"
| "ok_message (MDumpResponse m) = ok_DumpResponse m"
| "ok_message (MPruneResponse m) = ok_PruneResponse m"
| "ok_message (MClientsChanged m) = ok_ClientsChanged m"
| "ok_message (MStatusResponse m) = ok_StatusResponse m"
| "ok_message (MCreated m) = ok_Created m"

definition dmap :: "('a \<Rightarrow> 'b) \<Rightarrow> 'a dec \<Rightarrow> 'b dec" where
  "dmap f d = dbind d (\<lambda>v. dret (f v))"

text \<open>\<open>newMessage\<close> picks the message type, whose \<open>decode\<close> method then runs.\<close>

definition newMessage :: "u8 \<Rightarrow> message dec result" where
  "newMessage t =
     (if t = TypeAttach then Inr (dmap MAttach decode_Attach) else
      if t = TypeInput then Inr (dmap MInput decode_Input) else
      if t = TypeResize then Inr (dmap MResize decode_Resize) else
      if t = TypeDetach then Inr (dret MDetach) else
      if t = TypeList then Inr (dmap MList decode_List) else
      if t = TypeKill then Inr (dmap MKill decode_Kill) else
      if t = TypeSend then Inr (dmap MSend decode_Send) else
      if t = TypeDump then Inr (dmap MDump decode_Dump) else
      if t = TypePrune then Inr (dret MPrune) else
      if t = TypeSendKey then Inr (dmap MSendKey decode_SendKey) else
      if t = TypeCreate then Inr (dmap MCreate decode_Create) else
      if t = TypeStatus then Inr (dmap MStatus decode_Status) else
      if t = TypeKick then Inr (dmap MKick decode_Kick) else
      if t = TypeOK then Inr (dret MOK) else
      if t = TypeError then Inr (dmap MError decode_Error) else
      if t = TypeOutput then Inr (dmap MOutput decode_Output) else
      if t = TypeAttached then Inr (dmap MAttached decode_Attached) else
      if t = TypeSessions then Inr (dmap MSessions decode_Sessions) else
      if t = TypeExited then Inr (dmap MExited decode_Exited) else
      if t = TypeDumpResponse then Inr (dmap MDumpResponse decode_DumpResponse) else
      if t = TypePruneResponse then Inr (dmap MPruneResponse decode_PruneResponse) else
      if t = TypeClientsChanged then Inr (dmap MClientsChanged decode_ClientsChanged) else
      if t = TypeStatusResponse then Inr (dmap MStatusResponse decode_StatusResponse) else
      if t = TypeCreated then Inr (dmap MCreated decode_Created) else
      Inl (Errorf (''unknown message type: 0x'' @ hex02 t)))"

section \<open>Codecs\<close>

interpretation row_client: codec encodeSessionClient decodeSessionClient ok_SessionClient
  by unfold_locales
    (auto simp: encodeSessionClient_def ok_SessionClient_def decodeSessionClient_def dbind_def dret_def codec_simps intro!: dec_intros)

lemma sessionClients_run [codec_simps]:
  assumes "clients_ok cs"
  shows "encodeSessionClients cs = sput (putUint32 (of_nat (length cs)) @
    concat (map (\<lambda>c. bytes_of (encodeSessionClient c)) cs))"
  unfolding encodeSessionClients_def WriteU32_def
  by (rule row_client.eall_enc_Cons) (use assms in \<open>simp add: clients_ok_def list_all_iff\<close>)

lemma sessionClients_read [codec_simps]:
  assumes "clients_ok cs"
  shows "decodeSessionClients (putUint32 (of_nat (length cs)) @
    concat (map (\<lambda>c. bytes_of (encodeSessionClient c)) cs) @ r) = (Inr cs, r)"
proof -
  from assms have n: "length cs \<le> unat maxFrameSize" and ok: "\<forall>c \<in> set cs. ok_SessionClient c"
    by (auto simp: clients_ok_def list_all_iff)
  from row_client.drepeat_counted [OF ok n, of r] of_nat_le_maxFrameSize [OF n] show ?thesis
    by (simp add: decodeSessionClients_def dbind_def codec_simps)
qed

interpretation row_clients: codec encodeSessionClients decodeSessionClients clients_ok
proof unfold_locales
  show "extends decodeSessionClients"
    unfolding decodeSessionClients_def by (intro dec_intros row_client.dec_extends)
qed (simp_all add: codec_simps)

lemmas [dec_intros] = row_client.dec_extends row_clients.dec_extends

interpretation session_row: codec encode_SessionRow decode_SessionRow ok_SessionRow
  by unfold_locales
    (auto simp: encode_SessionRow_def ok_SessionRow_def decode_SessionRow_def dbind_def dret_def codec_simps intro!: dec_intros)

interpretation msg_Attach: codec encode_Attach decode_Attach ok_Attach
  by unfold_locales
    (auto simp: encode_Attach_def ok_Attach_def decode_Attach_def dbind_def dret_def codec_simps intro!: dec_intros)

interpretation msg_Input: codec encode_Input decode_Input ok_Input
  by unfold_locales
    (auto simp: encode_Input_def ok_Input_def decode_Input_def dbind_def dret_def codec_simps intro!: dec_intros)

interpretation msg_Resize: codec encode_Resize decode_Resize ok_Resize
  by unfold_locales
    (auto simp: encode_Resize_def ok_Resize_def decode_Resize_def dbind_def dret_def codec_simps intro!: dec_intros)

interpretation msg_List: codec encode_List decode_List ok_List
  by unfold_locales
    (auto simp: encode_List_def ok_List_def decode_List_def dbind_def dret_def codec_simps intro!: dec_intros)

interpretation msg_Kill: codec encode_Kill decode_Kill ok_Kill
  by unfold_locales
    (auto simp: encode_Kill_def ok_Kill_def decode_Kill_def dbind_def dret_def codec_simps intro!: dec_intros)

interpretation msg_Send: codec encode_Send decode_Send ok_Send
  by unfold_locales
    (auto simp: encode_Send_def ok_Send_def decode_Send_def dbind_def dret_def codec_simps intro!: dec_intros)

interpretation msg_Dump: codec encode_Dump decode_Dump ok_Dump
  by unfold_locales
    (auto simp: encode_Dump_def ok_Dump_def decode_Dump_def dbind_def dret_def codec_simps intro!: dec_intros)

interpretation msg_SendKey: codec encode_SendKey decode_SendKey ok_SendKey
  by unfold_locales
    (auto simp: encode_SendKey_def ok_SendKey_def decode_SendKey_def dbind_def dret_def codec_simps intro!: dec_intros)

interpretation msg_Create: codec encode_Create decode_Create ok_Create
  by unfold_locales
    (auto simp: encode_Create_def ok_Create_def decode_Create_def dbind_def dret_def codec_simps intro!: dec_intros)

interpretation msg_Status: codec encode_Status decode_Status ok_Status
  by unfold_locales
    (auto simp: encode_Status_def ok_Status_def decode_Status_def dbind_def dret_def codec_simps intro!: dec_intros)

interpretation msg_Kick: codec encode_Kick decode_Kick ok_Kick
  by unfold_locales
    (auto simp: encode_Kick_def ok_Kick_def decode_Kick_def dbind_def dret_def codec_simps intro!: dec_intros)

interpretation msg_Error: codec encode_Error decode_Error ok_Error
  by unfold_locales
    (auto simp: encode_Error_def ok_Error_def decode_Error_def dbind_def dret_def codec_simps intro!: dec_intros)

interpretation msg_Output: codec encode_Output decode_Output ok_Output
  by unfold_locales
    (auto simp: encode_Output_def ok_Output_def decode_Output_def dbind_def dret_def codec_simps intro!: dec_intros)

interpretation msg_Attached: codec encode_Attached decode_Attached ok_Attached
  by unfold_locales
    (auto simp: encode_Attached_def ok_Attached_def decode_Attached_def dbind_def dret_def codec_simps intro!: dec_intros)

interpretation msg_Exited: codec encode_Exited decode_Exited ok_Exited
  by unfold_locales
    (auto simp: encode_Exited_def ok_Exited_def decode_Exited_def dbind_def dret_def codec_simps intro!: dec_intros)

interpretation msg_DumpResponse: codec encode_DumpResponse decode_DumpResponse ok_DumpResponse
  by unfold_locales
    (auto simp: encode_DumpResponse_def ok_DumpResponse_def decode_DumpResponse_def dbind_def dret_def codec_simps intro!: dec_intros)

interpretation msg_PruneResponse: codec encode_PruneResponse decode_PruneResponse ok_PruneResponse
  by unfold_locales
    (auto simp: encode_PruneResponse_def ok_PruneResponse_def decode_PruneResponse_def dbind_def dret_def codec_simps intro!: dec_intros)

interpretation msg_ClientsChanged: codec encode_ClientsChanged decode_ClientsChanged ok_ClientsChanged
  by unfold_locales
    (auto simp: encode_ClientsChanged_def ok_ClientsChanged_def decode_ClientsChanged_def dbind_def dret_def codec_simps intro!: dec_intros)

interpretation msg_Created: codec encode_Created decode_Created ok_Created
  by unfold_locales
    (auto simp: encode_Created_def ok_Created_def decode_Created_def dbind_def dret_def codec_simps intro!: dec_intros)

interpretation daemon_status: codec encode_DaemonStatus decode_DaemonStatus ok_DaemonStatus
  by unfold_locales
    (auto simp: encode_DaemonStatus_def ok_DaemonStatus_def decode_DaemonStatus_def dbind_def dret_def codec_simps intro!: dec_intros)

interpretation session_status: codec encode_SessionStatus decode_SessionStatus ok_SessionStatus
  by unfold_locales
    (auto simp: encode_SessionStatus_def ok_SessionStatus_def decode_SessionStatus_def dbind_def dret_def codec_simps intro!: dec_intros)

lemmas [dec_intros] = session_row.dec_extends daemon_status.dec_extends session_status.dec_extends

lemma row_ok: "ok_Sessions m \<Longrightarrow> \<forall>s \<in> set (sessions_Sessions m). ok_SessionRow s"
  by (simp add: ok_Sessions_def list_all_iff)

interpretation msg_Sessions: codec encode_Sessions decode_Sessions ok_Sessions
proof unfold_locales
  fix m :: sessionsMsg and r
  assume ok: "ok_Sessions m"
  then have n: "length (sessions_Sessions m) \<le> unat maxFrameSize" by (simp add: ok_Sessions_def)
  have run: "encode_Sessions m = sput (putUint32 (of_nat (length (sessions_Sessions m))) @
      concat (map (\<lambda>s. bytes_of (encode_SessionRow s)) (sessions_Sessions m)))"
    unfolding encode_Sessions_def WriteU32_def
    by (rule session_row.eall_enc_Cons) (rule row_ok [OF ok])
  then show "encode_Sessions m = sput (bytes_of (encode_Sessions m))" by simp
  show "decode_Sessions (bytes_of (encode_Sessions m) @ r) = (Inr m, r)"
    using session_row.drepeat_counted [OF row_ok [OF ok] n, of r] of_nat_le_maxFrameSize [OF n]
    by (simp add: run decode_Sessions_def dbind_def dret_def codec_simps)
next
  show "extends decode_Sessions"
    unfolding decode_Sessions_def by (intro dec_intros)
qed

lemma encode_StatusResponse_run:
  assumes "ok_StatusResponse m"
  shows "encode_StatusResponse m = sput (bytes_of (encode_DaemonStatus (statusResponse_Daemon m)) @
    (case statusResponse_Session m of None \<Rightarrow> [0]
     | Some s \<Rightarrow> 1 # bytes_of (encode_SessionStatus s)))"
proof -
  from assms have d: "ok_DaemonStatus (statusResponse_Daemon m)" by (simp add: ok_StatusResponse_def)
  show ?thesis
  proof (cases "statusResponse_Session m")
    case None
    then show ?thesis
      by (subst encode_StatusResponse_def, subst daemon_status.enc_run [OF d]) (simp add: codec_simps)
  next
    case (Some s)
    with assms have s: "ok_SessionStatus s" by (simp add: ok_StatusResponse_def)
    from Some show ?thesis
      by (subst encode_StatusResponse_def, subst daemon_status.enc_run [OF d], simp,
          subst session_status.enc_run [OF s]) (simp add: codec_simps)
  qed
qed

interpretation msg_StatusResponse: codec encode_StatusResponse decode_StatusResponse ok_StatusResponse
proof unfold_locales
  fix m :: statusResponseMsg and r
  assume ok: "ok_StatusResponse m"
  show "encode_StatusResponse m = sput (bytes_of (encode_StatusResponse m))"
    by (simp add: encode_StatusResponse_run [OF ok])
  show "decode_StatusResponse (bytes_of (encode_StatusResponse m) @ r) = (Inr m, r)"
    using ok
    by (auto simp: encode_StatusResponse_run [OF ok] decode_StatusResponse_def ok_StatusResponse_def
        dbind_def dret_def daemon_status.dec_enc session_status.dec_enc codec_simps
        split: option.splits)
next
  show "extends decode_StatusResponse"
    unfolding decode_StatusResponse_def by (intro dec_intros)
qed

section \<open>All messages\<close>

lemma newMessage_msgType:
  "newMessage TypeAttach = Inr (dmap MAttach decode_Attach)"
  "newMessage TypeInput = Inr (dmap MInput decode_Input)"
  "newMessage TypeResize = Inr (dmap MResize decode_Resize)"
  "newMessage TypeDetach = Inr (dret MDetach)"
  "newMessage TypeList = Inr (dmap MList decode_List)"
  "newMessage TypeKill = Inr (dmap MKill decode_Kill)"
  "newMessage TypeSend = Inr (dmap MSend decode_Send)"
  "newMessage TypeDump = Inr (dmap MDump decode_Dump)"
  "newMessage TypePrune = Inr (dret MPrune)"
  "newMessage TypeSendKey = Inr (dmap MSendKey decode_SendKey)"
  "newMessage TypeCreate = Inr (dmap MCreate decode_Create)"
  "newMessage TypeStatus = Inr (dmap MStatus decode_Status)"
  "newMessage TypeKick = Inr (dmap MKick decode_Kick)"
  "newMessage TypeOK = Inr (dret MOK)"
  "newMessage TypeError = Inr (dmap MError decode_Error)"
  "newMessage TypeOutput = Inr (dmap MOutput decode_Output)"
  "newMessage TypeAttached = Inr (dmap MAttached decode_Attached)"
  "newMessage TypeSessions = Inr (dmap MSessions decode_Sessions)"
  "newMessage TypeExited = Inr (dmap MExited decode_Exited)"
  "newMessage TypeDumpResponse = Inr (dmap MDumpResponse decode_DumpResponse)"
  "newMessage TypePruneResponse = Inr (dmap MPruneResponse decode_PruneResponse)"
  "newMessage TypeClientsChanged = Inr (dmap MClientsChanged decode_ClientsChanged)"
  "newMessage TypeStatusResponse = Inr (dmap MStatusResponse decode_StatusResponse)"
  "newMessage TypeCreated = Inr (dmap MCreated decode_Created)"
  by (simp_all add: newMessage_def type_defs)

lemmas msg_enc_run =
  msg_Attach.enc_run
  msg_Input.enc_run
  msg_Resize.enc_run
  msg_List.enc_run
  msg_Kill.enc_run
  msg_Send.enc_run
  msg_Dump.enc_run
  msg_SendKey.enc_run
  msg_Create.enc_run
  msg_Status.enc_run
  msg_Kick.enc_run
  msg_Error.enc_run
  msg_Output.enc_run
  msg_Attached.enc_run
  msg_Sessions.enc_run
  msg_Exited.enc_run
  msg_DumpResponse.enc_run
  msg_PruneResponse.enc_run
  msg_ClientsChanged.enc_run
  msg_StatusResponse.enc_run
  msg_Created.enc_run

lemmas msg_dec_enc =
  msg_Attach.dec_enc
  msg_Input.dec_enc
  msg_Resize.dec_enc
  msg_List.dec_enc
  msg_Kill.dec_enc
  msg_Send.dec_enc
  msg_Dump.dec_enc
  msg_SendKey.dec_enc
  msg_Create.dec_enc
  msg_Status.dec_enc
  msg_Kick.dec_enc
  msg_Error.dec_enc
  msg_Output.dec_enc
  msg_Attached.dec_enc
  msg_Sessions.dec_enc
  msg_Exited.dec_enc
  msg_DumpResponse.dec_enc
  msg_PruneResponse.dec_enc
  msg_ClientsChanged.dec_enc
  msg_StatusResponse.dec_enc
  msg_Created.dec_enc

lemmas msg_extends [dec_intros] =
  msg_Attach.dec_extends
  msg_Input.dec_extends
  msg_Resize.dec_extends
  msg_List.dec_extends
  msg_Kill.dec_extends
  msg_Send.dec_extends
  msg_Dump.dec_extends
  msg_SendKey.dec_extends
  msg_Create.dec_extends
  msg_Status.dec_extends
  msg_Kick.dec_extends
  msg_Error.dec_extends
  msg_Output.dec_extends
  msg_Attached.dec_extends
  msg_Sessions.dec_extends
  msg_Exited.dec_extends
  msg_DumpResponse.dec_extends
  msg_PruneResponse.dec_extends
  msg_ClientsChanged.dec_extends
  msg_StatusResponse.dec_extends
  msg_Created.dec_extends

lemma encode_run: "ok_message m \<Longrightarrow> encode m = sput (bytes_of (encode m))"
  by (cases m) (simp_all add: eall_Nil_sput msg_enc_run [symmetric])

lemma newMessage_decodes:
  assumes "ok_message m"
  shows "\<exists>d. newMessage (msgType m) = Inr d \<and> d (bytes_of (encode m) @ r) = (Inr m, r)"
  using assms
  by (cases m) (simp_all add: newMessage_msgType dmap_def dbind_def dret_def eall_Nil_sput msg_dec_enc)

lemma extends_dmap [dec_intros]: "extends d \<Longrightarrow> extends (dmap f d)"
  unfolding dmap_def by (intro dec_intros)

lemma newMessage_extends: "newMessage t = Inr d \<Longrightarrow> extends d"
  by (auto simp: newMessage_def intro!: dec_intros split: if_splits)

lemma newMessage_msgType_dec:
  "newMessage t = Inr d \<Longrightarrow> d bs = (Inr m, r) \<Longrightarrow> msgType m = t"
  by (auto simp: newMessage_def dmap_def dbind_def dret_def split: if_splits prod.splits sum.splits)

end
