(* ===== verification/Wire_Conn.thy ===== *)
theory Wire_Conn
  imports Wire_Messages
begin

text \<open>
  \<open>internal/protocol/codec.go\<close>: framing. A frame is a \<open>u32\<close> length, the type byte and the
  payload. \<open>WriteMessage\<close> encodes into a buffer first and then writes length and frame under
  the write lock; \<open>ReadMessage\<close> reads one whole frame and decodes inside it. The framed codec is
  again an instance of \<open>codec\<close>, so round trips of whole message streams and the rejection of
  torn frames come from that interface.
\<close>

definition ProtocolVersion :: u8 where
  "ProtocolVersion = 8"

section \<open>Frames\<close>

definition encodeFrame :: "message \<Rightarrow> enc" where
  "encodeFrame m = eall [WriteU8 (msgType m), encode m]"

definition decodeFrame :: "message dec" where
  "decodeFrame = dbind ReadU8 (\<lambda>t. case newMessage t of Inl e \<Rightarrow> dfail e | Inr d \<Rightarrow> d)"

definition WriteMessage :: "message \<Rightarrow> enc" where
  "WriteMessage m s =
     (case encodeFrame m buffer of
        (Inl e, _) \<Rightarrow> (Inl e, s)
      | (Inr _, b) \<Rightarrow>
          let frame = sink_out b
          in eall [WriteU32 (of_nat (length frame)), sput frame] s)"

definition ReadMessage :: "message dec" where
  "ReadMessage = dbind ReadU32 (\<lambda>len.
     if len = 0 then dfail (Errorf ''empty message frame'')
     else if len > maxFrameSize
     then dfail (Errorf (''message frame too large: '' @ string_of_nat (unat len) @ '' bytes''))
     else dbind (readFull (unat len)) (\<lambda>frame.
       case fst (decodeFrame frame) of Inl e \<Rightarrow> dfail e | Inr m \<Rightarrow> dret m))"

section \<open>Handshake\<close>

record conn =
  c_sink :: sink
  c_in :: "byte list"

definition readVersion :: "(u8 \<times> string) dec" where
  "readVersion = dbind ReadU8 (\<lambda>v. dbind ReadString (\<lambda>rev. dret (v, rev)))"

definition Handshake :: "u8 \<Rightarrow> string \<Rightarrow> conn \<Rightarrow> (u8 \<times> string) result \<times> conn" where
  "Handshake version revision c =
     (case eall [WriteU8 version, WriteString revision] (c_sink c) of
        (Inl e, s) \<Rightarrow> (Inl e, c\<lparr>c_sink := s\<rparr>)
      | (Inr _, s) \<Rightarrow>
          (case readVersion (c_in c) of (r, rest) \<Rightarrow> (r, c\<lparr>c_sink := s, c_in := rest\<rparr>)))"

definition AcceptHandshake :: "(u8 \<times> string) dec" where
  "AcceptHandshake = readVersion"

definition WriteVersionReply :: "u8 \<Rightarrow> string \<Rightarrow> enc" where
  "WriteVersionReply version revision = eall [WriteU8 version, WriteString revision]"

section \<open>The frame codec\<close>

definition frame_bytes :: "message \<Rightarrow> byte list" where
  "frame_bytes m = msgType m # bytes_of (encode m)"

lemma encodeFrame_run: "ok_message m \<Longrightarrow> encodeFrame m = sput (frame_bytes m)"
  by (subst encodeFrame_def, subst encode_run) (simp_all add: frame_bytes_def codec_simps)

lemma extends_decodeFrame [dec_intros]: "extends decodeFrame"
  unfolding decodeFrame_def
  by (intro dec_intros) (auto split: sum.split intro: newMessage_extends dec_intros)

interpretation frame: codec encodeFrame decodeFrame ok_message
proof unfold_locales
  fix m :: message and r
  assume ok: "ok_message m"
  then show "encodeFrame m = sput (bytes_of (encodeFrame m))"
    by (simp add: encodeFrame_run)
  from newMessage_decodes [OF ok, of r] ok
  show "decodeFrame (bytes_of (encodeFrame m) @ r) = (Inr m, r)"
    by (auto simp: encodeFrame_run frame_bytes_def decodeFrame_def dbind_def codec_simps)
qed (rule extends_decodeFrame)

definition wire_ok :: "message \<Rightarrow> bool" where
  "wire_ok m \<longleftrightarrow> ok_message m \<and> length (frame_bytes m) \<le> unat maxFrameSize"

definition wire_bytes :: "message \<Rightarrow> byte list" where
  "wire_bytes m = putUint32 (of_nat (length (frame_bytes m))) @ frame_bytes m"

lemma WriteMessage_run: "ok_message m \<Longrightarrow> WriteMessage m = sput (wire_bytes m)"
  by (rule ext) (simp add: WriteMessage_def encodeFrame_run wire_bytes_def Let_def codec_simps)

lemma extends_ReadMessage [dec_intros]: "extends ReadMessage"
  unfolding ReadMessage_def
  by (intro dec_intros) (auto split: sum.split intro!: dec_intros)

lemma ReadMessage_wire:
  assumes "wire_ok m"
  shows "ReadMessage (wire_bytes m @ r) = (Inr m, r)"
proof -
  from assms have ok: "ok_message m" and n: "length (frame_bytes m) \<le> unat maxFrameSize"
    by (auto simp: wire_ok_def)
  from frame.dec_enc [OF ok, of "[]"] have dec: "decodeFrame (frame_bytes m) = (Inr m, [])"
    by (simp add: encodeFrame_run [OF ok])
  have "length (frame_bytes m) < 2 ^ LENGTH(32)" and "length (frame_bytes m) \<noteq> 0"
    using n by (simp_all add: frame_bytes_def)
  with dec of_nat_le_maxFrameSize [OF n] unat_of_nat_frame [OF n] show ?thesis
    by (simp add: ReadMessage_def wire_bytes_def dbind_def dret_def codec_simps of_nat_eq_0_small
        del: of_nat_eq_0_iff)
qed

interpretation wire: codec WriteMessage ReadMessage wire_ok
proof unfold_locales
  fix m :: message and r
  assume ok: "wire_ok m"
  then have run: "WriteMessage m = sput (wire_bytes m)"
    by (simp add: wire_ok_def WriteMessage_run)
  then show "WriteMessage m = sput (bytes_of (WriteMessage m))" by simp
  from ok run show "ReadMessage (bytes_of (WriteMessage m) @ r) = (Inr m, r)"
    by (simp add: ReadMessage_wire)
qed (rule extends_ReadMessage)

text \<open>A sequence of \<open>WriteMessage\<close> calls on one connection, and of \<open>ReadMessage\<close> calls.\<close>

definition writeAllMessages :: "message list \<Rightarrow> enc" where
  "writeAllMessages ms = eall (map WriteMessage ms)"

lemma writeAllMessages_run:
  "\<forall>m \<in> set ms. wire_ok m \<Longrightarrow>
     writeAllMessages ms = sput (concat (map (\<lambda>m. bytes_of (WriteMessage m)) ms))"
  unfolding writeAllMessages_def by (rule wire.eall_enc)

lemma readVersion_put:
  "str_ok revision \<Longrightarrow> readVersion (v # str_bytes revision @ r) = (Inr (v, revision), r)"
  by (simp add: readVersion_def dbind_def dret_def codec_simps)

end
