(* ===== verification/Wire_Props.thy ===== *)
theory Wire_Props
  imports Wire_Conn
begin

text \<open>
  Properties of the wire protocol as a whole, over the definitions of \<open>Wire_Encoding\<close>,
  \<open>Wire_Messages\<close> and \<open>Wire_Conn\<close>. \<open>demo_kill\<close> and \<open>demo_output\<close> are the concrete messages
  of the witnesses.
\<close>

definition demo_kill :: message where
  "demo_kill = MKill \<lparr>kill_Name = ''work''\<rparr>"

definition demo_output :: message where
  "demo_output = MOutput \<lparr>output_Data = [104, 105]\<rparr>"

lemmas demo_unfold = demo_kill_def demo_output_def frame_bytes_def wire_ok_def
  ok_Kill_def ok_Output_def str_ok_def blob_ok_def encode_Kill_def encode_Output_def
  str_bytes_def blob_bytes_def

lemma demo_kill_wire_ok: "wire_ok demo_kill"
  by (simp add: demo_unfold codec_simps)

lemma demo_output_wire_ok: "wire_ok demo_output"
  by (simp add: demo_unfold codec_simps)

text \<open>
  C1. A sequence of \<open>WriteMessage\<close> calls followed by as many \<open>ReadMessage\<close> calls on the bytes
  that went over the connection returns exactly the messages, in order, and leaves the rest of
  the stream untouched: every message of the protocol whose lengths fit survives the wire.
\<close>

theorem message_stream_roundtrip:
  assumes "\<forall>m \<in> set ms. wire_ok m" and "sink_room s = None"
  shows "fst (writeAllMessages ms s) = Inr ()
    \<and> (\<exists>sent. sink_out (snd (writeAllMessages ms s)) = sink_out s @ sent
        \<and> drepeat (length ms) ReadMessage (sent @ rest) = (Inr ms, rest))"
proof -
  let ?sent = "concat (map (\<lambda>m. bytes_of (WriteMessage m)) ms)"
  have "writeAllMessages ms s = sput ?sent s"
    by (simp add: writeAllMessages_run [OF assms(1)])
  moreover have "drepeat (length ms) ReadMessage (?sent @ rest) = (Inr ms, rest)"
    by (rule wire.drepeat_enc [OF assms(1)])
  ultimately show ?thesis using assms(2) by (simp add: sput_def)
qed

theorem message_stream_roundtrip_witness:
  "\<exists>sent. sink_out (snd (writeAllMessages [demo_kill, demo_output] buffer)) = sent
     \<and> drepeat 2 ReadMessage (sent @ [1, 2]) = (Inr [demo_kill, demo_output], [1, 2])"
  using message_stream_roundtrip [of "[demo_kill, demo_output]" buffer "[1, 2]"]
    demo_kill_wire_ok demo_output_wire_ok
  by (auto simp: buffer_def numeral_2_eq_2)

text \<open>
  C2. A torn write is never read as a message: when the connection fails inside
  \<open>WriteMessage\<close>, what reached the peer is a proper prefix of the frame, and \<open>ReadMessage\<close> on
  it (with nothing more to come) returns an error.
\<close>

theorem torn_write_is_refused:
  assumes "wire_ok m" and "sink_room s = Some n" and "n < length (wire_bytes m)"
  shows "\<exists>sent. WriteMessage m s =
      (Inl ErrShortWrite, s\<lparr>sink_out := sink_out s @ sent, sink_room := Some 0\<rparr>)
    \<and> length sent = n \<and> \<not> is_ok (fst (ReadMessage sent))"
proof -
  let ?sent = "take n (wire_bytes m)"
  from assms(1) have run: "WriteMessage m = sput (wire_bytes m)"
    by (simp add: wire_ok_def WriteMessage_run)
  then have "bytes_of (WriteMessage m) = ?sent @ drop n (wire_bytes m)" by simp
  moreover from assms(3) have "drop n (wire_bytes m) \<noteq> []" by simp
  ultimately have "\<not> is_ok (fst (ReadMessage ?sent))"
    by (rule wire.truncated_fails [OF assms(1)])
  moreover have "WriteMessage m s =
      (Inl ErrShortWrite, s\<lparr>sink_out := sink_out s @ ?sent, sink_room := Some 0\<rparr>)"
    using assms(2,3) by (simp add: run sput_def)
  ultimately show ?thesis using assms(3)
    by (intro exI [of _ ?sent]) simp
qed

theorem torn_write_is_refused_witness:
  "\<exists>sent. WriteMessage demo_kill \<lparr>sink_out = [], sink_room = Some 6\<rparr> =
      (Inl ErrShortWrite, \<lparr>sink_out = sent, sink_room = Some 0\<rparr>)
    \<and> length sent = 6 \<and> \<not> is_ok (fst (ReadMessage sent))"
  using torn_write_is_refused [OF demo_kill_wire_ok, of "\<lparr>sink_out = [], sink_room = Some 6\<rparr>" 6]
  by (simp add: wire_bytes_def demo_unfold codec_simps)

text \<open>
  \<open>ReadMessage\<close> consumes exactly one frame whatever is inside it: given a length between 1
  and \<open>maxFrameSize\<close> and that many bytes, the stream continues right after the frame even when
  the type is unknown or the payload does not decode.
\<close>

theorem ReadMessage_resynchronises:
  assumes "length payload = unat n" and "n \<noteq> 0" and "n \<le> maxFrameSize"
  shows "snd (ReadMessage (putUint32 n @ payload @ rest)) = rest"
  using assms
  by (auto simp: ReadMessage_def dbind_def dret_def dfail_def codec_simps not_less
      split: sum.splits)

theorem ReadMessage_resynchronises_witness:
  "snd (ReadMessage (putUint32 2 @ [0xFF, 7] @ [1])) = [1]"
  by (rule ReadMessage_resynchronises)
    (simp_all add: word_le_nat_alt)


lemma big_output_frame_length:
  "length (frame_bytes (MOutput \<lparr>output_Data = replicate n 0\<rparr>)) = n + 5"
  by (simp add: frame_bytes_def encode_Output_def codec_simps blob_bytes_def)


text \<open>
  Encoding errors leave nothing on the connection: on a connection that accepts every byte,
  a \<open>WriteMessage\<close> that fails has written no part of a frame.
\<close>

theorem encode_error_writes_nothing:
  assumes "sink_room s = None" and "fst (WriteMessage m s) = Inl e"
  shows "snd (WriteMessage m s) = s"
  using assms
  by (auto simp: WriteMessage_def WriteU32_def Let_def codec_simps sput_def
      split: prod.splits sum.splits option.splits)

lemma long_kill_fails:
  "fst (WriteMessage (MKill \<lparr>kill_Name = replicate 65536 CHR ''a''\<rparr>) buffer) =
     Inl (Errorf (''string too long: '' @ string_of_nat 65536 @ '' bytes''))"
  by (simp add: WriteMessage_def encodeFrame_def encode_Kill_def WriteString_too_long str_ok_def
      efail_def WriteU8_def sput_buffer)

theorem encode_error_writes_nothing_witness:
  "snd (WriteMessage (MKill \<lparr>kill_Name = replicate 65536 CHR ''a''\<rparr>) buffer) = buffer"
  by (rule encode_error_writes_nothing [OF _ long_kill_fails]) (simp add: buffer_def)

text \<open>
  The handshake agrees: what the client sends, \<open>AcceptHandshake\<close> reads; what the daemon
  replies with \<open>WriteVersionReply\<close>, the client's \<open>Handshake\<close> returns, and the bytes behind the
  reply stay in the stream for the first frame.
\<close>

theorem handshake_agrees:
  assumes "str_ok rev1" and "str_ok rev2" and "sink_room (c_sink c) = None"
    and "c_in c = bytes_of (WriteVersionReply v2 rev2) @ later"
  shows "\<exists>hello c'. Handshake v1 rev1 c = (Inr (v2, rev2), c')
    \<and> c_in c' = later
    \<and> sink_out (c_sink c') = sink_out (c_sink c) @ hello
    \<and> (\<forall>r. AcceptHandshake (hello @ r) = (Inr (v1, rev1), r))"
proof -
  let ?hello = "v1 # str_bytes rev1"
  have "eall [WriteU8 v1, WriteString rev1] = sput ?hello"
    using assms(1) by (simp add: codec_simps)
  moreover have "bytes_of (WriteVersionReply v2 rev2) = v2 # str_bytes rev2"
    using assms(2) by (simp add: WriteVersionReply_def codec_simps)
  ultimately show ?thesis
    using assms
    by (intro exI [of _ ?hello])
      (simp add: Handshake_def sput_def readVersion_put AcceptHandshake_def)
qed

theorem handshake_agrees_witness:
  "\<exists>hello c'. Handshake 8 ''abc''
      \<lparr>c_sink = buffer, c_in = bytes_of (WriteVersionReply 8 ''abd'') @ [0]\<rparr> = (Inr (8, ''abd''), c')
    \<and> c_in c' = [0] \<and> sink_out (c_sink c') = hello
    \<and> (\<forall>r. AcceptHandshake (hello @ r) = (Inr (8, ''abc''), r))"
  using handshake_agrees [of "''abc''" "''abd''"
      "\<lparr>c_sink = buffer, c_in = bytes_of (WriteVersionReply 8 ''abd'') @ [0]\<rparr>" 8 "[0]" 8]
  by (auto simp: str_ok_def buffer_def)

end
