(* ===== verification/Name_Gen.thy ===== *)
theory Name_Gen
  imports Ht_Prelude
begin

text \<open>
  \<open>internal/daemon/namegen.go\<close>: generated session names. The random source is the parameter
  \<open>rnd\<close>: \<open>rnd k\<close> is the k-th raw draw of the run, and \<open>rand.IntN(n)\<close> reduces it to
  \<open>[0, n)\<close>. \<open>existing\<close> is Go's \<open>map[string]bool\<close>, read as its lookup function. The search for
  a numeric suffix has no bound in the source; it is a \<open>partial_function\<close> here, and that it
  returns is a theorem.
\<close>

definition adjectives :: "string list" where
  "adjectives =
     [''phantom'', ''hollow'', ''silver'', ''shadow'', ''spectral'',
      ''ghostly'', ''ethereal'', ''haunted'', ''mystic'', ''twilight'',
      ''silent'', ''fading'', ''ancient'', ''cursed'', ''forgotten'',
      ''pale'', ''dark'', ''eerie'', ''somber'', ''shrouded'',
      ''veiled'', ''grim'', ''dusk'', ''frost'', ''ashen'',
      ''waning'', ''void'', ''deep'', ''lost'', ''still'']"

definition nouns :: "string list" where
  "nouns =
     [''drift'', ''echo'', ''mist'', ''shade'', ''whisper'',
      ''wraith'', ''specter'', ''haunt'', ''gloom'', ''crypt'',
      ''tomb'', ''veil'', ''fog'', ''dusk'', ''ember'',
      ''ash'', ''bone'', ''rune'', ''ward'', ''gate'',
      ''marsh'', ''moor'', ''vale'', ''rift'', ''cairn'',
      ''peak'', ''keep'', ''den'', ''maze'', ''well'']"

definition randIntN :: "(nat \<Rightarrow> nat) \<Rightarrow> nat \<Rightarrow> nat \<Rightarrow> nat" where
  "randIntN rnd k n = rnd k mod n"

text \<open>\<open>generateName\<close> draws twice; \<open>k\<close> is the number of draws made before it.\<close>

definition generateName :: "(nat \<Rightarrow> nat) \<Rightarrow> nat \<Rightarrow> string" where
  "generateName rnd k =
     adjectives ! randIntN rnd k (length adjectives) @ ''-''
       @ nouns ! randIntN rnd (Suc k) (length nouns)"

fun tryRandom :: "(nat \<Rightarrow> nat) \<Rightarrow> (string \<Rightarrow> bool) \<Rightarrow> nat \<Rightarrow> nat \<Rightarrow> string option" where
  "tryRandom rnd existing k 0 = None"
| "tryRandom rnd existing k (Suc i) =
     (let name = generateName rnd k
      in if \<not> existing name then Some name else tryRandom rnd existing (k + 2) i)"

definition allNames :: "string list" where
  "allNames = concat (map (\<lambda>adj. map (\<lambda>noun. adj @ ''-'' @ noun) nouns) adjectives)"

definition suffixed :: "string \<Rightarrow> nat \<Rightarrow> string" where
  "suffixed name suffix = name @ ''-'' @ string_of_nat suffix"

partial_function (option) trySuffixes :: "(string \<Rightarrow> bool) \<Rightarrow> string \<Rightarrow> nat \<Rightarrow> string option" where
  "trySuffixes existing name suffix =
     (let candidate = suffixed name suffix
      in if \<not> existing candidate then Some candidate else trySuffixes existing name (Suc suffix))"

definition generateUniqueName :: "(nat \<Rightarrow> nat) \<Rightarrow> (string \<Rightarrow> bool) \<Rightarrow> string option" where
  "generateUniqueName rnd existing =
     (case tryRandom rnd existing 0 100 of
        Some name \<Rightarrow> Some name
      | None \<Rightarrow>
          (case find (\<lambda>name. \<not> existing name) allNames of
             Some name \<Rightarrow> Some name
           | None \<Rightarrow> trySuffixes existing (generateName rnd 200) 0))"

section \<open>Lemmas\<close>

lemma length_words [simp]: "length adjectives = 30" "length nouns = 30"
  by (simp_all add: adjectives_def nouns_def)

lemma generateName_in_allNames: "generateName rnd k \<in> set allNames"
proof -
  have "adjectives ! randIntN rnd k 30 \<in> set adjectives"
    and "nouns ! randIntN rnd (Suc k) 30 \<in> set nouns"
    by (simp_all add: randIntN_def)
  then show ?thesis by (auto simp: generateName_def allNames_def)
qed

lemma tryRandom_SomeD:
  "tryRandom rnd existing k i = Some name \<Longrightarrow> name \<in> set allNames \<and> \<not> existing name"
  by (induction i arbitrary: k)
    (auto simp: Let_def generateName_in_allNames split: if_splits)

lemma find_allNames_SomeD:
  "find (\<lambda>name. \<not> existing name) allNames = Some name \<Longrightarrow> name \<in> set allNames \<and> \<not> existing name"
  by (auto simp: find_Some_iff)

lemma suffixed_inject: "suffixed name i = suffixed name j \<longleftrightarrow> i = j"
  by (simp add: suffixed_def)

lemma free_suffix_exists:
  assumes "finite {n. existing n}"
  shows "\<exists>j \<ge> i. \<not> existing (suffixed name j)"
proof (rule ccontr)
  assume "\<not> (\<exists>j \<ge> i. \<not> existing (suffixed name j))"
  then have "suffixed name ` {i..} \<subseteq> {n. existing n}" by auto
  with assms have "finite (suffixed name ` {i..})" by (rule rev_finite_subset)
  moreover have "inj_on (suffixed name) {i..}"
    by (simp add: inj_on_def suffixed_inject)
  ultimately have "finite {i..}" by (rule finite_imageD)
  then show False by (simp add: infinite_Ici)
qed

lemma trySuffixes_reaches:
  assumes "\<not> existing (suffixed name j)" and "i \<le> j"
  shows "\<exists>k. trySuffixes existing name i = Some (suffixed name k) \<and> \<not> existing (suffixed name k)"
  using assms(2)
proof (induction "j - i" arbitrary: i)
  case 0
  then have "i = j" by simp
  with assms(1) show ?case by (auto simp: trySuffixes.simps [of existing name j] Let_def)
next
  case (Suc d)
  show ?case
  proof (cases "existing (suffixed name i)")
    case True
    from Suc.hyps(2) have "d = j - Suc i" and "Suc i \<le> j" by auto
    from Suc.hyps(1) [OF this] True show ?thesis
      by (simp add: trySuffixes.simps [of existing name i] Let_def)
  next
    case False
    then show ?thesis by (auto simp: trySuffixes.simps [of existing name i] Let_def)
  qed
qed

lemma generateUniqueName_free:
  assumes "finite {n. existing n}"
  shows "\<exists>name. generateUniqueName rnd existing = Some name \<and> \<not> existing name
    \<and> (name \<in> set allNames
       \<or> (\<forall>n \<in> set allNames. existing n) \<and> (\<exists>i. name = suffixed (generateName rnd 200) i))"
proof (cases "tryRandom rnd existing 0 100")
  case (Some name)
  with tryRandom_SomeD [OF this] show ?thesis by (simp add: generateUniqueName_def)
next
  case none: None
  show ?thesis
  proof (cases "find (\<lambda>name. \<not> existing name) allNames")
    case (Some name)
    with none find_allNames_SomeD [OF this] show ?thesis
      by (simp add: generateUniqueName_def)
  next
    case None
    then have all: "\<forall>n \<in> set allNames. existing n" by (simp add: find_None_iff)
    from free_suffix_exists [OF assms, of 0] obtain j
      where j: "\<not> existing (suffixed (generateName rnd 200) j)" by auto
    from trySuffixes_reaches [of existing, OF j, of 0] none None all show ?thesis
      by (auto simp: generateUniqueName_def)
  qed
qed

section \<open>Properties\<close>

text \<open>
  C7. \<open>generateUniqueName\<close> returns, whatever the random draws, and its name is not in use: with
  a finite set of existing names the suffix search ends. A numeric suffix appears only when all
  900 adjective-noun names are taken.
\<close>

theorem generateUniqueName_fresh:
  assumes "finite {n. existing n}"
  shows "\<exists>name. generateUniqueName rnd existing = Some name \<and> \<not> existing name
    \<and> (name \<in> set allNames
       \<or> (\<forall>n \<in> set allNames. existing n) \<and> (\<exists>i. name = suffixed (generateName rnd 200) i))"
  by (rule generateUniqueName_free [OF assms])

theorem generateUniqueName_fresh_witness:
  "\<exists>name. generateUniqueName (\<lambda>_. 0) (\<lambda>n. n = ''phantom-drift'') = Some name
     \<and> name \<noteq> ''phantom-drift''"
  using generateUniqueName_fresh [of "\<lambda>n. n = ''phantom-drift''" "\<lambda>_. 0"] by auto

end
