(* ===== verification/Shell_Env.thy ===== *)
theory Shell_Env
  imports Ht_Prelude
begin

text \<open>
  \<open>internal/daemon/shell.go\<close> and the launch half of \<open>session_lifecycle.go\<close>: the environment of
  a session's process and Ghostty's shell integration. An environment is the list of
  \<open>KEY=value\<close> strings Go passes to \<open>exec\<close>. The locale \<open>env_store\<close> is what the launch code
  relies on; \<open>getEnv\<close> and \<open>setEnv\<close> interpret it for keys without an equals sign.
\<close>

section \<open>Environment lists\<close>

fun getEnv :: "string list \<Rightarrow> string \<Rightarrow> string" where
  "getEnv [] key = []"
| "getEnv (e # es) key =
     (if hasPrefix e (key @ ''='') then drop (length (key @ ''='')) e else getEnv es key)"

fun setEnv :: "string list \<Rightarrow> string \<Rightarrow> string \<Rightarrow> string list" where
  "setEnv [] key val = [key @ ''='' @ val]"
| "setEnv (e # es) key val =
     (if hasPrefix e (key @ ''='') then (key @ ''='' @ val) # es else e # setEnv es key val)"

text \<open>The body of \<open>mergeEnv\<close>'s loop: replace the first entry with the override's key, or append.\<close>

fun overlay :: "string \<Rightarrow> string \<Rightarrow> string list \<Rightarrow> string list" where
  "overlay pre ov [] = [ov]"
| "overlay pre ov (e # es) = (if hasPrefix e pre then ov # es else e # overlay pre ov es)"

fun mergeEnv :: "string list \<Rightarrow> string list \<Rightarrow> string list" where
  "mergeEnv merged [] = merged"
| "mergeEnv merged (ov # ovs) =
     mergeEnv (overlay (fst (cutAt CHR ''='' ov) @ ''='') ov merged) ovs"

section \<open>Shell selection\<close>

definition resolveShellCommand :: "string \<Rightarrow> string list \<Rightarrow> string list \<Rightarrow> string list" where
  "resolveShellCommand osShell command env =
     (if command \<noteq> [] then command
      else case find (\<lambda>e. length e > 6 \<and> take 6 e = ''SHELL='') env of
             Some e \<Rightarrow> [drop 6 e]
           | None \<Rightarrow> if osShell \<noteq> [] then [osShell] else [''/bin/sh''])"

definition detectShell :: "string \<Rightarrow> string" where
  "detectShell executable =
     (let base = trimPrefix (filepathBase executable) ''-''
      in if base = ''zsh'' then ''zsh''
         else if base = ''bash'' then ''bash''
         else if base = ''fish'' then ''fish''
         else [])"

section \<open>Shell integration\<close>

text \<open>
  What the launch code needs of the operating system: the outcome of \<open>os.MkdirTemp\<close>, of writing
  the file, \<open>$HOME\<close>, and the temporary directories that exist (with the files in them).
\<close>

record tmpfs =
  tmp_mkdir :: "string result"
  tmp_write :: "unit result"
  tmp_home :: string
  tmp_dirs :: "string list"
  tmp_files :: "(string \<times> string) list"

definition removeAll :: "string \<Rightarrow> tmpfs \<Rightarrow> tmpfs" where
  "removeAll dir w = w\<lparr>tmp_dirs := filter (\<lambda>d. d \<noteq> dir) (tmp_dirs w),
     tmp_files := filter (\<lambda>(p, _). filepathDir p \<noteq> dir) (tmp_files w)\<rparr>"

definition zshenvScript :: "string \<Rightarrow> string \<Rightarrow> string \<Rightarrow> string" where
  "zshenvScript origZdotdir integrationScript userZshenv =
     (if origZdotdir \<noteq> [] then ''export ZDOTDIR='' @ quoted origZdotdir @ [CHR 0x0A]
      else ''unset ZDOTDIR'' @ [CHR 0x0A])
     @ ''source '' @ quoted integrationScript @ [CHR 0x0A]
     @ ''[[ -f '' @ quoted userZshenv @ '' ]] && source '' @ quoted userZshenv @ [CHR 0x0A]"

definition setupZsh ::
  "string list \<Rightarrow> string list \<Rightarrow> string \<Rightarrow> tmpfs \<Rightarrow> (gerror option \<times> string list \<times> string list \<times> string) \<times> tmpfs" where
  "setupZsh command env resourcesDir w =
     (let origZdotdir = getEnv env ''ZDOTDIR''
      in case tmp_mkdir w of
           Inl e \<Rightarrow> ((Some (Wrap ''create zsh temp dir'' e), command, env, []), w)
         | Inr tmpDir \<Rightarrow>
             let w1 = w\<lparr>tmp_dirs := tmpDir # tmp_dirs w\<rparr>;
                 realZdotdir = (if origZdotdir = [] then tmp_home w else origZdotdir);
                 integrationScript = filepathJoin
                   [resourcesDir, ''shell-integration'', ''zsh'', ''ghostty-integration''];
                 userZshenv = filepathJoin [realZdotdir, ''.zshenv''];
                 script = zshenvScript origZdotdir integrationScript userZshenv
             in (case tmp_write w of
                   Inl e \<Rightarrow> ((Some (Wrap ''write .zshenv'' e), command, env, []), removeAll tmpDir w1)
                 | Inr _ \<Rightarrow>
                     ((None, command, setEnv env ''ZDOTDIR'' tmpDir, tmpDir),
                      w1\<lparr>tmp_files := (filepathJoin [tmpDir, ''.zshenv''], script) # tmp_files w1\<rparr>)))"

definition setupBash :: "string list \<Rightarrow> string list \<Rightarrow> string \<Rightarrow> string list \<times> string list" where
  "setupBash command env resourcesDir =
     (let integrationScript = filepathJoin [resourcesDir, ''shell-integration'', ''bash'', ''ghostty.bash'']
      in (command, setEnv (setEnv (setEnv env ''GHOSTTY_BASH_INJECT'' ''1'')
            ''ENV'' integrationScript) ''BASH_ENV'' integrationScript))"

definition setupFish :: "string list \<Rightarrow> string \<Rightarrow> string list" where
  "setupFish env resourcesDir =
     (let fishDir = filepathJoin [resourcesDir, ''shell-integration'', ''fish''];
          existing = (if getEnv env ''XDG_DATA_DIRS'' = [] then ''/usr/local/share:/usr/share''
                      else getEnv env ''XDG_DATA_DIRS'')
      in setEnv env ''XDG_DATA_DIRS'' (fishDir @ '':'' @ existing))"

text \<open>The result is (error, command, environment, temporary directory); \<open>command\<close> is non-empty,
  as \<open>resolveShellCommand\<close> guarantees.\<close>

definition prepareShellLaunch ::
  "string list \<Rightarrow> string list \<Rightarrow> string \<Rightarrow> tmpfs \<Rightarrow> (gerror option \<times> string list \<times> string list \<times> string) \<times> tmpfs" where
  "prepareShellLaunch command env sessionName w =
     (let modifiedEnv = setEnv env ''HAUNTTY_SESSION'' sessionName;
          resourcesDir = getEnv modifiedEnv ''GHOSTTY_RESOURCES_DIR''
      in if resourcesDir = [] then ((None, command, modifiedEnv, []), w)
         else let shell = detectShell (hd command)
              in if shell = ''zsh'' then setupZsh command modifiedEnv resourcesDir w
                 else if shell = ''bash'' then
                   (case setupBash command modifiedEnv resourcesDir of
                      (c, e) \<Rightarrow> ((None, c, e, []), w))
                 else if shell = ''fish'' then
                   ((None, command, setupFish modifiedEnv resourcesDir, []), w)
                 else ((None, command, modifiedEnv, []), w))"

section \<open>Launching the process\<close>

record termSize =
  cols :: u16
  rows :: u16
  xpixel :: u16
  ypixel :: u16

record sessionStartSpec =
  spec_name :: string
  spec_command :: "string list"
  spec_env :: "string list"
  spec_cwd :: string
  spec_size :: termSize
  spec_scrollback :: u32

text \<open>What is handed to \<open>pty.StartWithSize\<close>: the \<open>exec.Cmd\<close> and the window size.\<close>

record execCmd =
  cmd_args :: "string list"
  cmd_env :: "string list"
  cmd_dir :: string
  cmd_winsize :: termSize

record 'proc sessionLaunch =
  launch_proc :: 'proc
  launch_cmd :: execCmd
  launch_tempDir :: string

text \<open>\<open>start\<close> stands for \<open>pty.StartWithSize\<close> of the package \<open>creack/pty\<close>; \<open>environ\<close> for the
  daemon's own environment. \<open>tempDir\<close> is the third result of \<open>prepareShellLaunch\<close>, empty when
  it failed.\<close>

definition launchSessionProcess ::
  "(execCmd \<Rightarrow> 'proc result) \<Rightarrow> string list \<Rightarrow> sessionStartSpec \<Rightarrow> tmpfs \<Rightarrow>
     'proc sessionLaunch result \<times> tmpfs" where
  "launchSessionProcess start environ spec w =
     (let env = mergeEnv environ (spec_env spec);
          command = resolveShellCommand (getEnv environ ''SHELL'') (spec_command spec) env
      in case prepareShellLaunch command env (spec_name spec) w of
           ((err, args, shellEnv, tempDir), w') \<Rightarrow>
             let (args, shellEnv) = (if err = None then (args, shellEnv) else (command, env));
                 cmd = \<lparr>cmd_args = args, cmd_env = shellEnv, cmd_dir = spec_cwd spec,
                        cmd_winsize = spec_size spec\<rparr>
             in (case start cmd of
                   Inl e \<Rightarrow> (Inl e, if tempDir \<noteq> [] then removeAll tempDir w' else w')
                 | Inr proc \<Rightarrow>
                     (Inr \<lparr>launch_proc = proc, launch_cmd = cmd, launch_tempDir = tempDir\<rparr>, w')))"

section \<open>The environment interface\<close>

locale env_store =
  fixes get :: "'e \<Rightarrow> string \<Rightarrow> string"
    and put :: "'e \<Rightarrow> string \<Rightarrow> string \<Rightarrow> 'e"
    and key_ok :: "string \<Rightarrow> bool"
  assumes get_put_same: "key_ok k \<Longrightarrow> get (put e k v) k = v"
    and get_put_other: "key_ok k \<Longrightarrow> key_ok k' \<Longrightarrow> k \<noteq> k' \<Longrightarrow> get (put e k v) k' = get e k'"
begin

lemma get_put: "key_ok k \<Longrightarrow> key_ok k' \<Longrightarrow> get (put e k v) k' = (if k' = k then v else get e k')"
  by (auto simp: get_put_same get_put_other)

text \<open>After a series of assignments the last one to a key is what a lookup finds.\<close>

lemma get_puts:
  assumes "\<forall>(k, v) \<in> set kvs. key_ok k" and "key_ok k'"
  shows "get (fold (\<lambda>(k, v) e. put e k v) kvs e) k' =
    (case map_of (rev kvs) k' of Some v \<Rightarrow> v | None \<Rightarrow> get e k')"
  using assms
proof (induction kvs arbitrary: e)
  case Nil
  then show ?case by simp
next
  case (Cons kv kvs)
  obtain k v where kv: "kv = (k, v)" by (cases kv)
  with Cons.prems have "key_ok k" by simp
  with Cons kv show ?case
    by (auto simp: get_put map_add_def split: option.splits)
qed

end

definition env_key :: "string \<Rightarrow> bool" where
  "env_key k \<longleftrightarrow> CHR ''='' \<notin> set k"

lemma eq_key_inject:
  assumes "env_key k" and "env_key k'" and "k @ ''='' @ x = k' @ ''='' @ y"
  shows "k = k' \<and> x = y"
proof -
  let ?c = "CHR ''=''"
  from assms(1,2) have "cutAt ?c (k @ ?c # x) = (k, x, True)"
    and "cutAt ?c (k' @ ?c # y) = (k', y, True)"
    by (simp_all add: env_key_def cutAt_first)
  moreover from assms(3) have "k @ ?c # x = k' @ ?c # y" by simp
  ultimately show ?thesis by (metis prod.inject)
qed

lemma hasPrefix_key: "hasPrefix e (k @ ''='') \<longleftrightarrow> (\<exists>v. e = k @ ''='' @ v)"
  by (simp add: hasPrefix_iff)

interpretation shell_env: env_store getEnv setEnv env_key
proof unfold_locales
  fix k :: string and e v
  assume "env_key k"
  show "getEnv (setEnv e k v) k = v"
    by (induction e) (auto simp: hasPrefix_key)
next
  fix k k' :: string and e v
  assume k: "env_key k" "env_key k'" "k \<noteq> k'"
  have other: "\<not> hasPrefix (k @ ''='' @ v) (k' @ ''='')"
    using eq_key_inject [OF k(1,2)] k(3) by (auto simp: hasPrefix_key)
  show "getEnv (setEnv e k v) k' = getEnv e k'"
  proof (induction e)
    case Nil
    show ?case using other by simp
  next
    case (Cons a e)
    have "\<not> (hasPrefix a (k @ ''='') \<and> hasPrefix a (k' @ ''=''))"
      using eq_key_inject [OF k(1,2)] k(3) unfolding hasPrefix_key by metis
    with Cons other show ?case by auto
  qed
qed

section \<open>Lemmas\<close>

lemma overlay_setEnv: "overlay (k @ ''='') (k @ ''='' @ v) env = setEnv env k v"
  by (induction env) auto

lemma mergeEnv_fold:
  "\<forall>(k, v) \<in> set kvs. env_key k \<Longrightarrow>
     mergeEnv base (map (\<lambda>(k, v). k @ ''='' @ v) kvs) = fold (\<lambda>(k, v) e. setEnv e k v) kvs base"
proof (induction kvs arbitrary: base)
  case Nil
  then show ?case by simp
next
  case (Cons kv kvs)
  obtain k v where kv: "kv = (k, v)" by (cases kv)
  with Cons.prems have "CHR ''='' \<notin> set k" by (simp add: env_key_def)
  then have "cutAt CHR ''='' (k @ ''='' @ v) = (k, v, True)" by (simp add: cutAt_first)
  with Cons kv show ?case using overlay_setEnv [of k v base] by simp
qed

lemma env_keys [simp]:
  "env_key ''HAUNTTY_SESSION''" "env_key ''GHOSTTY_RESOURCES_DIR''" "env_key ''ZDOTDIR''"
  "env_key ''GHOSTTY_BASH_INJECT''" "env_key ''ENV''" "env_key ''BASH_ENV''" "env_key ''XDG_DATA_DIRS''"
  by (simp_all add: env_key_def)

lemma resolveShellCommand_not_Nil: "resolveShellCommand sh command env \<noteq> []"
  by (auto simp: resolveShellCommand_def split: option.splits)

text \<open>The variables the integration code may set for some shell.\<close>

definition integration_keys :: "string list" where
  "integration_keys =
     [''HAUNTTY_SESSION'', ''ZDOTDIR'', ''GHOSTTY_BASH_INJECT'', ''ENV'', ''BASH_ENV'', ''XDG_DATA_DIRS'']"

lemma setup_env:
  assumes "env_key k" and "k \<notin> set (tl integration_keys)"
  shows "getEnv (snd (setupBash command env res)) k = getEnv env k"
    and "getEnv (setupFish env res) k = getEnv env k"
    and "setupZsh command env res w = ((None, args, env', dir), w') \<Longrightarrow> getEnv env' k = getEnv env k"
proof -
  from assms(2) have ne: "k \<noteq> ''ZDOTDIR''" "k \<noteq> ''GHOSTTY_BASH_INJECT''" "k \<noteq> ''ENV''" "k \<noteq> ''BASH_ENV''"
      "k \<noteq> ''XDG_DATA_DIRS''"
    by (simp_all add: integration_keys_def)
  show "getEnv (snd (setupBash command env res)) k = getEnv env k"
    using assms(1) ne by (simp add: setupBash_def Let_def shell_env.get_put)
  show "getEnv (setupFish env res) k = getEnv env k"
    using assms(1) ne by (simp add: setupFish_def Let_def shell_env.get_put)
  show "setupZsh command env res w = ((None, args, env', dir), w') \<Longrightarrow> getEnv env' k = getEnv env k"
    using assms(1) ne
    by (auto simp: setupZsh_def Let_def shell_env.get_put split: sum.splits)
qed

lemma prepareShellLaunch_env:
  assumes "prepareShellLaunch command env name w = ((None, args, env', dir), w')"
    and "env_key k" and "k \<notin> set (tl integration_keys)"
  shows "getEnv env' k = (if k = ''HAUNTTY_SESSION'' then name else getEnv env k)"
proof -
  let ?m = "setEnv env ''HAUNTTY_SESSION'' name"
  have "getEnv env' k = getEnv ?m k"
    using assms(1) setup_env [OF assms(2,3)]
    by (auto simp: prepareShellLaunch_def Let_def split: if_splits prod.splits) (metis snd_conv)
  then show ?thesis using assms(2) by (simp add: shell_env.get_put)
qed

lemma prepareShellLaunch_args:
  "prepareShellLaunch command env name w = ((err, args, env', dir), w') \<Longrightarrow> args = command"
  by (auto simp: prepareShellLaunch_def setupZsh_def setupBash_def Let_def
      split: if_splits sum.splits prod.splits)

text \<open>Directories left behind: none unless one is returned for the caller to clean up.\<close>

lemma prepareShellLaunch_dirs:
  assumes "prepareShellLaunch command env name w = ((err, args, env', dir), w')"
    and "\<forall>d. tmp_mkdir w = Inr d \<longrightarrow> d \<noteq> [] \<and> d \<notin> set (tmp_dirs w)"
  shows "tmp_dirs w' = (if dir = [] then tmp_dirs w else dir # tmp_dirs w)
    \<and> (dir \<noteq> [] \<longrightarrow> dir \<notin> set (tmp_dirs w) \<and> err = None)"
  using assms
  by (auto simp: prepareShellLaunch_def setupZsh_def setupBash_def removeAll_def Let_def
      filter_ne_not_in split: if_splits sum.splits prod.splits)

section \<open>Properties\<close>

text \<open>
  \<open>mergeEnv\<close> overlays: looking a variable up in the merged environment finds the last
  override that sets it, and otherwise what the base environment had.
\<close>

theorem mergeEnv_overrides:
  assumes "\<forall>(k, v) \<in> set kvs. env_key k" and "env_key key"
  shows "getEnv (mergeEnv base (map (\<lambda>(k, v). k @ ''='' @ v) kvs)) key =
    (case map_of (rev kvs) key of Some v \<Rightarrow> v | None \<Rightarrow> getEnv base key)"
  unfolding mergeEnv_fold [OF assms(1)] by (rule shell_env.get_puts [OF assms])

theorem mergeEnv_overrides_witness:
  "getEnv (mergeEnv [''TERM=dumb'', ''LANG=C''] [''TERM=xterm'', ''SHELL=/bin/zsh'', ''TERM=vt100'']) ''TERM''
     = ''vt100''"
  using mergeEnv_overrides [of "[(''TERM'', ''xterm''), (''SHELL'', ''/bin/zsh''), (''TERM'', ''vt100'')]"
      "''TERM''" "[''TERM=dumb'', ''LANG=C'']"]
  by (simp add: env_key_def)


definition demo_spec :: sessionStartSpec where
  "demo_spec = \<lparr>spec_name = ''work'', spec_command = [''/bin/zsh''], spec_env = [''TERM=xterm''],
     spec_cwd = ''/tmp'', spec_size = \<lparr>cols = 80, rows = 24, xpixel = 0, ypixel = 0\<rparr>,
     spec_scrollback = 0\<rparr>"

definition demo_tmp :: tmpfs where
  "demo_tmp = \<lparr>tmp_mkdir = Inr ''/tmp/hauntty-zsh-1'', tmp_write = Inl (ErrIO ''disk full''),
     tmp_home = ''/home/u'', tmp_dirs = [], tmp_files = []\<rparr>"


text \<open>
  C10. Launching leaks no temporary directory: after a failed launch the temporary directories
  are those from before; after a successful one the only new one is the \<open>tempDir\<close> the session
  will remove.
\<close>

theorem launch_no_tempdir_leak:
  assumes "launchSessionProcess start environ spec w = (res, w')"
    and "\<forall>d. tmp_mkdir w = Inr d \<longrightarrow> d \<noteq> [] \<and> d \<notin> set (tmp_dirs w)"
  shows "case res of
      Inl _ \<Rightarrow> tmp_dirs w' = tmp_dirs w
    | Inr l \<Rightarrow> tmp_dirs w' =
        (if launch_tempDir l = [] then tmp_dirs w else launch_tempDir l # tmp_dirs w)"
proof -
  let ?env = "mergeEnv environ (spec_env spec)"
  let ?command = "resolveShellCommand (getEnv environ ''SHELL'') (spec_command spec) ?env"
  obtain err args env' dir w1 where
    p: "prepareShellLaunch ?command ?env (spec_name spec) w = ((err, args, env', dir), w1)"
    by (metis prod.collapse)
  from prepareShellLaunch_dirs [OF p assms(2)] assms(1) show ?thesis
    by (auto simp: launchSessionProcess_def p Let_def removeAll_def filter_ne_not_in
        split: sum.splits if_splits)
qed

theorem launch_no_tempdir_leak_witness:
  "tmp_dirs (snd (launchSessionProcess (\<lambda>_. Inl (ErrIO ''fork'') :: nat result)
     [''GHOSTTY_RESOURCES_DIR=/r''] demo_spec demo_tmp)) = []"
proof -
  let ?r = "launchSessionProcess (\<lambda>_. Inl (ErrIO ''fork'') :: nat result)
     [''GHOSTTY_RESOURCES_DIR=/r''] demo_spec demo_tmp"
  have f: "fst ?r = Inl (ErrIO ''fork'')"
    by (simp add: launchSessionProcess_def Let_def split: prod.splits)
  show ?thesis
    using launch_no_tempdir_leak [of _ _ _ _ "fst ?r" "snd ?r", OF prod.collapse [symmetric]] f
    by (simp add: demo_tmp_def)
qed

text \<open>
  When the shell integration fails the session is launched with the merged environment as
  it was: \<open>HAUNTTY_SESSION\<close>, which the README promises inside every session, is then not set by
  hauntty.
\<close>

theorem launch_without_session_variable:
  assumes "fst (launchSessionProcess start environ spec w) = Inr l"
    and "env = mergeEnv environ (spec_env spec)"
    and "command = resolveShellCommand (getEnv environ ''SHELL'') (spec_command spec) env"
    and "fst (fst (prepareShellLaunch command env (spec_name spec) w)) = Some err"
  shows "cmd_env (launch_cmd l) = env \<and> cmd_args (launch_cmd l) = command"
  using assms
  by (auto simp: launchSessionProcess_def Let_def split: sum.splits prod.splits)

theorem launch_without_session_variable_witness:
  "getEnv (cmd_env (launch_cmd (projr (fst (launchSessionProcess (\<lambda>_. Inr (7 :: nat))
      [''GHOSTTY_RESOURCES_DIR=/r''] demo_spec demo_tmp))))) ''HAUNTTY_SESSION'' = []"
proof -
  let ?r = "launchSessionProcess (\<lambda>_. Inr (7 :: nat)) [''GHOSTTY_RESOURCES_DIR=/r''] demo_spec demo_tmp"
  let ?env = "mergeEnv [''GHOSTTY_RESOURCES_DIR=/r''] (spec_env demo_spec)"
  have env: "?env = [''GHOSTTY_RESOURCES_DIR=/r'', ''TERM=xterm'']"
    by (simp add: demo_spec_def hasPrefix_def cutAt_def)
  have sh: "detectShell ''/bin/zsh'' = ''zsh''"
    by (simp add: detectShell_def filepathBase_def trimPrefix_def hasPrefix_def)
  have ok: "fst ?r = Inr (projr (fst ?r))"
    by (auto simp: launchSessionProcess_def Let_def split: prod.splits)
  have "fst (fst (prepareShellLaunch [''/bin/zsh''] ?env ''work'' demo_tmp)) =
      Some (Wrap ''write .zshenv'' (ErrIO ''disk full''))"
    by (simp add: env prepareShellLaunch_def Let_def hasPrefix_def sh setupZsh_def demo_tmp_def)
  then show ?thesis
    using launch_without_session_variable [OF ok refl refl] env
    by (simp add: resolveShellCommand_def demo_spec_def hasPrefix_def)
qed

end
