(* ===== verification/Pty_Gather.thy ===== *)
theory Pty_Gather
  imports Ht_Prelude "HOL-Library.Sublist"
begin

text \<open>
  The PTY side of \<open>internal/daemon/session_lifecycle.go\<close>: \<open>gatherPTYReads\<close>, which merges reads
  into batches, and the exit code of the child. The loop's inputs are a script of events: a read,
  the end of the reads, the batch timer, the session's end. A \<open>GDone\<close> at the head of the script
  when a batch is to be sent means that the select took the \<open>done\<close> branch. The result is the
  batches sent, the bytes still held, and whether the loop returned (else it waits for an event).
\<close>

definition ptyReadSize :: nat where "ptyReadSize = 32 * 1024"
definition ptyBatchSize :: nat where "ptyBatchSize = 64 * 1024"
definition ptyBatchThreshold :: nat where "ptyBatchThreshold = 1024"

datatype gatherEvent = GRead "byte list" | GClosed | GTimer | GDone

datatype gatherStop = GSend | GReturn | GWait

text \<open>The inner loop: (batch, pending, reads closed, why it stopped, events left).\<close>

fun gatherMore ::
  "byte list \<Rightarrow> byte list \<Rightarrow> bool \<Rightarrow> gatherEvent list \<Rightarrow>
     byte list \<times> byte list \<times> bool \<times> gatherStop \<times> gatherEvent list" where
  "gatherMore batch pending readsClosed [] =
     (if length batch < ptyBatchSize \<and> length pending = 0 \<and> \<not> readsClosed
      then (batch, pending, readsClosed, GWait, [])
      else (batch, pending, readsClosed, GSend, []))"
| "gatherMore batch pending readsClosed (e # es) =
     (if length batch < ptyBatchSize \<and> length pending = 0 \<and> \<not> readsClosed
      then (case e of
              GRead next \<Rightarrow>
                let remaining = ptyBatchSize - length batch
                in if length next > remaining
                   then (batch @ take remaining next, drop remaining next, readsClosed, GSend, es)
                   else gatherMore (batch @ next) pending readsClosed es
            | GClosed \<Rightarrow> (batch, pending, True, GSend, es)
            | GTimer \<Rightarrow> (batch, pending, readsClosed, GSend, es)
            | GDone \<Rightarrow> (batch, pending, readsClosed, GReturn, es))
      else (batch, pending, readsClosed, GSend, e # es))"

fun eventSize :: "gatherEvent \<Rightarrow> nat" where
  "eventSize (GRead d) = Suc (length d)"
| "eventSize _ = 1"

definition startBatch :: "byte list \<Rightarrow> byte list \<times> byte list" where
  "startBatch first =
     (if length first > ptyBatchSize then (take ptyBatchSize first, drop ptyBatchSize first)
      else (first, []))"

fun doneNext :: "gatherEvent list \<Rightarrow> bool" where
  "doneNext (GDone # _) = True"
| "doneNext _ = False"

lemma gatherMore_size:
  "gatherMore b p c es = (b', p', c', stop, es') \<Longrightarrow>
     length b' + length p' + sum_list (map eventSize es') \<le> length b + length p + sum_list (map eventSize es)
     \<and> length b \<le> length b'"
  by (induction b p c es rule: gatherMore.induct)
    (force simp: Let_def split: if_splits gatherEvent.splits)+

lemma startBatch_parts: "startBatch first = (b, p) \<Longrightarrow> first = b @ p"
  by (auto simp: startBatch_def split: if_splits)

function gatherPTYReads ::
  "byte list \<Rightarrow> bool \<Rightarrow> gatherEvent list \<Rightarrow> byte list list \<times> byte list \<times> bool" where
  "gatherPTYReads pending readsClosed es =
     (case (if length pending > 0 then Some (pending, es)
            else if readsClosed then None
            else (case es of GRead d # es' \<Rightarrow> Some (d, es') | _ \<Rightarrow> None)) of
        None \<Rightarrow>
          (if readsClosed then ([], [], True)
           else (case es of
                   [] \<Rightarrow> ([], [], False)
                 | GTimer # es' \<Rightarrow> gatherPTYReads [] readsClosed es'
                 | _ # es' \<Rightarrow> ([], [], True)))
      | Some (first, es1) \<Rightarrow>
          (if length first < ptyBatchThreshold
           then (if doneNext es1 then ([], first, True)
                 else (case gatherPTYReads [] readsClosed es1 of
                         (bs, held, ret) \<Rightarrow> (first # bs, held, ret)))
           else (case startBatch first of (b0, p0) \<Rightarrow>
                 (case gatherMore b0 p0 readsClosed es1 of
                    (b, p, c, GReturn, es2) \<Rightarrow> ([], b @ p, True)
                  | (b, p, c, GWait, es2) \<Rightarrow> ([], b @ p, False)
                  | (b, p, c, GSend, es2) \<Rightarrow>
                      (if doneNext es2 then ([], b @ p, True)
                       else (case gatherPTYReads p c es2 of
                               (bs, held, ret) \<Rightarrow> (b # bs, held, ret)))))))"
  by pat_completeness auto

termination
proof (relation "measure (\<lambda>(p, c, es). length p + sum_list (map eventSize es))", goal_cases)
  case 1
  then show ?case by simp
next
  case (2 pending readsClosed es x xs)
  then show ?case by (auto split: if_splits list.splits gatherEvent.splits)
next
  case (3 pending readsClosed es a x y)
  then show ?case by (auto split: if_splits list.splits gatherEvent.splits)
next
  case (4 pending readsClosed es x2 first es1 b0 p0 b yb p yc c yd xe es2)
  from 4(5-9) have gm: "gatherMore b0 p0 readsClosed es1 = (b, p, c, GSend, es2)" by simp
  have "length first > 0" using 4(3) by (cases first) (simp_all add: ptyBatchThreshold_def)
  moreover have "first = b0 @ p0" using startBatch_parts 4(4) by metis
  moreover have "length b0 > 0"
    using 4(3,4) by (auto simp: startBatch_def ptyBatchThreshold_def ptyBatchSize_def split: if_splits)
  moreover have "length first + sum_list (map eventSize es1) \<le> length pending + sum_list (map eventSize es)"
    using 4(1,2) by (auto split: if_splits list.splits gatherEvent.splits)
  ultimately show ?case using gatherMore_size [OF gm] by (cases b0) auto
qed

declare gatherPTYReads.simps [simp del]

section \<open>Lemmas\<close>

text \<open>The bytes the PTY delivered before its end.\<close>

fun readBytes :: "gatherEvent list \<Rightarrow> byte list" where
  "readBytes [] = []"
| "readBytes (GRead d # es) = d @ readBytes es"
| "readBytes (GClosed # es) = []"
| "readBytes (_ # es) = readBytes es"

definition leftBytes :: "bool \<Rightarrow> gatherEvent list \<Rightarrow> byte list" where
  "leftBytes closed es = (if closed then [] else readBytes es)"

lemma gatherMore_stream:
  "gatherMore b p c es = (b', p', c', stop, es') \<Longrightarrow>
     b' @ p' @ leftBytes c' es' = b @ p @ leftBytes c es
     \<and> (stop = GReturn \<longrightarrow> GDone \<in> set es) \<and> (GDone \<in> set es' \<longrightarrow> GDone \<in> set es)
     \<and> (stop = GWait \<longrightarrow> es' = [] \<and> \<not> c' \<and> GClosed \<notin> set es)
     \<and> (c \<or> GClosed \<in> set es \<longrightarrow> c' \<or> GClosed \<in> set es')"
proof (induction b p c es rule: gatherMore.induct)
  case (1 batch pending readsClosed)
  then show ?case by (auto split: if_splits)
next
  case (2 batch pending readsClosed e es)
  show ?case
  proof (cases "length batch < ptyBatchSize \<and> length pending = 0 \<and> \<not> readsClosed")
    case True
    with 2 show ?thesis
      by (cases e) (auto simp: leftBytes_def Let_def split: if_splits)
  next
    case False
    with 2 show ?thesis by auto
  qed
qed

lemma gatherMore_bound:
  "gatherMore b p c es = (b', p', c', stop, es') \<Longrightarrow> length b \<le> ptyBatchSize \<Longrightarrow> length b' \<le> ptyBatchSize"
  by (induction b p c es rule: gatherMore.induct)
    (force simp: Let_def split: if_splits gatherEvent.splits)+

lemma startBatch_bound: "startBatch first = (b, p) \<Longrightarrow> length b \<le> ptyBatchSize"
  by (auto simp: startBatch_def split: if_splits)

lemma doneNext_mem: "doneNext es \<Longrightarrow> GDone \<in> set es"
  by (cases es rule: doneNext.cases) auto

text \<open>What one round of the outer loop starts from, with the bytes that are still to come.\<close>

definition gatherNext :: "byte list \<Rightarrow> bool \<Rightarrow> gatherEvent list \<Rightarrow> (byte list \<times> gatherEvent list) option" where
  "gatherNext pending readsClosed es =
     (if length pending > 0 then Some (pending, es)
      else if readsClosed then None
      else (case es of GRead d # es' \<Rightarrow> Some (d, es') | _ \<Rightarrow> None))"

lemma gatherNext_stream:
  "gatherNext pending c es = Some (first, es1) \<Longrightarrow>
     pending @ leftBytes c es = first @ leftBytes c es1
     \<and> (GDone \<in> set es1 \<longrightarrow> GDone \<in> set es) \<and> (GClosed \<in> set es \<longleftrightarrow> GClosed \<in> set es1)"
  by (auto simp: gatherNext_def leftBytes_def split: if_splits list.splits gatherEvent.splits)

definition gather_ok :: "byte list \<Rightarrow> bool \<Rightarrow> gatherEvent list \<Rightarrow> byte list list \<times> byte list \<times> bool \<Rightarrow> bool" where
  "gather_ok pending c es out = (case out of (bs, held, ret) \<Rightarrow>
     prefix (concat bs @ held) (pending @ leftBytes c es)
     \<and> (\<forall>b \<in> set bs. length b \<le> ptyBatchSize)
     \<and> (GDone \<notin> set es \<longrightarrow> concat bs @ held = pending @ leftBytes c es
          \<and> (c \<or> GClosed \<in> set es \<longrightarrow> held = [] \<and> ret)))"

lemma gather_ok_send:
  assumes "gather_ok p c' es' out" and "pending @ leftBytes c es = b @ p @ leftBytes c' es'"
    and "length b \<le> ptyBatchSize" and "GDone \<in> set es' \<longrightarrow> GDone \<in> set es"
    and "c \<or> GClosed \<in> set es \<longrightarrow> c' \<or> GClosed \<in> set es'"
  shows "gather_ok pending c es (case out of (bs, held, ret) \<Rightarrow> (b # bs, held, ret))"
  using assms by (cases out) (auto simp: gather_ok_def)

text \<open>A turn without a chunk, a turn that sends a small one as it is, a turn that gathers a batch.\<close>

lemma gather_idle_ok:
  assumes none: "gatherNext pending c es = None"
    and IH: "\<And>es'. es = GTimer # es' \<Longrightarrow> \<not> c \<Longrightarrow> gather_ok [] c es' (gatherPTYReads [] c es')"
  shows "gather_ok pending c es (gatherPTYReads pending c es)"
proof -
  note unfold = gatherPTYReads.simps [of pending c es, folded gatherNext_def]
  from none have nil: "pending = []" by (auto simp: gatherNext_def split: if_splits)
  show ?thesis
  proof (cases "c \<or> es = [] \<or> hd es \<noteq> GTimer")
    case True
    with none nil show ?thesis
      unfolding unfold by (auto simp: gather_ok_def leftBytes_def gatherNext_def
          split: list.splits gatherEvent.splits if_splits)
  next
    case False
    then obtain es' where es: "es = GTimer # es'" by (cases es) auto
    with IH False have "gather_ok [] c es' (gatherPTYReads [] c es')" by simp
    then show ?thesis
      unfolding unfold using none nil False es by (simp add: gather_ok_def leftBytes_def)
  qed
qed

lemma gather_small_ok:
  assumes nx: "gatherNext pending c es = Some (first, es1)" and small: "length first < ptyBatchThreshold"
    and IH: "\<not> doneNext es1 \<Longrightarrow> gather_ok [] c es1 (gatherPTYReads [] c es1)"
  shows "gather_ok pending c es (gatherPTYReads pending c es)"
proof -
  note unfold = gatherPTYReads.simps [of pending c es, folded gatherNext_def]
  note stream = gatherNext_stream [OF nx]
  show ?thesis
  proof (cases "doneNext es1")
    case True
    then show ?thesis unfolding unfold using nx small stream doneNext_mem by (auto simp: gather_ok_def)
  next
    case False
    from IH [OF False]
    have "gather_ok pending c es (case gatherPTYReads [] c es1 of (bs, held, ret) \<Rightarrow> (first # bs, held, ret))"
      by (rule gather_ok_send) (use small stream in \<open>auto simp: ptyBatchThreshold_def ptyBatchSize_def\<close>)
    with nx small False show ?thesis unfolding unfold by simp
  qed
qed

lemma gather_batch_ok:
  assumes nx: "gatherNext pending c es = Some (first, es1)" and large: "\<not> length first < ptyBatchThreshold"
    and st: "startBatch first = (b0, p0)" and gm: "gatherMore b0 p0 c es1 = (b, p, c', stop, es2)"
    and IH: "stop = GSend \<Longrightarrow> \<not> doneNext es2 \<Longrightarrow> gather_ok p c' es2 (gatherPTYReads p c' es2)"
  shows "gather_ok pending c es (gatherPTYReads pending c es)"
proof -
  note unfold = gatherPTYReads.simps [of pending c es, folded gatherNext_def]
  note stream = gatherNext_stream [OF nx]
  note more = gatherMore_stream [OF gm] gatherMore_bound [OF gm startBatch_bound [OF st]]
  have bytes: "pending @ leftBytes c es = b @ p @ leftBytes c' es2"
    using stream more(1) startBatch_parts [OF st] by simp
  show ?thesis
  proof (cases "stop = GSend \<and> \<not> doneNext es2")
    case True
    with IH have "gather_ok p c' es2 (gatherPTYReads p c' es2)" by simp
    then have "gather_ok pending c es (case gatherPTYReads p c' es2 of (bs, held, ret) \<Rightarrow> (b # bs, held, ret))"
      by (rule gather_ok_send) (use bytes more stream in auto)
    with True nx large st gm show ?thesis unfolding unfold by simp
  next
    case False
    have pre: "prefix (b @ p) (pending @ leftBytes c es)" unfolding bytes by (metis append.assoc prefixI)
    have wait: "b @ p = pending @ leftBytes c es \<and> \<not> (c \<or> GClosed \<in> set es)" if "stop = GWait"
      using that bytes more(1) stream by (auto simp: leftBytes_def)
    have stopped: "GDone \<in> set es" if "stop \<noteq> GWait"
      using that False more(1) stream doneNext_mem by (cases stop) auto
    have "gatherPTYReads pending c es = ([], b @ p, stop \<noteq> GWait)"
      unfolding unfold using nx large st gm False by (cases stop) simp_all
    with pre wait stopped show ?thesis by (cases "stop = GWait") (simp_all add: gather_ok_def)
  qed
qed

lemma gatherPTYReads_ok: "gather_ok pending c es (gatherPTYReads pending c es)"
proof (induction pending c es rule: gatherPTYReads.induct)
  case (1 pending c es)
  note IH = "1.IH" [folded gatherNext_def]
  show ?case
  proof (cases "gatherNext pending c es")
    case None
    show ?thesis
    proof (rule gather_idle_ok [OF None])
      fix es' assume "es = GTimer # es'" and "\<not> c"
      with IH(1) [OF None] show "gather_ok [] c es' (gatherPTYReads [] c es')" by blast
    qed
  next
    case (Some a)
    obtain first es1 where a: "a = (first, es1)" by fastforce
    show ?thesis
    proof (cases "length first < ptyBatchThreshold")
      case True
      from IH(2) [OF Some _ True] a show ?thesis by (intro gather_small_ok [OF Some [unfolded a] True]) blast
    next
      case False
      obtain b0 p0 where st: "startBatch first = (b0, p0)" by fastforce
      obtain b p c' stop es2 where gm: "gatherMore b0 p0 c es1 = (b, p, c', stop, es2)" by (metis prod_cases5)
      show ?thesis
        by (rule gather_batch_ok [OF Some [unfolded a] False st gm])
          (use IH(3) [OF Some _ False, of es1 b0 p0 b "(p, c', stop, es2)" p "(c', stop, es2)" c' "(stop, es2)" stop es2]
            a st gm in simp)
    qed
  qed
qed

section \<open>Exit codes\<close>

text \<open>Go's \<open>syscall.WaitStatus\<close>: the low seven bits are 0 for an exit, 0x7F for a stop.\<close>

definition wsExited :: "u32 \<Rightarrow> bool" where "wsExited ws \<longleftrightarrow> ws AND 0x7F = 0"
definition wsSignaled :: "u32 \<Rightarrow> bool" where "wsSignaled ws \<longleftrightarrow> ws AND 0x7F \<noteq> 0x7F \<and> ws AND 0x7F \<noteq> 0"

definition exitCodeFromWaitStatus :: "u32 \<Rightarrow> u32" where
  "exitCodeFromWaitStatus ws =
     (if wsExited ws then drop_bit 8 ws AND 0xFF
      else if wsSignaled ws then 128 + (ws AND 0x7F)
      else 1)"

section \<open>Properties\<close>

text \<open>
  C18. Batching keeps the PTY stream: the batches \<open>gatherPTYReads\<close> sends are, put together, the
  bytes read, in order, whatever the timer does; no batch is larger than 64 KiB; once the reads
  have ended the loop returns with nothing held back. When the session is stopped in between,
  what was sent is a prefix of the stream.
\<close>

theorem gather_preserves_stream:
  assumes "gatherPTYReads [] False es = (batches, held, returned)"
  shows "prefix (concat batches) (readBytes es)
    \<and> (\<forall>b \<in> set batches. length b \<le> ptyBatchSize)
    \<and> (GDone \<notin> set es \<longrightarrow> concat batches @ held = readBytes es
         \<and> (GClosed \<in> set es \<longrightarrow> concat batches = readBytes es \<and> held = [] \<and> returned))"
  using gatherPTYReads_ok [of "[]" False es] assms
  by (auto simp: gather_ok_def leftBytes_def dest: append_prefixD)

theorem gather_preserves_stream_witness:
  "concat (fst (gatherPTYReads [] False [GRead [1, 2], GTimer, GRead (replicate 2000 3), GRead [4], GClosed]))
     = [1, 2] @ replicate 2000 3 @ [4]"
proof -
  let ?es = "[GRead [1, 2], GTimer, GRead (replicate 2000 3), GRead [4], GClosed]"
  obtain bs held ret where "gatherPTYReads [] False ?es = (bs, held, ret)" by (metis prod_cases3)
  from gather_preserves_stream [OF this] this show ?thesis by simp
qed

end
