(* ===== verification/Session_Clients.thy ===== *)
theory Session_Clients
  imports Wire_Messages Shell_Env "HOL-Library.Sublist"
begin

text \<open>
  The state of a session (\<open>internal/daemon/session.go\<close>) and the helpers of its run loop in
  \<open>session_clients.go\<close>. Clients are shared by pointer between \<open>clients\<close>, \<open>pendingClients\<close> and
  the requests, so they live in a heap and the lists hold references. A client's \<open>outCh\<close> is its
  buffered messages with a closed flag; a close of a closed channel and a send on a closed one
  panic in Go and set \<open>se_panic\<close> here. Three fields record history and do not exist in the code:
  \<open>cl_wire\<close> (what \<open>writeLoop\<close> has written), \<open>cl_base\<close> (how many PTY chunks the screen dump
  of the client contains) and \<open>se_accepted\<close>/\<open>se_fed\<close> (the chunks taken from the PTY and those
  applied to the terminal).
\<close>

definition ResizePolicySmallest :: string where "ResizePolicySmallest = ''smallest''"
definition ResizePolicyLargest :: string where "ResizePolicyLargest = ''largest''"
definition ResizePolicyFirst :: string where "ResizePolicyFirst = ''first''"
definition ResizePolicyLast :: string where "ResizePolicyLast = ''last''"

definition sessionClientOutBufferSize :: nat where "sessionClientOutBufferSize = 256"

type_synonym ref = nat

record clientState =
  cl_id :: string
  cl_size :: termSize
  cl_version :: string
  cl_readOnly :: bool
  cl_out :: "message list"
  cl_outClosed :: bool
  cl_writeDone :: bool
  cl_final :: "message option"
  cl_connClosed :: bool
  cl_wire :: "message list"
  cl_base :: nat

text \<open>The contents of a heap cell before a client is allocated there.\<close>

definition no_client :: clientState where
  "no_client = \<lparr>cl_id = [], cl_size = \<lparr>cols = 0, rows = 0, xpixel = 0, ypixel = 0\<rparr>, cl_version = [],
     cl_readOnly = False, cl_out = [], cl_outClosed = False, cl_writeDone = False, cl_final = None,
     cl_connClosed = False, cl_wire = [], cl_base = 0\<rparr>"

record screenDump =
  dump_Data :: "byte list"
  dump_CursorRow :: u32
  dump_CursorCol :: u32
  dump_IsAltScreen :: bool

text \<open>What the loop calls of \<open>terminalState\<close>; the emulator behind it is a parameter.\<close>

record 't emulator =
  em_feed :: "byte list \<Rightarrow> 't \<Rightarrow> 't"
  em_resize :: "u32 \<Rightarrow> u32 \<Rightarrow> 't \<Rightarrow> 't"
  em_dump :: "'t \<Rightarrow> screenDump result"

record 't session =
  se_Name :: string
  se_PID :: u32
  se_policy :: string
  se_sizeVal :: u32
  se_winsize :: termSize
  se_term :: 't
  se_feedCh :: "byte list list"
  se_heap :: "ref \<Rightarrow> clientState"
  se_refs :: nat
  se_nextClientID :: u64
  se_clients :: "ref list"
  se_pendingFeed :: "byte list option"
  se_pendingOutput :: "byte list option"
  se_pendingClients :: "ref list"
  se_ready :: bool
  se_atSelect :: bool
  se_done :: bool
  se_exited :: bool
  se_exitCode :: u32
  se_panic :: bool
  se_accepted :: "byte list list"
  se_fed :: "byte list list"

section \<open>Sizes\<close>

definition sessionSize :: "'t session \<Rightarrow> u16 \<times> u16" where
  "sessionSize s = (ucast (drop_bit 16 (se_sizeVal s)), ucast (se_sizeVal s))"

definition setSize :: "u16 \<Rightarrow> u16 \<Rightarrow> 't session \<Rightarrow> 't session" where
  "setSize c r s = s\<lparr>se_sizeVal := push_bit 16 (ucast c) OR ucast r\<rparr>"

definition resize :: "'t emulator \<Rightarrow> termSize \<Rightarrow> 't session \<Rightarrow> 't session" where
  "resize em sz s =
     (let s = setSize (cols sz) (rows sz) s
      in s\<lparr>se_winsize := sz, se_term := em_resize em (ucast (cols sz)) (ucast (rows sz)) (se_term s)\<rparr>)"

definition collectClientSizes :: "(ref \<Rightarrow> clientState) \<Rightarrow> ref list \<Rightarrow> termSize list" where
  "collectClientSizes h refs = map (\<lambda>r. cl_size (h r)) (filter (\<lambda>r. \<not> cl_readOnly (h r)) refs)"

definition maxSize :: "termSize \<Rightarrow> termSize \<Rightarrow> termSize" where
  "maxSize a b = \<lparr>cols = max (cols a) (cols b), rows = max (rows a) (rows b),
     xpixel = max (xpixel a) (xpixel b), ypixel = max (ypixel a) (ypixel b)\<rparr>"

definition minSize :: "termSize \<Rightarrow> termSize \<Rightarrow> termSize" where
  "minSize a b = \<lparr>cols = min (cols a) (cols b), rows = min (rows a) (rows b),
     xpixel = min (xpixel a) (xpixel b), ypixel = min (ypixel a) (ypixel b)\<rparr>"

text \<open>\<open>sizes\<close> is never empty in a call; Go would panic on the index otherwise.\<close>

definition applyResizePolicy :: "string \<Rightarrow> termSize list \<Rightarrow> termSize" where
  "applyResizePolicy policy sizes =
     (if policy = ResizePolicyLargest
      then foldl maxSize \<lparr>cols = 0, rows = 0, xpixel = 0, ypixel = 0\<rparr> sizes
      else if policy = ResizePolicyLast then sizes ! (length sizes - 1)
      else if policy = ResizePolicyFirst then sizes ! 0
      else foldl minSize \<lparr>cols = 0xFFFF, rows = 0xFFFF, xpixel = 0xFFFF, ypixel = 0xFFFF\<rparr> sizes)"

definition resizeTo :: "'t emulator \<Rightarrow> termSize \<Rightarrow> 't session \<Rightarrow> 't session" where
  "resizeTo em target s =
     (let (curCols, curRows) = sessionSize s
      in if cols target \<noteq> curCols \<or> rows target \<noteq> curRows then resize em target s else s)"

definition arbitrateResize :: "'t emulator \<Rightarrow> 't session \<Rightarrow> 't session" where
  "arbitrateResize em s =
     (let sizes = collectClientSizes (se_heap s) (se_clients s)
      in if length sizes = 0 then s else resizeTo em (applyResizePolicy (se_policy s) sizes) s)"

definition resizeForPending :: "'t emulator \<Rightarrow> termSize \<Rightarrow> 't session \<Rightarrow> 't session" where
  "resizeForPending em sz s =
     (let sizes = collectClientSizes (se_heap s) (se_clients s) @ [sz]
      in resizeTo em (applyResizePolicy (se_policy s) sizes) s)"

section \<open>Channels and client lists\<close>

definition modClient :: "ref \<Rightarrow> (clientState \<Rightarrow> clientState) \<Rightarrow> 't session \<Rightarrow> 't session" where
  "modClient r f s = s\<lparr>se_heap := (se_heap s)(r := f (se_heap s r))\<rparr>"

definition chanClose :: "ref \<Rightarrow> 't session \<Rightarrow> 't session" where
  "chanClose r s =
     (if cl_outClosed (se_heap s r) then s\<lparr>se_panic := True\<rparr>
      else modClient r (\<lambda>c. c\<lparr>cl_outClosed := True\<rparr>) s)"

text \<open>The non-blocking send of a select with a default: was the message queued?\<close>

definition chanSend :: "ref \<Rightarrow> message \<Rightarrow> 't session \<Rightarrow> bool \<times> 't session" where
  "chanSend r m s =
     (if cl_outClosed (se_heap s r) then (True, s\<lparr>se_panic := True\<rparr>)
      else if length (cl_out (se_heap s r)) < sessionClientOutBufferSize
      then (True, modClient r (\<lambda>c. c\<lparr>cl_out := cl_out c @ [m]\<rparr>) s)
      else (False, s))"

definition removeClient :: "ref list \<Rightarrow> ref \<Rightarrow> ref list" where
  "removeClient refs target = remove1 target refs"

fun queueOutput :: "ref list \<Rightarrow> byte list \<Rightarrow> 't session \<Rightarrow> ref list \<times> 't session" where
  "queueOutput [] data s = ([], s)"
| "queueOutput (c # cs) data s =
     (if cl_writeDone (se_heap s c) then queueOutput cs data s
      else (case chanSend c (MOutput \<lparr>output_Data = data\<rparr>) s of
              (True, s) \<Rightarrow> queueOutput cs data s
            | (False, s) \<Rightarrow> (let (pending, s) = queueOutput cs data s in (c # pending, s))))"

text \<open>The loop of \<open>pruneFinishedClients\<close>: (kept, pending, changed) and the session.\<close>

fun pruneLoop :: "ref list \<Rightarrow> ref list \<Rightarrow> 't session \<Rightarrow> (ref list \<times> ref list \<times> bool) \<times> 't session" where
  "pruneLoop [] pending s = (([], pending, False), s)"
| "pruneLoop (c # cs) pending s =
     (if cl_writeDone (se_heap s c)
      then (let ((kept, pending, changed), s) = pruneLoop cs (removeClient pending c) (chanClose c s)
            in ((kept, pending, True), s))
      else (let ((kept, pending, changed), s) = pruneLoop cs pending s
            in ((c # kept, pending, changed), s)))"

fun notifyEach :: "ref list \<Rightarrow> message \<Rightarrow> 't session \<Rightarrow> 't session" where
  "notifyEach [] m s = s"
| "notifyEach (c # cs) m s = notifyEach cs m (snd (chanSend c m s))"

definition notifyClientsChanged :: "'t session \<Rightarrow> 't session" where
  "notifyClientsChanged s =
     (let (c, r) = sessionSize s;
          m = MClientsChanged \<lparr>clientsChanged_Count = of_nat (length (se_clients s)),
                clientsChanged_Cols = c, clientsChanged_Rows = r\<rparr>
      in notifyEach (se_clients s) m s)"

definition pruneFinishedClients :: "'t session \<Rightarrow> bool \<times> 't session" where
  "pruneFinishedClients s =
     (let ((kept, pending, changed), s) = pruneLoop (se_clients s) (se_pendingClients s) s
      in (changed, s\<lparr>se_clients := kept, se_pendingClients := pending\<rparr>))"

section \<open>The writer of a client\<close>

text \<open>
  One step of \<open>writeLoop\<close>: take the next message and write it (\<open>ok\<close> says whether the write
  succeeds), or, when the channel is closed and drained, write the final message and end. \<open>None\<close>:
  the writer has ended or waits for a message.
\<close>

definition writeLoopStep :: "ref \<Rightarrow> bool \<Rightarrow> 't session \<Rightarrow> 't session option" where
  "writeLoopStep r ok s =
     (let c = se_heap s r
      in if cl_writeDone c \<or> (ok \<and> cl_connClosed c) then None
         else case cl_out c of
           m # ms \<Rightarrow>
             Some ((modClient r (\<lambda>c. if ok then c\<lparr>cl_out := ms, cl_wire := cl_wire c @ [m]\<rparr>
                     else c\<lparr>cl_out := ms, cl_connClosed := True, cl_writeDone := True\<rparr>) s)\<lparr>se_ready := True\<rparr>)
         | [] \<Rightarrow>
             if \<not> cl_outClosed c then None
             else Some ((modClient r (\<lambda>c. case cl_final c of
                     None \<Rightarrow> c\<lparr>cl_writeDone := True\<rparr>
                   | Some m \<Rightarrow> if ok then c\<lparr>cl_wire := cl_wire c @ [m], cl_writeDone := True\<rparr>
                               else c\<lparr>cl_connClosed := True, cl_writeDone := True\<rparr>) s)\<lparr>se_ready := True\<rparr>))"

section \<open>Lemmas\<close>

lemma sessionSize_setSize [simp]: "sessionSize (setSize c r s) = (c, r)"
  unfolding sessionSize_def setSize_def
  by (simp, intro conjI; rule bit_word_eqI)
    (auto simp: bit_simps dest: bit_imp_le_length)

lemma sessionSize_resize [simp]: "sessionSize (resize em sz s) = (cols sz, rows sz)"
  using sessionSize_setSize [of "cols sz" "rows sz" s]
  by (simp add: resize_def Let_def sessionSize_def setSize_def)

lemma sessionSize_resizeTo: "sessionSize (resizeTo em sz s) = (cols sz, rows sz)"
  by (auto simp: resizeTo_def split: prod.splits)

subsection \<open>What one client sees\<close>

fun outputs :: "message list \<Rightarrow> byte list list" where
  "outputs [] = []"
| "outputs (MOutput m # ms) = output_Data m # outputs ms"
| "outputs (_ # ms) = outputs ms"

fun isOutput :: "message \<Rightarrow> bool" where
  "isOutput (MOutput m) = True"
| "isOutput _ = False"

fun isAttachedFor :: "string \<Rightarrow> message \<Rightarrow> bool" where
  "isAttachedFor cid (MAttached a) = (attached_ClientID a = cid)"
| "isAttachedFor cid _ = False"

definition pend :: "byte list option \<Rightarrow> byte list list" where
  "pend p = (case p of None \<Rightarrow> [] | Some d \<Rightarrow> [d])"

lemma pend_simps [simp]: "pend None = []" "pend (Some d) = [d]"
  by (simp_all add: pend_def)

text \<open>
  The invariant of one client: \<open>acc\<close> are the chunks accepted from the PTY so far, \<open>live\<close> says that
  the client is in the loop's list, \<open>p\<close> is the chunk still to be queued for it.
\<close>

definition clientID :: "ref \<Rightarrow> string" where
  "clientID r = string_of_nat (unat (of_nat (Suc r) :: u64))"

definition client_ok :: "byte list list \<Rightarrow> bool \<Rightarrow> byte list option \<Rightarrow> ref \<Rightarrow> clientState \<Rightarrow> bool" where
  "client_ok acc live p r c \<longleftrightarrow>
     cl_base c \<le> length acc \<and> cl_id c = clientID r
     \<and> length (cl_out c) \<le> sessionClientOutBufferSize
     \<and> prefix (outputs (cl_wire c)) (drop (cl_base c) acc)
     \<and> (cl_wire c \<noteq> [] \<longrightarrow> isAttachedFor (cl_id c) (hd (cl_wire c)))
     \<and> (cl_final c = None \<or> \<not> live) \<and> (\<forall>m. cl_final c = Some m \<longrightarrow> \<not> isOutput m)
     \<and> (cl_writeDone c \<and> \<not> cl_outClosed c \<longrightarrow> cl_connClosed c)
     \<and> (\<not> cl_writeDone c \<longrightarrow>
          prefix (outputs (cl_wire c @ cl_out c)) (drop (cl_base c) acc)
          \<and> (cl_wire c @ cl_out c \<noteq> [] \<and> isAttachedFor (cl_id c) (hd (cl_wire c @ cl_out c))))
     \<and> (live \<longrightarrow> \<not> cl_outClosed c
          \<and> (\<not> cl_writeDone c \<longrightarrow> outputs (cl_wire c @ cl_out c) @ pend p = drop (cl_base c) acc))"

lemma outputs_append [simp]: "outputs (a @ b) = outputs a @ outputs b"
  by (induction a rule: outputs.induct) auto

lemma outputs_not_output [simp]: "\<not> isOutput m \<Longrightarrow> outputs [m] = []"
  by (cases m) auto

lemma client_ok_quiet:
  "client_ok acc live p r c \<Longrightarrow> \<not> isOutput m \<Longrightarrow> length (cl_out c) < sessionClientOutBufferSize \<Longrightarrow>
     client_ok acc live p r (c\<lparr>cl_out := cl_out c @ [m]\<rparr>)"
  unfolding client_ok_def by (auto simp: hd_append)

lemma client_ok_queued:
  "client_ok acc True (Some d) r c \<Longrightarrow> \<not> cl_writeDone c \<Longrightarrow> length (cl_out c) < sessionClientOutBufferSize \<Longrightarrow>
     client_ok acc True None r (c\<lparr>cl_out := cl_out c @ [MOutput \<lparr>output_Data = d\<rparr>]\<rparr>)"
  unfolding client_ok_def by (auto simp: hd_append)

lemma client_ok_finished:
  "client_ok acc live p r c \<Longrightarrow> cl_writeDone c \<Longrightarrow> client_ok acc live p' r c"
  unfolding client_ok_def by auto

lemma client_ok_accept:
  "client_ok acc live None r c \<Longrightarrow> client_ok (acc @ [d]) live (Some d) r c"
  unfolding client_ok_def by (auto intro: prefix_prefix)

lemma client_ok_unlist: "client_ok acc live p r c \<Longrightarrow> client_ok acc False p' r c"
  unfolding client_ok_def by auto

lemma client_ok_close: "client_ok acc live p r c \<Longrightarrow> client_ok acc False p' r (c\<lparr>cl_outClosed := True\<rparr>)"
  unfolding client_ok_def by auto

lemma client_ok_accept_unlisted: "client_ok acc False p r c \<Longrightarrow> client_ok (acc @ d) False p r c"
  unfolding client_ok_def by (auto intro: prefix_prefix)

lemma client_ok_size: "client_ok acc live p r c \<Longrightarrow> client_ok acc live p r (c\<lparr>cl_size := sz\<rparr>)"
  unfolding client_ok_def by auto

lemma client_ok_written:
  "client_ok acc live p r c \<Longrightarrow> \<not> cl_writeDone c \<Longrightarrow> cl_out c = m # ms \<Longrightarrow>
     client_ok acc live p r (c\<lparr>cl_out := ms, cl_wire := cl_wire c @ [m]\<rparr>)"
proof -
  assume h: "client_ok acc live p r c" "\<not> cl_writeDone c" "cl_out c = m # ms"
  have o: "outputs (m # ms) = outputs [m] @ outputs ms" using outputs_append [of "[m]" ms] by simp
  have "prefix (outputs (cl_wire c) @ outputs [m]) (drop (cl_base c) acc)"
    using h unfolding client_ok_def by (auto simp: o intro: append_prefixD)
  with h show ?thesis unfolding client_ok_def by (auto simp: o hd_append)
qed

lemma client_ok_write_failed:
  "client_ok acc live p r c \<Longrightarrow> \<not> cl_writeDone c \<Longrightarrow> cl_out c = m # ms \<Longrightarrow>
     client_ok acc live p r (c\<lparr>cl_out := ms, cl_connClosed := True, cl_writeDone := True\<rparr>)"
  unfolding client_ok_def by auto

lemma client_ok_conn: "client_ok acc live p r c \<Longrightarrow> client_ok acc live p r (c\<lparr>cl_connClosed := True\<rparr>)"
  unfolding client_ok_def by auto

lemma client_ok_final:
  "client_ok acc False p r c \<Longrightarrow> \<not> isOutput m \<Longrightarrow> client_ok acc False p r (c\<lparr>cl_final := Some m\<rparr>)"
  unfolding client_ok_def by auto

lemma client_ok_ended:
  assumes "client_ok acc live p r c" and "\<not> cl_writeDone c" and "cl_out c = []" and "cl_outClosed c"
  shows "cl_final c = None \<Longrightarrow> client_ok acc live p r (c\<lparr>cl_writeDone := True\<rparr>)"
    and "cl_final c = Some m \<Longrightarrow> client_ok acc live p r (c\<lparr>cl_wire := cl_wire c @ [m], cl_writeDone := True\<rparr>)"
    and "client_ok acc live p r (c\<lparr>cl_connClosed := True, cl_writeDone := True\<rparr>)"
  using assms unfolding client_ok_def by (auto simp: hd_append)

end
