(* ===== verification/Session_Loop.thy ===== *)
theory Session_Loop
  imports Session_Clients
begin

text \<open>
  The run loop of a session (\<open>Session.run\<close> in \<open>internal/daemon/session_lifecycle.go\<close>) as a state
  machine. An iteration is two atomic parts: what is done before the select (\<open>EvTop\<close>) and one
  branch of the select. Between them the other goroutines move: the client writers
  (\<open>EvWriter\<close>), \<open>feedLoop\<close> (\<open>EvFeedApply\<close>). \<open>exec\<close> is executable and returns \<open>None\<close> for an event
  that cannot happen in the state; \<open>reachable\<close> closes a start state under it.
\<close>

record sessionAttachSpec =
  as_size :: termSize
  as_version :: string
  as_readOnly :: bool
  as_created :: bool

datatype sessionAction =
    AttachReq sessionAttachSpec
  | DetachReq ref
  | ResizeReq ref termSize
  | KickReq string
  | ClientInfoReq
  | StopReq

text \<open>What is sent on the request's result channel.\<close>

datatype actionReply =
    NoReply
  | AttachResp "ref result"
  | KickResp bool
  | InfoResp "sessionClient list"

definition feedChSize :: nat where "feedChSize = 64"

text \<open>\<open>startSession\<close>: the state the goroutines start from.\<close>

definition startSession :: "string \<Rightarrow> u32 \<Rightarrow> string \<Rightarrow> termSize \<Rightarrow> 't \<Rightarrow> (ref \<Rightarrow> clientState) \<Rightarrow> 't session" where
  "startSession name pid policy sz term heap = setSize (cols sz) (rows sz)
     \<lparr>se_Name = name, se_PID = pid, se_policy = policy, se_sizeVal = 0, se_winsize = sz,
      se_term = term, se_feedCh = [], se_heap = heap, se_refs = 0, se_nextClientID = 0, se_clients = [],
      se_pendingFeed = None, se_pendingOutput = None, se_pendingClients = [], se_ready = False,
      se_atSelect = False, se_done = False, se_exited = False, se_exitCode = 0, se_panic = False,
      se_accepted = [], se_fed = []\<rparr>"

section \<open>The parts of an iteration\<close>

definition settle :: "'t session \<Rightarrow> 't session" where
  "settle s = (if length (se_pendingClients s) = 0 then s\<lparr>se_pendingOutput := None\<rparr> else s)"

definition pruneAndNotify :: "'t session \<Rightarrow> 't session" where
  "pruneAndNotify s =
     (let (clientsChanged, s) = pruneFinishedClients s
      in settle (if clientsChanged then notifyClientsChanged s else s))"

definition flushPending :: "'t session \<Rightarrow> 't session" where
  "flushPending s =
     (case se_pendingOutput s of
        None \<Rightarrow> s
      | Some d \<Rightarrow> (let (p, s) = queueOutput (se_pendingClients s) d s
                   in settle (s\<lparr>se_pendingClients := p\<rparr>)))"

definition loopTop :: "'t session \<Rightarrow> 't session" where
  "loopTop s = (flushPending (pruneAndNotify s))\<lparr>se_atSelect := True\<rparr>"

definition ptyBranch :: "byte list \<Rightarrow> 't session \<Rightarrow> 't session" where
  "ptyBranch data s =
     (let s = s\<lparr>se_accepted := se_accepted s @ [data]\<rparr>;
          (p, s) = queueOutput (se_clients s) data s
      in s\<lparr>se_pendingClients := p,
           se_pendingOutput := (if length p > 0 then Some data else se_pendingOutput s),
           se_pendingFeed := Some data\<rparr>)"

text \<open>Handing the pending chunk to \<open>feedLoop\<close> and waiting until the last accepted one is applied.\<close>

definition drainFeed :: "'t emulator \<Rightarrow> 't session \<Rightarrow> 't session" where
  "drainFeed em s =
     (let q = se_feedCh s @ pend (se_pendingFeed s)
      in s\<lparr>se_term := fold (em_feed em) q (se_term s), se_fed := se_fed s @ q,
           se_feedCh := [], se_pendingFeed := None\<rparr>)"

fun finishEach :: "(clientState \<Rightarrow> clientState) \<Rightarrow> ref list \<Rightarrow> 't session \<Rightarrow> 't session" where
  "finishEach f [] s = s"
| "finishEach f (c # cs) s = finishEach f cs (modClient c f (chanClose c s))"

definition ptyClosedBranch :: "'t emulator \<Rightarrow> u32 \<Rightarrow> 't session \<Rightarrow> 't session" where
  "ptyClosedBranch em code s =
     (let s = drainFeed em s;
          exitMsg = MExited \<lparr>exited_ExitCode = code\<rparr>;
          s = finishEach (\<lambda>c. c\<lparr>cl_final := Some exitMsg\<rparr>) (se_clients s) s
      in s\<lparr>se_exitCode := code, se_exited := True, se_done := True\<rparr>)"

definition attachAction :: "'t emulator \<Rightarrow> sessionAttachSpec \<Rightarrow> 't session \<Rightarrow> actionReply \<times> 't session" where
  "attachAction em spec s =
     (let s = (if as_readOnly spec then s else resizeForPending em (as_size spec) s);
          s = drainFeed em s
      in case em_dump em (se_term s) of
           Inl e \<Rightarrow> (AttachResp (Inl e), s)
         | Inr dump \<Rightarrow>
             let cid = se_nextClientID s + 1;
                 (c, r) = sessionSize s;
                 sc = se_refs s;
                 client = \<lparr>cl_id = string_of_nat (unat cid), cl_size = as_size spec,
                   cl_version = as_version spec, cl_readOnly = as_readOnly spec, cl_out = [],
                   cl_outClosed = False, cl_writeDone = False, cl_final = None, cl_connClosed = False,
                   cl_wire = [], cl_base = length (se_fed s)\<rparr>;
                 s = s\<lparr>se_nextClientID := cid, se_refs := Suc sc, se_heap := (se_heap s)(sc := client)\<rparr>;
                 s = snd (chanSend sc (MAttached \<lparr>attached_Name = se_Name s, attached_PID = se_PID s,
                       attached_ClientID = string_of_nat (unat cid), attached_Cols = c, attached_Rows = r,
                       attached_ScreenDump = dump_Data dump, attached_CursorRow = dump_CursorRow dump,
                       attached_CursorCol = dump_CursorCol dump, attached_AltScreen = dump_IsAltScreen dump,
                       attached_Created = as_created spec\<rparr>) s);
                 s = s\<lparr>se_clients := se_clients s @ [sc]\<rparr>;
                 s = (if as_readOnly spec then s else arbitrateResize em s)
             in (AttachResp (Inr sc), notifyClientsChanged s))"

definition dropClient :: "ref \<Rightarrow> 't session \<Rightarrow> 't session" where
  "dropClient r s = settle (s\<lparr>se_clients := removeClient (se_clients s) r,
     se_pendingClients := removeClient (se_pendingClients s) r\<rparr>)"

definition detachAction :: "'t emulator \<Rightarrow> ref \<Rightarrow> 't session \<Rightarrow> actionReply \<times> 't session" where
  "detachAction em r s =
     (if length (removeClient (se_clients s) r) = length (se_clients s) then (NoReply, s)
      else (NoReply, notifyClientsChanged (arbitrateResize em (chanClose r (dropClient r s)))))"

definition kickAction :: "'t emulator \<Rightarrow> string \<Rightarrow> 't session \<Rightarrow> actionReply \<times> 't session" where
  "kickAction em cid s =
     (case find (\<lambda>r. cl_id (se_heap s r) = cid) (se_clients s) of
        None \<Rightarrow> (KickResp False, s)
      | Some target \<Rightarrow>
          let s = chanClose target (dropClient target s);
              s = modClient target (\<lambda>c. c\<lparr>cl_connClosed := True\<rparr>) s
          in (KickResp True, notifyClientsChanged (arbitrateResize em s)))"

definition resizeAction :: "'t emulator \<Rightarrow> ref \<Rightarrow> termSize \<Rightarrow> 't session \<Rightarrow> actionReply \<times> 't session" where
  "resizeAction em r sz s = (NoReply, arbitrateResize em (modClient r (\<lambda>c. c\<lparr>cl_size := sz\<rparr>) s))"

definition clientInfoAction :: "'t session \<Rightarrow> actionReply \<times> 't session" where
  "clientInfoAction s =
     (InfoResp (map (\<lambda>r. \<lparr>sc_ClientID = cl_id (se_heap s r), sc_ReadOnly = cl_readOnly (se_heap s r),
        sc_Version = cl_version (se_heap s r)\<rparr>) (se_clients s)), s)"

definition stopAction :: "'t emulator \<Rightarrow> 't session \<Rightarrow> actionReply \<times> 't session" where
  "stopAction em s =
     (let s = drainFeed em (s\<lparr>se_pendingFeed := None\<rparr>);
          s = finishEach (\<lambda>c. c\<lparr>cl_connClosed := True\<rparr>) (se_clients s) s
      in (NoReply, s\<lparr>se_done := True\<rparr>))"

definition handleAction :: "'t emulator \<Rightarrow> sessionAction \<Rightarrow> 't session \<Rightarrow> actionReply \<times> 't session" where
  "handleAction em a s =
     (let s = pruneAndNotify s
      in case a of
           AttachReq spec \<Rightarrow> attachAction em spec s
         | DetachReq r \<Rightarrow> detachAction em r s
         | KickReq cid \<Rightarrow> kickAction em cid s
         | ResizeReq r sz \<Rightarrow> resizeAction em r sz s
         | ClientInfoReq \<Rightarrow> clientInfoAction s
         | StopReq \<Rightarrow> stopAction em s)"

section \<open>The state machine\<close>

datatype sessionEvent =
    EvTop
  | EvPty "byte list"
  | EvPtyClosed u32
  | EvFeedSend
  | EvReady
  | EvAction sessionAction
  | EvFeedApply
  | EvWriter ref bool

fun validRefs :: "sessionAction \<Rightarrow> nat \<Rightarrow> bool" where
  "validRefs (DetachReq r) n = (r < n)"
| "validRefs (ResizeReq r sz) n = (r < n)"
| "validRefs _ n = True"

text \<open>The PTY channel is read only while nothing is held back.\<close>

definition ptyEnabled :: "'t session \<Rightarrow> bool" where
  "ptyEnabled s \<longleftrightarrow> se_atSelect s \<and> \<not> se_done s \<and> se_pendingFeed s = None \<and> se_pendingOutput s = None"

fun exec :: "'t emulator \<Rightarrow> sessionEvent \<Rightarrow> 't session \<Rightarrow> 't session option" where
  "exec em EvTop s = (if se_atSelect s \<or> se_done s then None else Some (loopTop s))"
| "exec em (EvPty data) s =
     (if ptyEnabled s then Some ((ptyBranch data s)\<lparr>se_atSelect := False\<rparr>) else None)"
| "exec em (EvPtyClosed code) s =
     (if ptyEnabled s then Some ((ptyClosedBranch em code s)\<lparr>se_atSelect := False\<rparr>) else None)"
| "exec em EvFeedSend s =
     (case se_pendingFeed s of
        Some d \<Rightarrow> if se_atSelect s \<and> \<not> se_done s \<and> length (se_feedCh s) < feedChSize
                  then Some (s\<lparr>se_feedCh := se_feedCh s @ [d], se_pendingFeed := None, se_atSelect := False\<rparr>)
                  else None
      | None \<Rightarrow> None)"
| "exec em EvReady s =
     (if se_atSelect s \<and> \<not> se_done s \<and> se_pendingOutput s \<noteq> None \<and> se_ready s
      then Some (s\<lparr>se_ready := False, se_atSelect := False\<rparr>) else None)"
| "exec em (EvAction a) s =
     (if se_atSelect s \<and> \<not> se_done s \<and> validRefs a (se_refs s)
      then Some ((snd (handleAction em a s))\<lparr>se_atSelect := False\<rparr>) else None)"
| "exec em EvFeedApply s =
     (case se_feedCh s of
        d # q \<Rightarrow> Some (s\<lparr>se_feedCh := q, se_term := em_feed em d (se_term s), se_fed := se_fed s @ [d]\<rparr>)
      | [] \<Rightarrow> None)"
| "exec em (EvWriter r ok) s = (if r < se_refs s then writeLoopStep r ok s else None)"

inductive reachable :: "'t emulator \<Rightarrow> 't session \<Rightarrow> 't session \<Rightarrow> bool" for em s0 where
  reachable_start: "reachable em s0 s0"
| reachable_step: "reachable em s0 s \<Longrightarrow> exec em ev s = Some s' \<Longrightarrow> reachable em s0 s'"

text \<open>A run of a list of events, for concrete scenarios.\<close>

fun execAll :: "'t emulator \<Rightarrow> sessionEvent list \<Rightarrow> 't session \<Rightarrow> 't session option" where
  "execAll em [] s = Some s"
| "execAll em (ev # evs) s = (case exec em ev s of None \<Rightarrow> None | Some s' \<Rightarrow> execAll em evs s')"

lemma execAll_reachable: "execAll em evs s = Some s' \<Longrightarrow> reachable em s0 s \<Longrightarrow> reachable em s0 s'"
  by (induction evs arbitrary: s) (auto split: option.splits intro: reachable_step)

end
