(* ===== verification/Session_Inv.thy ===== *)
theory Session_Inv
  imports Session_Loop
begin

text \<open>
  The invariant of the run loop and its preservation by every event. \<open>core cl pn s\<close> is the
  invariant with the client and pending lists as parameters, so that the loops over these lists
  are handled by induction; \<open>session_ok\<close> instantiates it with the session's own lists.
\<close>

definition core :: "ref list \<Rightarrow> ref list \<Rightarrow> 't session \<Rightarrow> bool" where
  "core cl pn s \<longleftrightarrow>
     \<not> se_panic s \<and> distinct cl \<and> set cl \<subseteq> {..<se_refs s} \<and> distinct pn \<and> set pn \<subseteq> set cl
     \<and> se_nextClientID s = of_nat (se_refs s)
     \<and> (se_pendingOutput s = None \<longrightarrow> pn = [])
     \<and> (\<not> se_done s \<longrightarrow> se_fed s @ se_feedCh s @ pend (se_pendingFeed s) = se_accepted s)
     \<and> (\<forall>r < se_refs s. client_ok (se_accepted s) (r \<in> set cl \<and> \<not> se_done s)
          (if r \<in> set pn then se_pendingOutput s else None) r (se_heap s r))"

text \<open>After the PTY ended every client that was attached gets the rest of the output and the exit code.\<close>

definition exit_ok :: "byte list list \<Rightarrow> u32 \<Rightarrow> clientState \<Rightarrow> bool" where
  "exit_ok acc code c \<longleftrightarrow> cl_outClosed c
     \<and> (\<not> cl_writeDone c \<longrightarrow> cl_final c = Some (MExited \<lparr>exited_ExitCode = code\<rparr>)
          \<and> outputs (cl_wire c @ cl_out c) = drop (cl_base c) acc)
     \<and> (cl_writeDone c \<and> \<not> cl_connClosed c \<longrightarrow>
          (\<exists>w. cl_wire c = w @ [MExited \<lparr>exited_ExitCode = code\<rparr>] \<and> outputs w = drop (cl_base c) acc))"

definition session_ok :: "'t session \<Rightarrow> bool" where
  "session_ok s \<longleftrightarrow> core (se_clients s) (se_pendingClients s) s
     \<and> (se_pendingClients s = [] \<longrightarrow> se_pendingOutput s = None)
     \<and> (se_exited s \<longrightarrow> se_done s \<and> (\<forall>r \<in> set (se_clients s). exit_ok (se_accepted s) (se_exitCode s) (se_heap s r)))"

text \<open>A client that waits for room, unless a wake-up is under way.\<close>

definition no_lost_wakeup :: "'t session \<Rightarrow> bool" where
  "no_lost_wakeup s \<longleftrightarrow> (se_atSelect s \<longrightarrow> se_ready s \<or>
     (\<forall>r \<in> set (se_pendingClients s). \<not> cl_writeDone (se_heap s r)
        \<and> length (cl_out (se_heap s r)) = sessionClientOutBufferSize))"

text \<open>Only the heap differs.\<close>

definition heap_frame :: "'t session \<Rightarrow> 't session \<Rightarrow> bool" where
  "heap_frame s s' \<longleftrightarrow> (\<exists>h. s' = s\<lparr>se_heap := h\<rparr>)"

lemma heap_frame_refl [simp]: "heap_frame s s"
  unfolding heap_frame_def by (metis session.surjective session.update_convs(8))

lemma heap_frame_trans: "heap_frame s t \<Longrightarrow> heap_frame t u \<Longrightarrow> heap_frame s u"
  unfolding heap_frame_def by force

lemma heap_frame_modClient [simp]: "heap_frame s (modClient r f s)"
  by (auto simp: heap_frame_def modClient_def)

lemma heap_frameD:
  assumes "heap_frame s s'"
  shows "se_refs s' = se_refs s" "se_clients s' = se_clients s" "se_pendingClients s' = se_pendingClients s"
    "se_pendingOutput s' = se_pendingOutput s" "se_pendingFeed s' = se_pendingFeed s" "se_done s' = se_done s"
    "se_exited s' = se_exited s" "se_exitCode s' = se_exitCode s" "se_panic s' = se_panic s"
    "se_accepted s' = se_accepted s" "se_fed s' = se_fed s" "se_feedCh s' = se_feedCh s"
    "se_nextClientID s' = se_nextClientID s" "se_atSelect s' = se_atSelect s" "se_ready s' = se_ready s"
    "se_sizeVal s' = se_sizeVal s" "se_policy s' = se_policy s" "se_Name s' = se_Name s" "se_PID s' = se_PID s"
    "se_term s' = se_term s" "se_winsize s' = se_winsize s"
  using assms unfolding heap_frame_def by auto

section \<open>Channels\<close>

lemma core_client: "core cl pn s \<Longrightarrow> r < se_refs s \<Longrightarrow>
    client_ok (se_accepted s) (r \<in> set cl \<and> \<not> se_done s) (if r \<in> set pn then se_pendingOutput s else None) r (se_heap s r)"
  by (simp add: core_def)

lemma core_live:
  assumes "core cl pn s" and "r \<in> set cl" and "\<not> se_done s"
  shows "client_ok (se_accepted s) True (if r \<in> set pn then se_pendingOutput s else None) r (se_heap s r)"
    and "\<not> cl_outClosed (se_heap s r)" and "r < se_refs s"
proof -
  from assms show r: "r < se_refs s" by (auto simp: core_def)
  from core_client [OF assms(1) r] assms
  show c: "client_ok (se_accepted s) True (if r \<in> set pn then se_pendingOutput s else None) r (se_heap s r)" by simp
  then show "\<not> cl_outClosed (se_heap s r)" by (auto simp: client_ok_def)
qed

lemma coreD:
  assumes "core cl pn s"
  shows "\<not> se_panic s" and "distinct cl" and "set pn \<subseteq> set cl" and "se_pendingOutput s = None \<Longrightarrow> pn = []"
    and "\<not> se_done s \<Longrightarrow> se_fed s @ se_feedCh s @ pend (se_pendingFeed s) = se_accepted s"
  using assms unfolding core_def by blast+

text \<open>Changing one client is all that has to be checked of a heap update.\<close>

lemma core_modClient:
  assumes "core cl pn s"
    and "r < se_refs s \<Longrightarrow> client_ok (se_accepted s) (r \<in> set cl \<and> \<not> se_done s)
      (if r \<in> set pn then se_pendingOutput s else None) r (f (se_heap s r))"
  shows "core cl pn (modClient r f s)"
  using assms by (auto simp: core_def modClient_def)

lemma heap_modClient [simp]: "se_heap (modClient r f s) q = (if q = r then f (se_heap s r) else se_heap s q)"
  by (simp add: modClient_def)

lemma chanSend_quiet:
  assumes "core cl pn s" and "r \<in> set cl" and "\<not> se_done s" and "\<not> isOutput m" and "chanSend r m s = (b, s')"
  shows "core cl pn s' \<and> heap_frame s s'"
proof -
  note live = core_live [OF assms(1-3)]
  have "core cl pn (modClient r (\<lambda>c. c\<lparr>cl_out := cl_out c @ [m]\<rparr>) s)"
    if "length (cl_out (se_heap s r)) < sessionClientOutBufferSize"
    using client_ok_quiet [OF live(1) assms(4) that] assms(2,3)
    by (intro core_modClient [OF assms(1)]) simp
  with assms(1,5) live(2) show ?thesis by (auto simp: chanSend_def split: if_splits)
qed

lemma notifyEach_ok:
  "core cl pn s \<Longrightarrow> set cs \<subseteq> set cl \<Longrightarrow> \<not> se_done s \<Longrightarrow> \<not> isOutput m \<Longrightarrow>
     core cl pn (notifyEach cs m s) \<and> heap_frame s (notifyEach cs m s)"
proof (induction cs arbitrary: s)
  case (Cons c cs)
  obtain b s1 where s1: "chanSend c m s = (b, s1)" by fastforce
  from chanSend_quiet [OF Cons.prems(1) _ Cons.prems(3,4) s1] Cons.prems(2)
  have h: "core cl pn s1" "heap_frame s s1" by auto
  with Cons.IH [of s1] Cons.prems heap_frameD [OF h(2)] s1 show ?case
    by (auto intro: heap_frame_trans)
qed simp

lemma notifyClientsChanged_ok:
  assumes "core cl pn s" and "set (se_clients s) \<subseteq> set cl" and "\<not> se_done s"
  shows "core cl pn (notifyClientsChanged s) \<and> heap_frame s (notifyClientsChanged s)"
  using notifyEach_ok [OF assms] by (simp add: notifyClientsChanged_def Let_def split: prod.splits)

lemma core_shrink:
  assumes "core cl (pre @ c # cs) s" and "cl_writeDone (se_heap s c)"
  shows "core cl (pre @ cs) s"
proof -
  have "client_ok (se_accepted s) (r \<in> set cl \<and> \<not> se_done s)
      (if r \<in> set (pre @ cs) then se_pendingOutput s else None) r (se_heap s r)" if "r < se_refs s" for r
    using core_client [OF assms(1) that] client_ok_finished assms(2) by (cases "r = c") auto
  with assms(1) show ?thesis by (auto simp: core_def)
qed

lemma queueOutput_ok:
  assumes "core cl (pre @ cs) s" and "se_pendingOutput s = Some d" and "\<not> se_done s"
    and "queueOutput cs d s = (p, s')"
  shows "core cl (pre @ p) s' \<and> heap_frame s s' \<and> set p \<subseteq> set cs
    \<and> (\<forall>r. r \<notin> set cs \<longrightarrow> se_heap s' r = se_heap s r)
    \<and> (\<forall>r \<in> set p. \<not> cl_writeDone (se_heap s' r) \<and> length (cl_out (se_heap s' r)) = sessionClientOutBufferSize)"
  using assms
proof (induction cs arbitrary: pre s p)
  case Nil
  then show ?case by simp
next
  case (Cons c cs)
  let ?m = "MOutput \<lparr>output_Data = d\<rparr>"
  have c: "c \<in> set cl" "c \<notin> set pre" "c \<notin> set cs" using Cons.prems(1) by (auto simp: core_def)
  note live = core_live [OF Cons.prems(1) c(1) Cons.prems(3)]
  show ?case
  proof (cases "cl_writeDone (se_heap s c)")
    case True
    with Cons.IH [OF core_shrink [OF Cons.prems(1) True] Cons.prems(2,3)] Cons.prems(4) show ?thesis by auto
  next
    case opn: False
    show ?thesis
    proof (cases "length (cl_out (se_heap s c)) < sessionClientOutBufferSize")
      case True
      let ?s1 = "modClient c (\<lambda>k. k\<lparr>cl_out := cl_out k @ [?m]\<rparr>) s"
      have q: "client_ok (se_accepted s) True None c ((se_heap s c)\<lparr>cl_out := cl_out (se_heap s c) @ [?m]\<rparr>)"
        using client_ok_queued [OF _ opn True] live(1) Cons.prems(2) by simp
      have "core cl (pre @ cs) ?s1"
        using Cons.prems(1,3) q c by (auto simp: core_def modClient_def)
      from Cons.IH [OF this] Cons.prems(2-4) opn True live(2) c show ?thesis
        by (auto simp: chanSend_def modClient_def heap_frame_def)
    next
      case False
      obtain p1 s1 where r: "queueOutput cs d s = (p1, s1)" by fastforce
      with Cons.prems(4) opn False live(2) have p: "p = c # p1" "s' = s1" by (auto simp: chanSend_def)
      have full: "length (cl_out (se_heap s c)) = sessionClientOutBufferSize"
        using False live(1) by (auto simp: client_ok_def)
      from r p have "queueOutput cs d s = (p1, s')" by simp
      from Cons.IH [of "pre @ [c]", OF _ Cons.prems(2,3) this] Cons.prems(1) p opn full c
      show ?thesis by auto
    qed
  qed
qed

text \<open>Shrinking the lists: every client has to be checked against its new place.\<close>

lemma core_update:
  assumes "core cl pn s" and "heap_frame s s'" and "distinct cl'" and "set cl' \<subseteq> set cl"
    and "distinct pn'" and "set pn' \<subseteq> set cl'" and "set pn' \<subseteq> set pn"
    and "\<And>r. r < se_refs s \<Longrightarrow> client_ok (se_accepted s) (r \<in> set cl' \<and> \<not> se_done s)
      (if r \<in> set pn' then se_pendingOutput s else None) r (se_heap s' r)"
  shows "core cl' pn' s'"
proof -
  note f = heap_frameD [OF assms(2)]
  have "se_pendingOutput s = None \<longrightarrow> pn' = []" using assms(1,7) by (auto simp: core_def)
  moreover have "set cl' \<subseteq> {..<se_refs s}" using assms(1,4) by (auto simp: core_def)
  ultimately show ?thesis
    unfolding core_def f using assms(1) unfolding core_def
    by (intro conjI allI impI assms(3,5,6,8)) simp_all
qed

lemma core_drop:
  assumes "core cl pn s" and "c \<in> set cl" and "\<not> se_done s"
  shows "core (remove1 c cl) (remove1 c pn) (chanClose c s) \<and> heap_frame s (chanClose c s)"
proof -
  note live = core_live [OF assms]
  have close: "chanClose c s = modClient c (\<lambda>k. k\<lparr>cl_outClosed := True\<rparr>) s"
    using live(2) by (simp add: chanClose_def)
  have d: "distinct cl" "distinct pn" "set pn \<subseteq> set cl" using assms(1) by (auto simp: core_def)
  have "client_ok (se_accepted s) (r \<in> set (remove1 c cl) \<and> \<not> se_done s)
      (if r \<in> set (remove1 c pn) then se_pendingOutput s else None) r (se_heap (chanClose c s) r)"
    if "r < se_refs s" for r
    using core_client [OF assms(1) that] client_ok_close [OF live(1)] d by (auto simp: close)
  with d have "core (remove1 c cl) (remove1 c pn) (chanClose c s)"
    by (intro core_update [OF assms(1)]) (auto simp: close)
  then show ?thesis by (simp add: close)
qed

lemma pruneLoop_ok:
  assumes "core (acc @ cs) pn s" and "\<not> se_done s" and "pruneLoop cs pn s = ((kept, pn', ch), s')"
  shows "core (acc @ kept) pn' s' \<and> heap_frame s s' \<and> set pn' \<subseteq> set pn
    \<and> (\<forall>r \<in> set kept. se_heap s' r = se_heap s r \<and> \<not> cl_writeDone (se_heap s r)) \<and> set kept \<subseteq> set cs
    \<and> (\<forall>r. r \<notin> set cs \<longrightarrow> se_heap s' r = se_heap s r)"
  using assms
proof (induction cs arbitrary: acc pn s kept pn' ch s')
  case Nil
  then show ?case by simp
next
  case (Cons c cs)
  have c: "c \<notin> set acc" "c \<notin> set cs" using Cons.prems(1) by (auto simp: core_def)
  show ?case
  proof (cases "cl_writeDone (se_heap s c)")
    case True
    let ?s1 = "chanClose c s"
    obtain k p h s2 where r: "pruneLoop cs (removeClient pn c) ?s1 = ((k, p, h), s2)" by (metis prod_cases3 surj_pair)
    with Cons.prems(3) True have eq: "k = kept" "p = pn'" "s2 = s'" by auto
    from core_drop [OF Cons.prems(1) _ Cons.prems(2), of c] c
    have d: "core (acc @ cs) (removeClient pn c) ?s1" "heap_frame s ?s1"
      by (auto simp: removeClient_def remove1_append)
    have nd: "\<not> se_done ?s1" using heap_frameD [OF d(2)] Cons.prems(2) by simp
    have h1: "se_heap ?s1 r = se_heap s r" if "r \<noteq> c" for r
      using that by (simp add: chanClose_def)
    note ih = Cons.IH [OF d(1) nd r [unfolded eq]]
    have "set pn' \<subseteq> set pn"
      using ih set_remove1_subset [of c pn] by (auto simp: removeClient_def)
    moreover have "heap_frame s s'" using ih d(2) heap_frame_trans by blast
    moreover have "\<forall>r \<in> set kept. se_heap ?s1 r = se_heap s r" using ih h1 c(2) by (metis subsetD)
    moreover have "\<forall>r. r \<notin> set (c # cs) \<longrightarrow> se_heap ?s1 r = se_heap s r" using h1 by simp
    ultimately show ?thesis using ih by (auto simp del: set_simps) (auto)
  next
    case False
    obtain k p h s2 where r: "pruneLoop cs pn s = ((k, p, h), s2)" by (metis prod_cases3 surj_pair)
    with Cons.prems(3) False have eq: "kept = c # k" "p = pn'" "s2 = s'" by auto
    from Cons.IH [of "acc @ [c]", OF _ Cons.prems(2) r] Cons.prems(1) c eq False show ?thesis by auto
  qed
qed

section \<open>The parts of an iteration\<close>

lemma core_frame: "core cl pn s \<Longrightarrow> se_refs t = se_refs s \<Longrightarrow> se_panic t = se_panic s \<Longrightarrow>
    se_nextClientID t = se_nextClientID s \<Longrightarrow> se_pendingOutput t = se_pendingOutput s \<Longrightarrow> se_done t = se_done s \<Longrightarrow>
    se_fed t @ se_feedCh t @ pend (se_pendingFeed t) = se_fed s @ se_feedCh s @ pend (se_pendingFeed s) \<Longrightarrow>
    se_accepted t = se_accepted s \<Longrightarrow> se_heap t = se_heap s \<Longrightarrow> core cl pn t"
  by (simp add: core_def cong: if_cong split del: if_split)

lemma settle_ok:
  "core (se_clients s) (se_pendingClients s) s \<Longrightarrow>
     core (se_clients (settle s)) (se_pendingClients (settle s)) (settle s)
     \<and> (se_pendingClients (settle s) = [] \<longrightarrow> se_pendingOutput (settle s) = None)"
  by (auto simp: settle_def core_def)

lemma settle_fields [simp]:
  "se_heap (settle s) = se_heap s" "se_done (settle s) = se_done s" "se_clients (settle s) = se_clients s"
  "se_refs (settle s) = se_refs s" "se_exited (settle s) = se_exited s" "se_pendingClients (settle s) = se_pendingClients s"
  "se_accepted (settle s) = se_accepted s" "se_sizeVal (settle s) = se_sizeVal s" "se_policy (settle s) = se_policy s"
  by (simp_all add: settle_def)

text \<open>The invariant while the loop runs.\<close>

definition running_ok :: "'t session \<Rightarrow> bool" where
  "running_ok s \<longleftrightarrow> core (se_clients s) (se_pendingClients s) s \<and> \<not> se_done s \<and> \<not> se_exited s
     \<and> (se_pendingClients s = [] \<longrightarrow> se_pendingOutput s = None)"

lemma running_session_ok: "running_ok s \<Longrightarrow> session_ok s"
  by (simp add: running_ok_def session_ok_def)

lemma session_running_ok: "session_ok s \<Longrightarrow> \<not> se_done s \<Longrightarrow> running_ok s"
  by (auto simp: running_ok_def session_ok_def)

lemma running_settle: "core (se_clients s) (se_pendingClients s) s \<Longrightarrow> \<not> se_done s \<Longrightarrow> \<not> se_exited s \<Longrightarrow>
    running_ok (settle s)"
  using settle_ok [of s] by (simp add: running_ok_def)

lemma pruneAndNotify_ok:
  assumes "running_ok s"
  shows "running_ok (pruneAndNotify s)" and "se_refs (pruneAndNotify s) = se_refs s"
    and "set (se_clients (pruneAndNotify s)) \<subseteq> set (se_clients s)"
    and "se_sizeVal (pruneAndNotify s) = se_sizeVal s"
    and "se_pendingFeed (pruneAndNotify s) = se_pendingFeed s"
    and "se_accepted (pruneAndNotify s) = se_accepted s"
proof -
  obtain kept pn ch s1 where pl: "pruneLoop (se_clients s) (se_pendingClients s) s = ((kept, pn, ch), s1)"
    by (metis prod_cases3 surj_pair)
  let ?s2 = "s1\<lparr>se_clients := kept, se_pendingClients := pn\<rparr>"
  from assms pruneLoop_ok [of "[]", OF _ _ pl] have
    pr: "core kept pn s1" "heap_frame s s1" "set kept \<subseteq> set (se_clients s)" by (auto simp: running_ok_def)
  note f1 = heap_frameD [OF pr(2)]
  have c2: "core (se_clients ?s2) (se_pendingClients ?s2) ?s2" using pr(1) by (auto intro: core_frame)
  have nd: "\<not> se_done ?s2" using assms f1 by (simp add: running_ok_def)
  note nt = notifyClientsChanged_ok [OF c2 _ nd]
  define s3 where "s3 = (if ch then notifyClientsChanged ?s2 else ?s2)"
  have s3: "core kept pn s3" "heap_frame ?s2 s3" using c2 nt by (auto simp: s3_def)
  note f3 = heap_frameD [OF s3(2)]
  have eq: "pruneAndNotify s = settle s3"
    by (simp add: pruneAndNotify_def pruneFinishedClients_def pl s3_def)
  show "running_ok (pruneAndNotify s)"
    unfolding eq using s3 f3 nd assms f1 by (intro running_settle) (simp_all add: running_ok_def)
  show "se_refs (pruneAndNotify s) = se_refs s" "se_sizeVal (pruneAndNotify s) = se_sizeVal s"
    "se_accepted (pruneAndNotify s) = se_accepted s" "set (se_clients (pruneAndNotify s)) \<subseteq> set (se_clients s)"
    using f1 f3 pr(3) by (simp_all add: eq)
  show "se_pendingFeed (pruneAndNotify s) = se_pendingFeed s"
    using f1 f3 by (simp add: eq settle_def)
qed

lemma flushPending_ok:
  assumes "running_ok s"
  shows "running_ok (flushPending s)"
    and "\<forall>r \<in> set (se_pendingClients (flushPending s)). \<not> cl_writeDone (se_heap (flushPending s) r)
      \<and> length (cl_out (se_heap (flushPending s) r)) = sessionClientOutBufferSize"
    and "se_refs (flushPending s) = se_refs s"
proof -
  have "running_ok (flushPending s)
    \<and> (\<forall>r \<in> set (se_pendingClients (flushPending s)). \<not> cl_writeDone (se_heap (flushPending s) r)
      \<and> length (cl_out (se_heap (flushPending s) r)) = sessionClientOutBufferSize)
    \<and> se_refs (flushPending s) = se_refs s"
  proof (cases "se_pendingOutput s")
    case None
    with assms show ?thesis by (auto simp: flushPending_def running_ok_def core_def)
  next
    case (Some d)
    obtain p s1 where q: "queueOutput (se_pendingClients s) d s = (p, s1)" by fastforce
    from assms queueOutput_ok [of _ "[]", OF _ Some _ q] have
      h: "core (se_clients s) p s1" "heap_frame s s1"
        "\<forall>r \<in> set p. \<not> cl_writeDone (se_heap s1 r) \<and> length (cl_out (se_heap s1 r)) = sessionClientOutBufferSize"
      by (auto simp: running_ok_def)
    note f = heap_frameD [OF h(2)]
    let ?s2 = "s1\<lparr>se_pendingClients := p\<rparr>"
    have "core (se_clients ?s2) (se_pendingClients ?s2) ?s2" using h(1) f by (auto intro: core_frame)
    then have "running_ok (settle ?s2)" using assms f by (intro running_settle) (auto simp: running_ok_def)
    then show ?thesis using h(3) f by (simp add: flushPending_def Some q)
  qed
  then show "running_ok (flushPending s)"
    and "\<forall>r \<in> set (se_pendingClients (flushPending s)). \<not> cl_writeDone (se_heap (flushPending s) r)
      \<and> length (cl_out (se_heap (flushPending s) r)) = sessionClientOutBufferSize"
    and "se_refs (flushPending s) = se_refs s"
    by blast+
qed

lemma running_ok_frame:
  "running_ok s \<Longrightarrow> running_ok (s\<lparr>se_atSelect := b\<rparr>)"
  "running_ok s \<Longrightarrow> running_ok (s\<lparr>se_ready := b\<rparr>)"
  by (auto simp: running_ok_def intro: core_frame)

lemma loopTop_ok:
  assumes "running_ok s"
  shows "running_ok (loopTop s)" and "no_lost_wakeup (loopTop s)"
  using flushPending_ok [OF pruneAndNotify_ok(1) [OF assms]]
  by (auto simp: loopTop_def no_lost_wakeup_def running_ok_frame)

lemma core_accept:
  assumes "core cl [] s" and "\<not> se_done s" and "se_pendingFeed s = None"
  shows "core cl cl (s\<lparr>se_accepted := se_accepted s @ [d], se_pendingOutput := Some d, se_pendingFeed := Some d\<rparr>)"
proof -
  have "client_ok (se_accepted s @ [d]) (r \<in> set cl \<and> \<not> se_done s)
      (if r \<in> set cl then Some d else None) r (se_heap s r)" if "r < se_refs s" for r
  proof (cases "r \<in> set cl")
    case True
    with core_client [OF assms(1) that] assms(2) show ?thesis by (simp add: client_ok_accept)
  next
    case False
    with core_client [OF assms(1) that] show ?thesis by (simp add: client_ok_accept_unlisted)
  qed
  then show ?thesis using assms by (simp add: core_def cong: if_cong split del: if_split flip: append.assoc)
qed

text \<open>\<open>queueOutput\<close> only reads and writes the heap.\<close>

lemma queueOutput_commutes:
  "queueOutput cs d (s\<lparr>se_pendingOutput := x, se_pendingFeed := y\<rparr>) =
     (case queueOutput cs d s of (p, s') \<Rightarrow> (p, s'\<lparr>se_pendingOutput := x, se_pendingFeed := y\<rparr>))"
proof (induction cs arbitrary: s)
  case (Cons c cs)
  have "chanSend c m (s\<lparr>se_pendingOutput := x, se_pendingFeed := y\<rparr>) =
      (case chanSend c m s of (b, s') \<Rightarrow> (b, s'\<lparr>se_pendingOutput := x, se_pendingFeed := y\<rparr>))" for m
    by (simp add: chanSend_def modClient_def)
  with Cons show ?case by (auto split: prod.splits bool.splits)
qed simp

lemma queueOutput_keeps: "se_pendingOutput (snd (queueOutput cs d s)) = se_pendingOutput s"
proof (induction cs arbitrary: s)
  case (Cons c cs)
  then show ?case by (auto simp: chanSend_def modClient_def Let_def case_prod_unfold)
qed simp

lemma ptyBranch_ok:
  assumes "running_ok s" and "se_pendingFeed s = None" and "se_pendingOutput s = None"
  shows "running_ok (ptyBranch d s)" and "se_refs (ptyBranch d s) = se_refs s"
proof -
  let ?s0 = "s\<lparr>se_accepted := se_accepted s @ [d]\<rparr>"
  let ?s1 = "?s0\<lparr>se_pendingOutput := Some d, se_pendingFeed := Some d\<rparr>"
  obtain p s2 where q: "queueOutput (se_clients s) d ?s0 = (p, s2)" by fastforce
  let ?s2 = "s2\<lparr>se_pendingOutput := Some d, se_pendingFeed := Some d\<rparr>"
  from q have q': "queueOutput (se_clients s) d ?s1 = (p, ?s2)"
    using queueOutput_commutes [where s = ?s0 and x = "Some d" and y = "Some d"] by simp
  have pn: "se_pendingClients s = []" using assms(1,3) by (auto simp: running_ok_def core_def)
  have "core (se_clients s) (se_clients s) ?s1"
    using core_accept [of "se_clients s" s d] assms pn by (simp add: running_ok_def)
  from queueOutput_ok [of _ "[]", OF _ _ _ q'] this assms(1)
  have h: "core (se_clients s) p ?s2" "heap_frame ?s1 ?s2" by (auto simp: running_ok_def)
  note f = heap_frameD [OF h(2)]
  have po: "se_pendingOutput s2 = None"
    using queueOutput_keeps [of "se_clients s" d ?s0] q assms(3) by simp
  have eq: "ptyBranch d s = settle (?s2\<lparr>se_pendingClients := p\<rparr>)"
    using q po by (auto simp: ptyBranch_def settle_def Let_def)
  have "core (se_clients s) p (?s2\<lparr>se_pendingClients := p\<rparr>)" using h(1) by (auto intro: core_frame)
  then show "running_ok (ptyBranch d s)"
    unfolding eq using f assms(1) by (intro running_settle) (auto simp: running_ok_def)
  show "se_refs (ptyBranch d s) = se_refs s" using f by (simp add: eq)
qed

lemma drainFeed_ok: "running_ok s \<Longrightarrow> running_ok (drainFeed em s)"
  by (auto simp: running_ok_def drainFeed_def Let_def intro: core_frame)

lemma drainFeed_fed: "running_ok s \<Longrightarrow> se_fed (drainFeed em s) = se_accepted s"
  by (auto simp: running_ok_def drainFeed_def Let_def core_def)

lemma resizeTo_ok: "running_ok s \<Longrightarrow> running_ok (resizeTo em sz s)"
  by (auto simp: running_ok_def resizeTo_def resize_def setSize_def Let_def split: prod.splits intro: core_frame)

lemma arbitrateResize_ok: "running_ok s \<Longrightarrow> running_ok (arbitrateResize em s)"
  by (simp add: arbitrateResize_def Let_def resizeTo_ok)

lemma notifyClientsChanged_running: "running_ok s \<Longrightarrow> running_ok (notifyClientsChanged s)"
  using notifyClientsChanged_ok [of "se_clients s" "se_pendingClients s" s] heap_frameD [of s "notifyClientsChanged s"]
  by (auto simp: running_ok_def)

section \<open>Actions\<close>

text \<open>A new client, with its \<open>Attached\<close> message in the channel.\<close>

lemma core_new_client:
  assumes "core cl pn s" and "\<not> se_done s" and "client_ok (se_accepted s) True None (se_refs s) c"
  shows "core (cl @ [se_refs s]) pn
    (s\<lparr>se_nextClientID := se_nextClientID s + 1, se_refs := Suc (se_refs s), se_heap := (se_heap s)(se_refs s := c)\<rparr>)"
proof -
  have cl: "se_refs s \<notin> set cl" "set pn \<subseteq> set cl" "\<forall>r \<in> set cl. r < se_refs s" using assms(1) by (auto simp: core_def)
  have "client_ok (se_accepted s) (r \<in> set (cl @ [se_refs s]) \<and> \<not> se_done s)
      (if r \<in> set pn then se_pendingOutput s else None) r (((se_heap s)(se_refs s := c)) r)"
    if "r < Suc (se_refs s)" for r
  proof (cases "r = se_refs s")
    case True
    with assms(2,3) cl have "r \<notin> set pn" by auto
    with True assms(2,3) show ?thesis by simp
  next
    case False
    with that core_client [OF assms(1), of r] show ?thesis by simp
  qed
  with assms(1) cl show ?thesis
    by (auto simp: core_def less_Suc_eq simp del: fun_upd_apply split del: if_split cong: if_cong)
qed

lemma attachAction_ok:
  assumes "running_ok s"
  shows "running_ok (snd (attachAction em spec s))"
proof -
  define s1 where "s1 = (if as_readOnly spec then s else resizeForPending em (as_size spec) s)"
  have "running_ok s1" using assms by (auto simp: s1_def resizeForPending_def Let_def resizeTo_ok)
  then have s2: "running_ok (drainFeed em s1)" by (rule drainFeed_ok)
  have fed: "se_fed (drainFeed em s1) = se_accepted (drainFeed em s1)"
    using drainFeed_fed [OF \<open>running_ok s1\<close>] by (simp add: drainFeed_def Let_def)
  define t where "t = drainFeed em s1"
  show ?thesis
  proof (cases "em_dump em (se_term t)")
    case (Inl e)
    with s2 show ?thesis by (simp add: attachAction_def Let_def flip: s1_def t_def)
  next
    case (Inr dump)
    obtain c r where sz: "sessionSize t = (c, r)" by fastforce
    let ?cid = "se_nextClientID t + 1"
    let ?m = "MAttached \<lparr>attached_Name = se_Name t, attached_PID = se_PID t,
       attached_ClientID = string_of_nat (unat ?cid), attached_Cols = c, attached_Rows = r,
       attached_ScreenDump = dump_Data dump, attached_CursorRow = dump_CursorRow dump,
       attached_CursorCol = dump_CursorCol dump, attached_AltScreen = dump_IsAltScreen dump,
       attached_Created = as_created spec\<rparr>"
    let ?k = "\<lparr>cl_id = string_of_nat (unat ?cid), cl_size = as_size spec,
       cl_version = as_version spec, cl_readOnly = as_readOnly spec, cl_out = [],
       cl_outClosed = False, cl_writeDone = False, cl_final = None, cl_connClosed = False,
       cl_wire = [], cl_base = length (se_fed t)\<rparr>"
    let ?k' = "?k\<lparr>cl_out := [?m]\<rparr>"
    let ?u = "t\<lparr>se_nextClientID := ?cid, se_refs := Suc (se_refs t), se_heap := (se_heap t)(se_refs t := ?k')\<rparr>"
    let ?v = "?u\<lparr>se_clients := se_clients t @ [se_refs t]\<rparr>"
    have core: "core (se_clients t) (se_pendingClients t) t" "\<not> se_done t" "\<not> se_exited t"
        "se_pendingClients t = [] \<longrightarrow> se_pendingOutput t = None"
      using s2 by (auto simp: running_ok_def t_def)
    have "string_of_nat (unat ?cid) = clientID (se_refs t)"
      using core(1) by (simp add: core_def clientID_def add.commute)
    then have "client_ok (se_accepted t) True None (se_refs t) ?k'"
      using fed by (simp add: client_ok_def sessionClientOutBufferSize_def flip: t_def)
    from core_new_client [OF core(1,2) this]
    have "core (se_clients ?v) (se_pendingClients ?v) ?v" by (auto intro: core_frame)
    with core have v: "running_ok ?v" by (simp add: running_ok_def)
    have "snd (attachAction em spec s) = notifyClientsChanged (if as_readOnly spec then ?v else arbitrateResize em ?v)"
      using Inr sz by (simp add: attachAction_def Let_def chanSend_def modClient_def sessionClientOutBufferSize_def
          flip: s1_def t_def)
    moreover have "running_ok (if as_readOnly spec then ?v else arbitrateResize em ?v)"
      using v arbitrateResize_ok [OF v] by (cases "as_readOnly spec") (simp_all only: if_True if_False)
    ultimately show ?thesis by (simp only: notifyClientsChanged_running)
  qed
qed

lemma dropClient_close_ok:
  assumes "running_ok s" and "r \<in> set (se_clients s)"
  shows "running_ok (chanClose r (dropClient r s))"
proof -
  let ?s1 = "s\<lparr>se_clients := removeClient (se_clients s) r, se_pendingClients := removeClient (se_pendingClients s) r\<rparr>"
  have core: "core (se_clients s) (se_pendingClients s) s" "\<not> se_done s" "\<not> se_exited s"
    using assms(1) by (auto simp: running_ok_def)
  note d = core_drop [OF core(1) assms(2) core(2)]
  note f = heap_frameD [OF d [THEN conjunct2]]
  let ?t = "(chanClose r s)\<lparr>se_clients := removeClient (se_clients s) r, se_pendingClients := removeClient (se_pendingClients s) r\<rparr>"
  have eq: "chanClose r (dropClient r s) = settle ?t"
    by (auto simp: dropClient_def settle_def chanClose_def modClient_def)
  have "core (se_clients ?t) (se_pendingClients ?t) ?t"
    using d by (auto simp: removeClient_def intro: core_frame)
  then show ?thesis unfolding eq using core f by (intro running_settle) auto
qed

lemma modClient_running:
  assumes "running_ok s"
    and "\<And>acc live p c. client_ok acc live p r c \<Longrightarrow> client_ok acc live p r (f c)"
  shows "running_ok (modClient r f s)"
proof -
  have core: "core (se_clients s) (se_pendingClients s) s" using assms(1) by (simp add: running_ok_def)
  have "core (se_clients s) (se_pendingClients s) (modClient r f s)"
    using core_client [OF core] assms(2) by (intro core_modClient [OF core]) blast
  with assms(1) show ?thesis by (simp add: running_ok_def modClient_def)
qed

lemma detachAction_ok: "running_ok s \<Longrightarrow> running_ok (snd (detachAction em r s))"
proof -
  assume s: "running_ok s"
  show ?thesis
  proof (cases "r \<in> set (se_clients s)")
    case True
    with s show ?thesis
      by (auto simp: detachAction_def notifyClientsChanged_running arbitrateResize_ok dropClient_close_ok)
  next
    case False
    with s show ?thesis by (simp add: detachAction_def removeClient_def remove1_idem)
  qed
qed

lemma kickAction_ok: "running_ok s \<Longrightarrow> running_ok (snd (kickAction em cid s))"
proof -
  assume s: "running_ok s"
  show ?thesis
  proof (cases "find (\<lambda>r. cl_id (se_heap s r) = cid) (se_clients s)")
    case (Some r)
    then have "r \<in> set (se_clients s)" by (auto simp: find_Some_iff)
    from modClient_running [OF dropClient_close_ok [OF s this] client_ok_conn] Some show ?thesis
      by (simp add: kickAction_def Let_def notifyClientsChanged_running arbitrateResize_ok)
  qed (simp add: kickAction_def s)
qed

lemma resizeAction_ok: "running_ok s \<Longrightarrow> running_ok (snd (resizeAction em r sz s))"
  using modClient_running [of s r, OF _ client_ok_size] by (simp add: resizeAction_def arbitrateResize_ok)

section \<open>The end of a session\<close>

lemma finishEach_heap:
  assumes "distinct cs" and "\<forall>r \<in> set cs. \<not> cl_outClosed (se_heap s r)"
  shows "finishEach f cs s =
    s\<lparr>se_heap := (\<lambda>r. if r \<in> set cs then f ((se_heap s r)\<lparr>cl_outClosed := True\<rparr>) else se_heap s r)\<rparr>"
  using assms
proof (induction cs arbitrary: s)
  case Nil
  then show ?case by simp
next
  case (Cons c cs)
  let ?s1 = "modClient c f (chanClose c s)"
  have s1: "?s1 = s\<lparr>se_heap := (se_heap s)(c := f ((se_heap s c)\<lparr>cl_outClosed := True\<rparr>))\<rparr>"
    using Cons.prems(2) by (simp add: chanClose_def modClient_def)
  have "finishEach f cs ?s1 =
      ?s1\<lparr>se_heap := (\<lambda>r. if r \<in> set cs then f ((se_heap ?s1 r)\<lparr>cl_outClosed := True\<rparr>) else se_heap ?s1 r)\<rparr>"
    using Cons.prems by (intro Cons.IH) (auto simp: s1)
  moreover have "(\<lambda>r. if r \<in> set cs then f ((se_heap ?s1 r)\<lparr>cl_outClosed := True\<rparr>) else se_heap ?s1 r)
      = (\<lambda>r. if r \<in> set (c # cs) then f ((se_heap s r)\<lparr>cl_outClosed := True\<rparr>) else se_heap s r)"
    using Cons.prems(1) by (auto simp: s1 fun_eq_iff)
  ultimately have "finishEach f cs ?s1 =
      ?s1\<lparr>se_heap := (\<lambda>r. if r \<in> set (c # cs) then f ((se_heap s r)\<lparr>cl_outClosed := True\<rparr>) else se_heap s r)\<rparr>"
    by (simp only:)
  then show ?case unfolding finishEach.simps s1 by simp
qed

lemma running_open:
  assumes "running_ok s"
  shows "distinct (se_clients s)" and "\<forall>r \<in> set (se_clients s). \<not> cl_outClosed (se_heap s r)"
proof -
  from assms have c: "core (se_clients s) (se_pendingClients s) s" "\<not> se_done s" by (simp_all add: running_ok_def)
  from c(1) show "distinct (se_clients s)" by (simp add: core_def)
  from c core_live(2) show "\<forall>r \<in> set (se_clients s). \<not> cl_outClosed (se_heap s r)" by blast
qed

text \<open>The loop's return: every client is closed by \<open>f\<close>, and the loop is done.\<close>

lemma finish_core:
  assumes "running_ok s"
    and "\<And>acc p r c. client_ok acc False p r c \<Longrightarrow> client_ok acc False p r (f c)"
    and "se_heap t = (\<lambda>r. if r \<in> set (se_clients s) then f ((se_heap s r)\<lparr>cl_outClosed := True\<rparr>) else se_heap s r)"
    and "se_done t" "se_refs t = se_refs s" "se_panic t = se_panic s" "se_nextClientID t = se_nextClientID s"
      "se_pendingOutput t = se_pendingOutput s" "se_accepted t = se_accepted s"
  shows "core (se_clients s) (se_pendingClients s) t"
proof -
  have core: "core (se_clients s) (se_pendingClients s) s" using assms(1) by (simp add: running_ok_def)
  have "client_ok (se_accepted s) False p r (se_heap t r)" if "r < se_refs s" for r p
  proof (cases "r \<in> set (se_clients s)")
    case True
    with assms(2) [OF client_ok_close [OF core_client [OF core that]]] show ?thesis by (simp add: assms(3))
  next
    case False
    with client_ok_unlist [OF core_client [OF core that]] show ?thesis by (simp add: assms(3))
  qed
  with core assms(4-9) show ?thesis by (simp add: core_def)
qed

lemma ptyClosedBranch_ok:
  assumes "running_ok s" and "se_pendingOutput s = None"
  shows "session_ok (ptyClosedBranch em code s)"
proof -
  let ?m = "MExited \<lparr>exited_ExitCode = code\<rparr>"
  let ?f = "\<lambda>c. c\<lparr>cl_final := Some ?m\<rparr>"
  define s1 where "s1 = drainFeed em s"
  have s1: "running_ok s1" using drainFeed_ok [OF assms(1)] by (simp add: s1_def)
  define t where "t = finishEach ?f (se_clients s1) s1"
  have t: "t = s1\<lparr>se_heap := (\<lambda>r. if r \<in> set (se_clients s1) then ?f ((se_heap s1 r)\<lparr>cl_outClosed := True\<rparr>) else se_heap s1 r)\<rparr>"
    unfolding t_def by (rule finishEach_heap [OF running_open [OF s1]])
  have pn: "se_pendingClients s1 = []" "se_pendingOutput s1 = None"
    using assms by (auto simp: s1_def drainFeed_def Let_def running_ok_def core_def)
  have ex: "exit_ok (se_accepted s1) code (?f ((se_heap s1 r)\<lparr>cl_outClosed := True\<rparr>))" if "r \<in> set (se_clients s1)" for r
  proof -
    have "client_ok (se_accepted s1) True None r (se_heap s1 r)"
      using core_live(1) [of "se_clients s1" "[]" s1 r] s1 pn that by (simp add: running_ok_def)
    then show ?thesis by (auto simp: client_ok_def exit_ok_def)
  qed
  have eq: "ptyClosedBranch em code s = t\<lparr>se_exitCode := code, se_exited := True, se_done := True\<rparr>"
    by (simp add: ptyClosedBranch_def Let_def t_def s1_def)
  have "core (se_clients s1) (se_pendingClients s1) (ptyClosedBranch em code s)"
    unfolding eq by (rule finish_core [OF s1 client_ok_final]) (simp_all add: t)
  then show ?thesis using ex pn by (simp add: session_ok_def eq t)
qed

lemma stopAction_ok:
  assumes "running_ok s"
  shows "session_ok (snd (stopAction em s))"
proof -
  let ?f = "\<lambda>c. c\<lparr>cl_connClosed := True\<rparr>"
  define s1 where "s1 = drainFeed em (s\<lparr>se_pendingFeed := None\<rparr>)"
  have s1: "se_heap s1 = se_heap s" "se_clients s1 = se_clients s" "se_pendingClients s1 = se_pendingClients s"
      "se_refs s1 = se_refs s" "se_panic s1 = se_panic s" "se_nextClientID s1 = se_nextClientID s"
      "se_pendingOutput s1 = se_pendingOutput s" "se_accepted s1 = se_accepted s" "se_exited s1 = se_exited s"
    by (simp_all add: s1_def drainFeed_def Let_def)
  define t where "t = (finishEach ?f (se_clients s1) s1)\<lparr>se_done := True\<rparr>"
  have t: "t = s1\<lparr>se_heap := (\<lambda>r. if r \<in> set (se_clients s) then ?f ((se_heap s r)\<lparr>cl_outClosed := True\<rparr>) else se_heap s r),
      se_done := True\<rparr>"
    unfolding t_def using finishEach_heap [of "se_clients s1" s1 ?f, unfolded s1] running_open [OF assms]
    by (simp add: s1(2))
  have "core (se_clients s) (se_pendingClients s) t"
    by (rule finish_core [OF assms client_ok_conn]) (simp_all add: t s1)
  moreover have "snd (stopAction em s) = t"
    by (simp add: stopAction_def Let_def t_def s1_def)
  moreover have "se_clients t = se_clients s" "se_pendingClients t = se_pendingClients s"
      "se_pendingOutput t = se_pendingOutput s" "se_exited t = se_exited s"
    by (simp_all add: t s1)
  ultimately show ?thesis using assms by (simp add: session_ok_def running_ok_def)
qed

section \<open>The writers\<close>

text \<open>What a writer's step does to its client.\<close>

lemma writeLoopStep_client:
  assumes "writeLoopStep r ok s = Some s'"
  obtains f where "s' = (modClient r f s)\<lparr>se_ready := True\<rparr>"
    and "\<And>acc live p. client_ok acc live p r (se_heap s r) \<Longrightarrow> client_ok acc live p r (f (se_heap s r))"
    and "\<And>acc code. exit_ok acc code (se_heap s r) \<Longrightarrow> exit_ok acc code (f (se_heap s r))"
proof -
  let ?c = "se_heap s r"
  have nd: "\<not> cl_writeDone ?c" using assms by (auto simp: writeLoopStep_def Let_def split: if_splits)
  show thesis
  proof (cases "cl_out ?c")
    case (Cons m ms)
    let ?f = "\<lambda>c. if ok then c\<lparr>cl_out := ms, cl_wire := cl_wire c @ [m]\<rparr>
        else c\<lparr>cl_out := ms, cl_connClosed := True, cl_writeDone := True\<rparr>"
    show thesis
    proof (rule that [of ?f])
      show "s' = (modClient r ?f s)\<lparr>se_ready := True\<rparr>"
        using assms Cons by (auto simp: writeLoopStep_def Let_def split: if_splits)
      show "client_ok acc live p r (?f ?c)" if "client_ok acc live p r ?c" for acc live p
        using client_ok_written [OF that nd Cons] client_ok_write_failed [OF that nd Cons] by (cases ok) simp_all
      show "exit_ok acc code (?f ?c)" if "exit_ok acc code ?c" for acc code
        using that nd Cons outputs_append [of "[m]" ms] by (cases ok) (simp_all add: exit_ok_def)
    qed
  next
    case Nil
    then have closed: "cl_outClosed ?c"
      using assms by (auto simp: writeLoopStep_def Let_def split: if_splits)
    let ?f = "\<lambda>c. case cl_final c of None \<Rightarrow> c\<lparr>cl_writeDone := True\<rparr>
        | Some m \<Rightarrow> if ok then c\<lparr>cl_wire := cl_wire c @ [m], cl_writeDone := True\<rparr>
                    else c\<lparr>cl_connClosed := True, cl_writeDone := True\<rparr>"
    show thesis
    proof (rule that [of ?f])
      show "s' = (modClient r ?f s)\<lparr>se_ready := True\<rparr>"
        using assms Nil closed by (auto simp: writeLoopStep_def Let_def split: if_splits)
      show "client_ok acc live p r (?f ?c)" if "client_ok acc live p r ?c" for acc live p
        using client_ok_ended [OF that nd Nil closed] by (auto split: option.splits)
      show "exit_ok acc code (?f ?c)" if "exit_ok acc code ?c" for acc code
        using that nd Nil by (auto simp: exit_ok_def)
    qed
  qed
qed

lemma writeLoopStep_ok:
  assumes "session_ok s" and "writeLoopStep r ok s = Some s'"
  shows "session_ok s'" and "se_ready s'" and "se_refs s' = se_refs s"
proof -
  from assms(2) obtain f where s': "s' = (modClient r f s)\<lparr>se_ready := True\<rparr>"
    and f: "\<And>acc live p. client_ok acc live p r (se_heap s r) \<Longrightarrow> client_ok acc live p r (f (se_heap s r))"
    and e: "\<And>acc code. exit_ok acc code (se_heap s r) \<Longrightarrow> exit_ok acc code (f (se_heap s r))"
    by (rule writeLoopStep_client) blast
  have core: "core (se_clients s) (se_pendingClients s) s" using assms(1) by (simp add: session_ok_def)
  have "core (se_clients s) (se_pendingClients s) (modClient r f s)"
    using core_client [OF core] f by (intro core_modClient [OF core]) blast
  then have "core (se_clients s) (se_pendingClients s) s'"
    unfolding s' by (rule core_frame) simp_all
  with assms(1) e show "session_ok s'" by (auto simp: session_ok_def s' modClient_def)
  show "se_ready s'" and "se_refs s' = se_refs s" by (simp_all add: s' modClient_def)
qed

section \<open>Preservation\<close>

lemma handleAction_ok:
  assumes "running_ok s"
  shows "session_ok (snd (handleAction em a s))"
  using pruneAndNotify_ok(1) [OF assms]
  by (cases a) (simp_all add: handleAction_def Let_def attachAction_ok detachAction_ok kickAction_ok resizeAction_ok
      clientInfoAction_def stopAction_ok running_session_ok)

lemma session_ok_select: "session_ok s \<Longrightarrow> session_ok (s\<lparr>se_atSelect := b\<rparr>)"
  unfolding session_ok_def by (auto intro: core_frame)

definition loop_ok :: "'t session \<Rightarrow> bool" where
  "loop_ok s \<longleftrightarrow> session_ok s \<and> no_lost_wakeup s"

text \<open>The two ends of the feed channel.\<close>

lemma feedSend_ok:
  assumes "session_ok s" and "se_pendingFeed s = Some d"
  shows "session_ok (s\<lparr>se_feedCh := se_feedCh s @ [d], se_pendingFeed := None\<rparr>)"
proof -
  let ?t = "s\<lparr>se_feedCh := se_feedCh s @ [d], se_pendingFeed := None\<rparr>"
  have "core (se_clients s) (se_pendingClients s) ?t"
    using assms by (auto simp: session_ok_def intro: core_frame)
  then show ?thesis using assms(1) by (auto simp: session_ok_def)
qed

lemma feedApply_ok:
  assumes "loop_ok s" and "se_feedCh s = d # q"
  shows "loop_ok (s\<lparr>se_feedCh := q, se_term := term, se_fed := se_fed s @ [d]\<rparr>)"
proof -
  let ?t = "s\<lparr>se_feedCh := q, se_term := term, se_fed := se_fed s @ [d]\<rparr>"
  have "core (se_clients s) (se_pendingClients s) ?t"
    using assms by (auto simp: loop_ok_def session_ok_def intro: core_frame)
  then show ?thesis using assms(1) by (auto simp: loop_ok_def session_ok_def no_lost_wakeup_def)
qed

lemma exec_ok:
  assumes "loop_ok s" and "exec em ev s = Some s'"
  shows "loop_ok s'"
proof -
  have s: "session_ok s" "no_lost_wakeup s" using assms(1) by (auto simp: loop_ok_def)
  have top: "session_ok t \<Longrightarrow> loop_ok (t\<lparr>se_atSelect := False\<rparr>)" for t :: "'a session"
    using session_ok_select by (auto simp: loop_ok_def no_lost_wakeup_def)
  show ?thesis
  proof (cases ev)
    case EvTop
    with assms(2) have "\<not> se_done s" "s' = loopTop s" by (auto split: if_splits)
    with loopTop_ok [OF session_running_ok [OF s(1)]] show ?thesis
      by (simp add: loop_ok_def running_session_ok)
  next
    case (EvPty d)
    with assms(2) have p: "ptyEnabled s" "s' = (ptyBranch d s)\<lparr>se_atSelect := False\<rparr>" by (auto split: if_splits)
    with ptyBranch_ok(1) [OF session_running_ok [OF s(1)]] show ?thesis
      by (auto simp: ptyEnabled_def intro!: top running_session_ok)
  next
    case (EvPtyClosed code)
    with assms(2) have p: "ptyEnabled s" "s' = (ptyClosedBranch em code s)\<lparr>se_atSelect := False\<rparr>" by (auto split: if_splits)
    with ptyClosedBranch_ok [OF session_running_ok [OF s(1)]] show ?thesis
      by (auto simp: ptyEnabled_def intro!: top)
  next
    case EvFeedSend
    with assms(2) obtain d where d: "se_pendingFeed s = Some d" "\<not> se_done s"
        "s' = s\<lparr>se_feedCh := se_feedCh s @ [d], se_pendingFeed := None, se_atSelect := False\<rparr>"
      by (auto split: option.splits if_splits)
    from top [OF feedSend_ok [OF s(1) d(1)]] d(3) show ?thesis by simp
  next
    case EvReady
    with assms(2) have "s' = s\<lparr>se_ready := False, se_atSelect := False\<rparr>" "\<not> se_done s" by (auto split: if_splits)
    with running_ok_frame(2) [OF session_running_ok [OF s(1)], of False] show ?thesis
      by (auto intro!: top running_session_ok)
  next
    case (EvAction a)
    with assms(2) have "\<not> se_done s" "s' = (snd (handleAction em a s))\<lparr>se_atSelect := False\<rparr>" by (auto split: if_splits)
    with handleAction_ok [OF session_running_ok [OF s(1)]] show ?thesis by (auto intro!: top)
  next
    case EvFeedApply
    with assms(2) feedApply_ok [OF assms(1)] show ?thesis by (auto split: list.splits)
  next
    case (EvWriter r ok)
    with assms(2) have "writeLoopStep r ok s = Some s'" by (auto split: if_splits)
    from writeLoopStep_ok [OF s(1) this] show ?thesis by (simp add: loop_ok_def no_lost_wakeup_def)
  qed
qed

definition fresh_session :: "'t session \<Rightarrow> bool" where
  "fresh_session s \<longleftrightarrow> (\<exists>name pid policy sz term heap. s = startSession name pid policy sz term heap)"

lemma reachable_ok:
  assumes "reachable em s0 s" and "fresh_session s0"
  shows "loop_ok s"
  using assms
proof (induction rule: reachable.induct)
  case reachable_start
  then show ?case
    by (auto simp: fresh_session_def startSession_def setSize_def loop_ok_def session_ok_def core_def no_lost_wakeup_def)
next
  case (reachable_step s ev s')
  then show ?case using exec_ok by blast
qed

end
