(* ===== verification/Session_Props.thy ===== *)
theory Session_Props
  imports Session_Inv
begin

text \<open>
  Properties of the session loop, over all reachable states of the state machine of
  \<open>Session_Loop\<close>. \<open>demo_em\<close> is a concrete emulator (the screen is the bytes fed so far) and
  \<open>demo_start\<close> a fresh session for the witnesses.
\<close>

definition demo_em :: "(byte list) emulator" where
  "demo_em = \<lparr>em_feed = (\<lambda>d t. t @ d), em_resize = (\<lambda>c r t. t),
     em_dump = (\<lambda>t. Inr \<lparr>dump_Data = t, dump_CursorRow = 0, dump_CursorCol = 0, dump_IsAltScreen = False\<rparr>)\<rparr>"

definition demo_start :: "(byte list) session" where
  "demo_start = startSession ''work'' 42 ResizePolicySmallest \<lparr>cols = 80, rows = 24, xpixel = 0, ypixel = 0\<rparr> []
     (\<lambda>_. no_client)"

definition demo_attach :: "u16 \<Rightarrow> u16 \<Rightarrow> sessionEvent" where
  "demo_attach c r = EvAction (AttachReq \<lparr>as_size = \<lparr>cols = c, rows = r, xpixel = 0, ypixel = 0\<rparr>,
     as_version = ''v1'', as_readOnly = False, as_created = False\<rparr>)"

lemma demo_fresh: "fresh_session demo_start"
  unfolding fresh_session_def demo_start_def by blast

definition demo_run :: "sessionEvent list" where
  "demo_run = [EvTop, demo_attach 80 24, EvTop, EvPty [104, 105], EvWriter 0 True, EvTop, EvFeedSend, EvTop, EvPty [33]]"

definition demo_end :: "(byte list) session" where
  "demo_end = the (execAll demo_em demo_run demo_start)"

lemma demo_run_ok: "execAll demo_em demo_run demo_start = Some demo_end"
proof -
  have "execAll demo_em demo_run demo_start \<noteq> None" by code_simp
  then show ?thesis by (auto simp: demo_end_def)
qed

lemma demo_reachable: "reachable demo_em demo_start demo_end"
  using execAll_reachable [OF demo_run_ok reachable_start] .

text \<open>
  C19. Clients get the session's output exactly once and in order. For every client ever attached,
  the first message is its own \<open>Attached\<close>, and the output written to it so far is a prefix of
  the PTY chunks accepted after the ones its screen dump contains. For a client still attached,
  what was written, what is queued and what is held back make up exactly all of these chunks:
  none lost, none twice, none reordered.
\<close>

theorem session_output_exactly_once:
  assumes "fresh_session s0" and "reachable em s0 s" and "r < se_refs s"
  shows "cl_base (se_heap s r) \<le> length (se_accepted s)
    \<and> prefix (outputs (cl_wire (se_heap s r))) (drop (cl_base (se_heap s r)) (se_accepted s))
    \<and> (cl_wire (se_heap s r) \<noteq> [] \<longrightarrow> isAttachedFor (cl_id (se_heap s r)) (hd (cl_wire (se_heap s r))))
    \<and> (r \<in> set (se_clients s) \<and> \<not> se_done s \<and> \<not> cl_writeDone (se_heap s r) \<longrightarrow>
        outputs (cl_wire (se_heap s r)) @ outputs (cl_out (se_heap s r))
          @ (if r \<in> set (se_pendingClients s) then pend (se_pendingOutput s) else [])
        = drop (cl_base (se_heap s r)) (se_accepted s))"
proof -
  have "core (se_clients s) (se_pendingClients s) s"
    using reachable_ok [OF assms(2,1)] by (simp add: loop_ok_def session_ok_def)
  from core_client [OF this assms(3)] show ?thesis by (auto simp: client_ok_def)
qed

theorem session_output_exactly_once_witness:
  "0 < se_refs demo_end
    \<and> prefix (outputs (cl_wire (se_heap demo_end 0))) (drop (cl_base (se_heap demo_end 0)) (se_accepted demo_end))
    \<and> se_accepted demo_end = [[104, 105], [33]]"
proof -
  have "0 < se_refs demo_end" unfolding demo_end_def by code_simp
  moreover have "se_accepted demo_end = [[104, 105], [33]]" unfolding demo_end_def by code_simp
  ultimately show ?thesis
    using session_output_exactly_once [OF demo_fresh demo_reachable, of 0] by blast
qed

text \<open>
  C20. The loop never panics: no send on or close of a closed client channel, whatever the
  interleaving of attaches, detaches, kicks, failing writers and PTY data. The client list has no
  duplicates, the clients with held-back output are in it, and no queue exceeds its buffer.
\<close>

theorem session_never_panics:
  assumes "fresh_session s0" and "reachable em s0 s"
  shows "\<not> se_panic s \<and> distinct (se_clients s) \<and> set (se_pendingClients s) \<subseteq> set (se_clients s)
    \<and> (\<forall>r < se_refs s. length (cl_out (se_heap s r)) \<le> sessionClientOutBufferSize)"
proof -
  have c: "core (se_clients s) (se_pendingClients s) s"
    using reachable_ok [OF assms(2,1)] by (simp add: loop_ok_def session_ok_def)
  have "length (cl_out (se_heap s r)) \<le> sessionClientOutBufferSize" if "r < se_refs s" for r
    using core_client [OF c that] by (simp add: client_ok_def)
  with coreD(1-3) [OF c] show ?thesis by blast
qed

theorem session_never_panics_witness: "\<not> se_panic demo_end \<and> distinct (se_clients demo_end)"
  using session_never_panics [OF demo_fresh demo_reachable] by blast

text \<open>
  Client IDs are unique: two different clients of a session have different IDs as long as
  fewer than 2^64 clients have been attached, so a kick by ID hits one client at most.
\<close>

theorem session_client_ids_unique:
  assumes "fresh_session s0" and "reachable em s0 s" and "se_refs s < 2 ^ 64"
    and "r < se_refs s" and "r' < se_refs s" and "cl_id (se_heap s r) = cl_id (se_heap s r')"
  shows "r = r'"
proof -
  have "core (se_clients s) (se_pendingClients s) s"
    using reachable_ok [OF assms(2,1)] by (simp add: loop_ok_def session_ok_def)
  from core_client [OF this assms(4)] core_client [OF this assms(5)] assms(6)
  have "clientID r = clientID r'" by (simp add: client_ok_def)
  then have "unat (of_nat (Suc r) :: u64) = unat (of_nat (Suc r') :: u64)" unfolding clientID_def by simp
  moreover have "Suc r < 2 ^ LENGTH(64) \<or> Suc r = 2 ^ 64" "Suc r' < 2 ^ LENGTH(64) \<or> Suc r' = 2 ^ 64"
    using assms(3-5) by auto
  ultimately show ?thesis using assms(3-5) by (simp add: unat_of_nat_small del: of_nat_Suc)
qed

theorem session_client_ids_unique_witness:
  "let s = the (execAll demo_em [EvTop, demo_attach 80 24, EvTop, demo_attach 100 30] demo_start)
   in se_refs s = 2 \<and> cl_id (se_heap s 0) \<noteq> cl_id (se_heap s 1)"
proof -
  let ?evs = "[EvTop, demo_attach 80 24, EvTop, demo_attach 100 30]"
  let ?s = "the (execAll demo_em ?evs demo_start)"
  have "execAll demo_em ?evs demo_start = Some ?s" by (rule option.collapse [symmetric]) code_simp
  from execAll_reachable [OF this reachable_start] have r: "reachable demo_em demo_start ?s" .
  have "se_refs ?s = 2" by code_simp
  with session_client_ids_unique [OF demo_fresh r, of 0 1] show ?thesis by (auto simp: Let_def)
qed


text \<open>A run that fills the queue of a client that does not read: one more chunk in every round.\<close>

definition idle_with :: "nat \<Rightarrow> (byte list) session \<Rightarrow> bool" where
  "idle_with n s \<longleftrightarrow> se_atSelect s \<and> \<not> se_done s \<and> se_pendingFeed s = None \<and> se_pendingOutput s = None
     \<and> se_pendingClients s = [] \<and> se_clients s = [0] \<and> se_refs s = 1 \<and> se_feedCh s = []
     \<and> \<not> cl_writeDone (se_heap s 0) \<and> \<not> cl_outClosed (se_heap s 0) \<and> \<not> cl_connClosed (se_heap s 0)
     \<and> length (cl_out (se_heap s 0)) = n"

lemmas loop_unfold = loopTop_def pruneAndNotify_def pruneFinishedClients_def flushPending_def settle_def
  ptyBranch_def ptyEnabled_def chanSend_def modClient_def Let_def

lemma idle_round:
  assumes "idle_with n s" and "n < sessionClientOutBufferSize"
  shows "\<exists>s'. execAll demo_em [EvPty [46], EvTop, EvFeedSend, EvTop, EvFeedApply] s = Some s' \<and> idle_with (Suc n) s'"
  using assms by (simp add: idle_with_def loop_unfold feedChSize_def)

lemma idle_reachable:
  "n \<le> sessionClientOutBufferSize \<Longrightarrow> 2 \<le> n \<Longrightarrow> \<exists>s. reachable demo_em demo_start s \<and> idle_with n s"
proof (induction n)
  case (Suc n)
  show ?case
  proof (cases "2 \<le> n")
    case True
    with Suc obtain s where s: "reachable demo_em demo_start s" "idle_with n s" by auto
    from idle_round [OF s(2)] Suc.prems(1) show ?thesis
      using execAll_reachable [OF _ s(1)] by fastforce
  next
    case False
    with Suc.prems have n: "Suc n = 2" by simp
    let ?evs = "[EvTop, demo_attach 80 24, EvTop]"
    have "execAll demo_em ?evs demo_start = Some (the (execAll demo_em ?evs demo_start))"
      by (rule option.collapse [symmetric]) code_simp
    moreover have "idle_with 2 (the (execAll demo_em ?evs demo_start))" by code_simp
    ultimately show ?thesis using execAll_reachable [OF _ reachable_start] n by metis
  qed
qed simp


text \<open>
  C23. The exit code comes last and after all output: when the process has ended, a client that
  was attached and whose connection did not fail has, once its writer is through, received every
  chunk since its screen dump and then \<open>Exited\<close> with the exit code as its final message; a writer
  that is not through yet still holds exactly the missing chunks.
\<close>

theorem session_exit_after_output:
  assumes "fresh_session s0" and "reachable em s0 s" and "se_exited s" and "r \<in> set (se_clients s)"
  shows "(cl_writeDone (se_heap s r) \<and> \<not> cl_connClosed (se_heap s r) \<longrightarrow>
      (\<exists>w. cl_wire (se_heap s r) = w @ [MExited \<lparr>exited_ExitCode = se_exitCode s\<rparr>]
        \<and> outputs w = drop (cl_base (se_heap s r)) (se_accepted s)))
    \<and> (\<not> cl_writeDone (se_heap s r) \<longrightarrow>
        outputs (cl_wire (se_heap s r)) @ outputs (cl_out (se_heap s r)) = drop (cl_base (se_heap s r)) (se_accepted s)
        \<and> cl_final (se_heap s r) = Some (MExited \<lparr>exited_ExitCode = se_exitCode s\<rparr>) \<and> cl_outClosed (se_heap s r))"
proof -
  have "session_ok s" using reachable_ok [OF assms(2,1)] by (simp add: loop_ok_def)
  with assms(3,4) have "exit_ok (se_accepted s) (se_exitCode s) (se_heap s r)" by (simp add: session_ok_def)
  then show ?thesis by (auto simp: exit_ok_def)
qed

definition demo_exit :: "sessionEvent list" where
  "demo_exit = demo_run @ [EvTop, EvFeedSend, EvTop, EvPtyClosed 3, EvWriter 0 True, EvWriter 0 True, EvWriter 0 True, EvWriter 0 True]"

definition demo_exited :: "(byte list) session" where
  "demo_exited = the (execAll demo_em demo_exit demo_start)"

lemma demo_exit_ok: "execAll demo_em demo_exit demo_start = Some demo_exited"
  unfolding demo_exited_def by (rule option.collapse [symmetric]) code_simp

theorem session_exit_after_output_witness:
  "\<exists>w. cl_wire (se_heap demo_exited 0) = w @ [MExited \<lparr>exited_ExitCode = 3\<rparr>] \<and> outputs w = [[104, 105], [33]]"
proof -
  have r: "reachable demo_em demo_start demo_exited"
    using execAll_reachable [OF demo_exit_ok reachable_start] .
  have "se_exited demo_exited" "0 \<in> set (se_clients demo_exited)" "cl_writeDone (se_heap demo_exited 0)"
      "\<not> cl_connClosed (se_heap demo_exited 0)"
    unfolding demo_exited_def by code_simp+
  moreover have "se_exitCode demo_exited = 3 \<and> drop (cl_base (se_heap demo_exited 0)) (se_accepted demo_exited) = [[104, 105], [33]]"
    unfolding demo_exited_def by code_simp
  ultimately show ?thesis using session_exit_after_output [OF demo_fresh r, of 0] by simp
qed

section \<open>Sizes\<close>

lemma sessionSize_frame: "heap_frame s s' \<Longrightarrow> sessionSize s' = sessionSize s"
  using heap_frameD(16) [of s s'] by (simp add: sessionSize_def)

lemma resizeTo_fields [simp]:
  "se_heap (resizeTo em sz s) = se_heap s" "se_clients (resizeTo em sz s) = se_clients s"
  "se_policy (resizeTo em sz s) = se_policy s"
  by (simp_all add: resizeTo_def resize_def setSize_def Let_def split: prod.splits)

text \<open>The session has the size its policy gives for the clients that may resize it.\<close>

definition size_agrees :: "'t session \<Rightarrow> bool" where
  "size_agrees s \<longleftrightarrow> (let sizes = collectClientSizes (se_heap s) (se_clients s)
     in sizes \<noteq> [] \<longrightarrow> sessionSize s = (cols (applyResizePolicy (se_policy s) sizes), rows (applyResizePolicy (se_policy s) sizes)))"

lemma arbitrateResize_agrees: "size_agrees (arbitrateResize em s)"
  by (auto simp: size_agrees_def arbitrateResize_def Let_def sessionSize_resizeTo)

text \<open>Queueing messages changes neither sizes nor read-only flags.\<close>

lemma notifyEach_sizes:
  "cl_size (se_heap (notifyEach cs m s) r) = cl_size (se_heap s r)
   \<and> cl_readOnly (se_heap (notifyEach cs m s) r) = cl_readOnly (se_heap s r)
   \<and> se_sizeVal (notifyEach cs m s) = se_sizeVal s \<and> se_clients (notifyEach cs m s) = se_clients s
   \<and> se_policy (notifyEach cs m s) = se_policy s"
proof (induction cs arbitrary: s)
  case (Cons c cs)
  then show ?case by (simp add: chanSend_def modClient_def)
qed simp

lemma notify_agrees: "size_agrees s \<Longrightarrow> size_agrees (notifyClientsChanged s)"
  by (simp add: size_agrees_def notifyClientsChanged_def Let_def collectClientSizes_def notifyEach_sizes sessionSize_def)



lemma fold_minSize:
  "foldl minSize z sizes = \<lparr>cols = fold min (map cols sizes) (cols z), rows = fold min (map rows sizes) (rows z),
     xpixel = fold min (map xpixel sizes) (xpixel z), ypixel = fold min (map ypixel sizes) (ypixel z)\<rparr>"
  by (induction sizes arbitrary: z) (simp_all add: minSize_def min.commute)

lemma fold_maxSize:
  "foldl maxSize z sizes = \<lparr>cols = fold max (map cols sizes) (cols z), rows = fold max (map rows sizes) (rows z),
     xpixel = fold max (map xpixel sizes) (xpixel z), ypixel = fold max (map ypixel sizes) (ypixel z)\<rparr>"
  by (induction sizes arbitrary: z) (simp_all add: maxSize_def max.commute)

lemma fold_min_Min: "xs \<noteq> [] \<Longrightarrow> fold min xs (0xFFFF :: u16) = Min (set xs)"
proof -
  assume xs: "xs \<noteq> []"
  have "(0xFFFF :: u16) = - 1" by simp
  then have top: "x \<le> (0xFFFF :: u16)" for x using word_n1_ge [of x] by (simp only:)
  have "fold min xs (0xFFFF :: u16) = Min (set (0xFFFF # xs))" by (simp only: Min.set_eq_fold)
  also have "\<dots> = Min (set xs)" using xs top by (simp add: Min_insert min_absorb2)
  finally show ?thesis .
qed

lemma fold_max_Max: "xs \<noteq> [] \<Longrightarrow> fold max xs (0 :: u16) = Max (set xs)"
proof -
  assume xs: "xs \<noteq> []"
  have "fold max xs (0 :: u16) = Max (set (0 # xs))" by (simp only: Max.set_eq_fold)
  also have "\<dots> = Max (set xs)" using xs by (simp add: Max_insert max_absorb2)
  finally show ?thesis .
qed

text \<open>
  What the resize policies mean: "smallest" is the minimum of the clients' sizes in each
  dimension, "largest" the maximum, "first" and "last" the size of the client that attached first
  and last; any other policy text behaves as "smallest".
\<close>

theorem applyResizePolicy_meaning:
  assumes "sizes \<noteq> []"
  shows "applyResizePolicy ResizePolicyFirst sizes = hd sizes
    \<and> applyResizePolicy ResizePolicyLast sizes = last sizes
    \<and> applyResizePolicy ResizePolicyLargest sizes =
      \<lparr>cols = Max (cols ` set sizes), rows = Max (rows ` set sizes),
       xpixel = Max (xpixel ` set sizes), ypixel = Max (ypixel ` set sizes)\<rparr>
    \<and> (\<forall>policy. policy \<notin> {ResizePolicyFirst, ResizePolicyLast, ResizePolicyLargest} \<longrightarrow>
      applyResizePolicy policy sizes =
      \<lparr>cols = Min (cols ` set sizes), rows = Min (rows ` set sizes),
       xpixel = Min (xpixel ` set sizes), ypixel = Min (ypixel ` set sizes)\<rparr>)"
  using assms
  by (simp add: applyResizePolicy_def ResizePolicyFirst_def ResizePolicyLast_def ResizePolicyLargest_def
      hd_conv_nth last_conv_nth fold_minSize fold_maxSize fold_min_Min fold_max_Max)

theorem applyResizePolicy_meaning_witness:
  "applyResizePolicy ResizePolicySmallest
      [\<lparr>cols = 80, rows = 50, xpixel = 0, ypixel = 0\<rparr>, \<lparr>cols = 100, rows = 24, xpixel = 0, ypixel = 0\<rparr>]
    = \<lparr>cols = 80, rows = 24, xpixel = 0, ypixel = 0\<rparr>"
  using applyResizePolicy_meaning
    [of "[\<lparr>cols = 80, rows = 50, xpixel = 0, ypixel = 0\<rparr>, \<lparr>cols = 100, rows = 24, xpixel = 0, ypixel = 0\<rparr>]"]
  by (simp add: ResizePolicySmallest_def ResizePolicyFirst_def ResizePolicyLast_def ResizePolicyLargest_def)

text \<open>
  A client whose connection fails leaves its size behind. The loop removes such a client without
  arbitrating the size again, and the detach request the server sends afterwards finds it gone
  and does nothing: here a session with policy "smallest" stays at the 80x24 of a client that no
  longer exists although the only client left is 100x50, and it is told 80x24.
\<close>

theorem failed_client_keeps_size:
  "\<exists>evs s. execAll demo_em evs demo_start = Some s \<and> last evs = EvTop
    \<and> EvWriter 0 False \<in> set evs \<and> EvAction (DetachReq 0) \<in> set evs
    \<and> se_clients s = [1] \<and> cl_size (se_heap s 1) = \<lparr>cols = 100, rows = 50, xpixel = 0, ypixel = 0\<rparr>
    \<and> sessionSize s = (80, 24)
    \<and> last (cl_out (se_heap s 1)) = MClientsChanged \<lparr>clientsChanged_Count = 1, clientsChanged_Cols = 80, clientsChanged_Rows = 24\<rparr>
    \<and> \<not> size_agrees s"
proof -
  let ?evs = "[EvTop, demo_attach 80 24, EvTop, demo_attach 100 50, EvWriter 0 False, EvTop,
    EvAction (DetachReq 0), EvTop]"
  let ?s = "the (execAll demo_em ?evs demo_start)"
  have "execAll demo_em ?evs demo_start = Some ?s" by (rule option.collapse [symmetric]) code_simp
  moreover have "se_clients ?s = [1]" "cl_size (se_heap ?s 1) = \<lparr>cols = 100, rows = 50, xpixel = 0, ypixel = 0\<rparr>"
      "sessionSize ?s = (80, 24)"
      "last (cl_out (se_heap ?s 1)) = MClientsChanged \<lparr>clientsChanged_Count = 1, clientsChanged_Cols = 80, clientsChanged_Rows = 24\<rparr>"
      "\<not> size_agrees ?s"
    by code_simp+
  ultimately show ?thesis by (intro exI [of _ ?evs] exI [of _ ?s] conjI) simp_all
qed

end
