(* ===== verification/State_File.thy ===== *)
theory State_File
  imports Wire_Encoding
begin

text \<open>
  The state file format of \<open>internal/daemon/persist.go\<close>:
  \<open>[HTST][version u8][cols u16][rows u16][saved_at u64][snapshot_length u32][snapshot]\<close>.
  \<open>SavedAt\<close> is kept as the 64-bit Unix time that \<open>SavedAt.Unix()\<close> gives; the file has no
  fraction of a second.
\<close>

definition stateMagic :: "byte list" where
  "stateMagic = bytes_of_string ''HTST''"

definition stateVersion :: u8 where
  "stateVersion = 2"

definition maxStateSnapshotBytes :: nat where
  "maxStateSnapshotBytes = 128 * 2 ^ 20"

record sessionState =
  st_Cols :: u16
  st_Rows :: u16
  st_SavedAt :: u64
  st_Snapshot :: "byte list"

definition encodeState :: "sessionState \<Rightarrow> byte list result" where
  "encodeState s =
     (if length (st_Snapshot s) = 0 then Inl (Errorf ''persist: snapshot is empty'')
      else if length (st_Snapshot s) > maxStateSnapshotBytes
      then Inl (Errorf (''persist: snapshot too large: ''
             @ string_of_nat (length (st_Snapshot s)) @ '' bytes''))
      else Inr (stateMagic @ [stateVersion] @ putUint16 (st_Cols s) @ putUint16 (st_Rows s)
             @ putUint64 (st_SavedAt s) @ putUint32 (of_nat (length (st_Snapshot s)))
             @ st_Snapshot s))"

text \<open>\<open>fmt.Errorf("ctx: %w", err)\<close> around a reader.\<close>

definition dwrap :: "string \<Rightarrow> 'a dec \<Rightarrow> 'a dec" where
  "dwrap ctx d bs = (case d bs of (Inl e, r) \<Rightarrow> (Inl (Wrap ctx e), r) | (Inr v, r) \<Rightarrow> (Inr v, r))"

definition hexText :: "byte list \<Rightarrow> string" where
  "hexText bs = concat (map hex02 bs)"

definition ReadU64 :: "u64 dec" where
  "ReadU64 = dbind (readFull 8) (\<lambda>b. dret (getUint64 b))"

text \<open>What \<open>decodeState\<close> reads behind the magic.\<close>

definition decodeStateFields :: "sessionState dec" where
  "decodeStateFields =
     dbind (dwrap ''persist: read version'' ReadU8) (\<lambda>version.
     if version \<noteq> stateVersion
     then dfail (Errorf (''persist: unsupported version '' @ string_of_nat (unat version)))
     else dbind (dwrap ''persist: read cols'' ReadU16) (\<lambda>cls.
     dbind (dwrap ''persist: read rows'' ReadU16) (\<lambda>rws.
     dbind (dwrap ''persist: read saved_at'' ReadU64) (\<lambda>savedAtUnix.
     dbind (dwrap ''persist: read snapshot'' ReadU32) (\<lambda>snapshotLen.
     if snapshotLen = 0 then dfail (Errorf ''persist: snapshot is empty'')
     else if unat snapshotLen > maxStateSnapshotBytes
     then dfail (Errorf (''persist: snapshot too large: ''
            @ string_of_nat (unat snapshotLen) @ '' bytes''))
     else dbind (dwrap ''persist: read snapshot'' (readFull (unat snapshotLen))) (\<lambda>snapshot.
     dret \<lparr>st_Cols = cls, st_Rows = rws, st_SavedAt = savedAtUnix, st_Snapshot = snapshot\<rparr>))))))"

definition decodeState :: "byte list \<Rightarrow> sessionState result" where
  "decodeState data =
     (if length data < 4 then Inl (Errorf ''persist: state file too short'')
      else if take 4 data \<noteq> stateMagic
      then Inl (Errorf (''persist: bad magic '' @ hexText (take 4 data)))
      else fst (decodeStateFields (drop 4 data)))"

definition state_ok :: "sessionState \<Rightarrow> bool" where
  "state_ok s \<longleftrightarrow> st_Snapshot s \<noteq> [] \<and> length (st_Snapshot s) \<le> maxStateSnapshotBytes"

section \<open>Lemmas\<close>

lemma length_stateMagic [simp]: "length stateMagic = 4"
  by (simp add: stateMagic_def)

lemma dwrap_ok [codec_simps]: "d bs = (Inr v, r) \<Longrightarrow> dwrap ctx d bs = (Inr v, r)"
  by (simp add: dwrap_def)

lemma ReadU64_put [codec_simps]: "ReadU64 (putUint64 v @ r) = (Inr v, r)"
  by (simp add: ReadU64_def dbind_def dret_def codec_simps)

lemma extends_dwrap [dec_intros]: "extends d \<Longrightarrow> extends (dwrap ctx d)"
  by (auto simp: extends_def dwrap_def split: prod.splits sum.splits)

lemma extends_ReadU64 [dec_intros]: "extends ReadU64"
  unfolding ReadU64_def by (intro dec_intros)

lemma state_snapshot_length:
  assumes "state_ok s"
  shows "unat (of_nat (length (st_Snapshot s)) :: u32) = length (st_Snapshot s)"
    and "(of_nat (length (st_Snapshot s)) :: u32) \<noteq> 0"
proof -
  from assms have b: "length (st_Snapshot s) < 2 ^ LENGTH(32)"
    by (simp add: state_ok_def maxStateSnapshotBytes_def)
  then show "unat (of_nat (length (st_Snapshot s)) :: u32) = length (st_Snapshot s)"
    by (rule unat_of_nat_small)
  from b assms show "(of_nat (length (st_Snapshot s)) :: u32) \<noteq> 0"
    by (simp add: of_nat_eq_0_small state_ok_def del: of_nat_eq_0_iff)
qed

definition state_bytes :: "sessionState \<Rightarrow> byte list" where
  "state_bytes s = stateMagic @ [stateVersion] @ putUint16 (st_Cols s) @ putUint16 (st_Rows s)
     @ putUint64 (st_SavedAt s) @ putUint32 (of_nat (length (st_Snapshot s))) @ st_Snapshot s"

lemma encodeState_iff: "encodeState s = Inr data \<longleftrightarrow> state_ok s \<and> data = state_bytes s"
  by (auto simp: encodeState_def state_ok_def state_bytes_def)

lemma decodeState_state_bytes:
  assumes "state_ok s"
  shows "decodeState (state_bytes s @ r) = Inr s"
  using state_snapshot_length [OF assms] assms
  by (simp add: decodeState_def decodeStateFields_def state_bytes_def state_ok_def dbind_def dret_def codec_simps
      del: of_nat_eq_0_iff)

lemma dwrap_SomeD: "dwrap ctx d bs = (Inr v, r) \<Longrightarrow> d bs = (Inr v, r)"
  by (auto simp: dwrap_def split: prod.splits sum.splits)

lemma dbind_SomeD: "dbind d f bs = (Inr v, r) \<Longrightarrow> \<exists>u q. d bs = (Inr u, q) \<and> f u q = (Inr v, r)"
  by (auto simp: dbind_def split: prod.splits sum.splits)

lemma read_exact:
  "ReadU8 bs = (Inr a, r) \<Longrightarrow> bs = a # r"
  "ReadU16 bs = (Inr b, r) \<Longrightarrow> bs = putUint16 b @ r"
  "ReadU32 bs = (Inr c, r) \<Longrightarrow> bs = putUint32 c @ r"
  "ReadU64 bs = (Inr d, r) \<Longrightarrow> bs = putUint64 d @ r"
  unfolding ReadU8_def ReadU16_def ReadU32_def ReadU64_def
  by (auto dest!: dbind_SomeD readFull_SomeD
      simp: dret_def putUint16_get putUint32_get putUint64_get length_Suc_conv)

lemma decodeState_sound:
  assumes "decodeState data = Inr s"
  shows "state_ok s \<and> (\<exists>t. data = state_bytes s @ t)"
proof -
  from assms have magic: "data = stateMagic @ drop 4 data"
    by (auto simp: decodeState_def split: if_splits) (metis append_take_drop_id)
  from assms have "fst (decodeStateFields (drop 4 data)) = Inr s"
    by (auto simp: decodeState_def split: if_splits)
  then obtain r where "decodeStateFields (drop 4 data) = (Inr s, r)"
    by (cases "decodeStateFields (drop 4 data)") simp
  then obtain c rw sa n snap t where parts:
      "drop 4 data = stateVersion # putUint16 c @ putUint16 rw @ putUint64 sa @ putUint32 n @ snap @ t"
      "length snap = unat n" "n \<noteq> 0" "unat n \<le> maxStateSnapshotBytes"
      "s = \<lparr>st_Cols = c, st_Rows = rw, st_SavedAt = sa, st_Snapshot = snap\<rparr>"
    unfolding decodeStateFields_def
    by (auto dest!: dbind_SomeD dwrap_SomeD read_exact readFull_SomeD
        simp: dret_def dfail_def not_less split: if_splits)
  have "(of_nat (length snap) :: u32) = n" using parts(2) by simp
  moreover have "snap \<noteq> []" using parts(2,3) by (auto simp: unat_eq_zero)
  ultimately show ?thesis
    using parts magic by (auto simp: state_ok_def state_bytes_def intro!: exI [of _ t])
qed

section \<open>Properties\<close>

text \<open>
  C12. State files round-trip: whatever \<open>encodeState\<close> accepts, \<open>decodeState\<close> reads back as the
  same state, also with bytes behind it.
\<close>

theorem state_file_roundtrip:
  assumes "encodeState s = Inr data"
  shows "decodeState (data @ extra) = Inr s"
  using assms by (simp add: encodeState_iff decodeState_state_bytes)

definition demo_state :: sessionState where
  "demo_state = \<lparr>st_Cols = 80, st_Rows = 24, st_SavedAt = 1700000000, st_Snapshot = [1, 2, 3]\<rparr>"

lemma demo_state_ok: "state_ok demo_state"
  by (simp add: state_ok_def demo_state_def maxStateSnapshotBytes_def)

theorem state_file_roundtrip_witness:
  "\<exists>data. encodeState demo_state = Inr data \<and> decodeState (data @ [9]) = Inr demo_state"
  using state_file_roundtrip [of demo_state "state_bytes demo_state" "[9]"] demo_state_ok
  by (auto simp: encodeState_iff)

text \<open>
  C13. \<open>decodeState\<close> accepts nothing but state files: a file it accepts starts with the encoding
  of the state it returns, and a truncated state file is refused.
\<close>

theorem decodeState_accepts_only_encodings:
  "(decodeState data = Inr s \<longrightarrow> (\<exists>t. \<exists>file. encodeState s = Inr file \<and> data = file @ t))
    \<and> (encodeState s = Inr (data @ q) \<and> q \<noteq> [] \<longrightarrow> \<not> is_ok (decodeState data))"
proof (intro conjI impI)
  assume "decodeState data = Inr s"
  from decodeState_sound [OF this] show "\<exists>t file. encodeState s = Inr file \<and> data = file @ t"
    by (auto simp: encodeState_iff)
next
  assume h: "encodeState s = Inr (data @ q) \<and> q \<noteq> []"
  then have s: "state_ok s" "state_bytes s = data @ q" by (auto simp: encodeState_iff)
  show "\<not> is_ok (decodeState data)"
  proof
    assume "is_ok (decodeState data)"
    then obtain s' where "decodeState data = Inr s'" by (auto simp: is_ok_iff)
    then obtain t where s': "state_ok s'" "data = state_bytes s' @ t"
      using decodeState_sound by blast
    then have "decodeState (state_bytes s) = Inr s'"
      by (simp add: s(2) decodeState_state_bytes)
    then have "s' = s" using decodeState_state_bytes [OF s(1), of "[]"] by simp
    with s s' h show False by simp
  qed
qed

theorem decodeState_accepts_only_encodings_witness:
  "\<not> is_ok (decodeState (butlast (state_bytes demo_state)))"
proof -
  have "state_bytes demo_state \<noteq> []"
    by (simp add: state_bytes_def)
  then have "state_bytes demo_state = butlast (state_bytes demo_state) @ [last (state_bytes demo_state)]"
    by simp
  then have "encodeState demo_state =
      Inr (butlast (state_bytes demo_state) @ [last (state_bytes demo_state)])"
    using demo_state_ok by (simp add: encodeState_iff)
  then show ?thesis using decodeState_accepts_only_encodings by blast
qed

end
