(* ===== verification/Go_Paths.thy ===== *)
theory Go_Paths
  imports Ht_Prelude
begin

text \<open>
  Lexical facts about \<open>filepath.Clean\<close> and \<open>filepath.Join\<close>, for the components that build file
  names: cleaning is idempotent, and joining a clean directory with a plain file name only
  appends the name. \<open>parentDir\<close> and \<open>entryIn\<close> are how the operating system reads a clean path.
\<close>

definition parentDir :: "string \<Rightarrow> string" where
  "parentDir p =
     (let q = rev (dropWhile (\<lambda>c. c \<noteq> CHR ''/'') (rev p))
      in if q = [] then ''.'' else if q = ''/'' then ''/'' else butlast q)"

text \<open>A file name: one path component that cleaning keeps.\<close>

definition file_name :: "string \<Rightarrow> bool" where
  "file_name c \<longleftrightarrow> c \<noteq> [] \<and> c \<noteq> ''.'' \<and> c \<noteq> ''..'' \<and> CHR ''/'' \<notin> set c"

section \<open>Splitting and joining\<close>

lemma splitOn_not_Nil [simp]: "splitOn c s \<noteq> []"
  by (cases s) (auto split: list.splits)

lemma splitOn_no_sep: "c \<notin> set s \<Longrightarrow> splitOn c s = [s]"
  by (induction s) auto

lemma splitOn_append: "splitOn c (a @ c # b) = splitOn c a @ splitOn c b"
proof (induction a)
  case (Cons x a)
  show ?case
  proof (cases "splitOn c a")
    case Nil
    then show ?thesis by simp
  next
    case (Cons w ws)
    with Cons.IH show ?thesis by simp
  qed
qed simp

lemma splitOn_pieces: "w \<in> set (splitOn c s) \<Longrightarrow> c \<notin> set w"
proof (induction s arbitrary: w)
  case (Cons x s)
  then show ?case by (cases "splitOn c s") (auto split: if_splits)
qed simp

lemma joinWith_Cons: "xs \<noteq> [] \<Longrightarrow> joinWith sep (x # xs) = x @ sep @ joinWith sep xs"
  by (cases xs) simp_all

lemma joinWith_snoc: "joinWith sep (xs @ [x]) = (if xs = [] then x else joinWith sep xs @ sep @ x)"
proof (induction xs)
  case (Cons y ys)
  then show ?case by (cases "ys = []") (simp_all add: joinWith_Cons)
qed simp

lemma splitOn_joinWith:
  "xs \<noteq> [] \<Longrightarrow> \<forall>w \<in> set xs. c \<notin> set w \<Longrightarrow> splitOn c (joinWith [c] xs) = xs"
proof (induction xs)
  case (Cons x xs)
  show ?case
  proof (cases "xs = []")
    case True
    with Cons.prems show ?thesis by (simp add: splitOn_no_sep)
  next
    case False
    with Cons show ?thesis
      by (simp add: joinWith_Cons splitOn_append splitOn_no_sep)
  qed
qed simp

lemma joinWith_Nil_iff:
  assumes "\<forall>w \<in> set xs. w \<noteq> []"
  shows "joinWith sep xs = [] \<longleftrightarrow> xs = []"
proof (cases xs)
  case (Cons x ys)
  with assms show ?thesis by (cases ys) simp_all
qed simp

lemma hd_joinWith:
  assumes "\<forall>w \<in> set xs. w \<noteq> []" and "xs \<noteq> []"
  shows "hd (joinWith sep xs) = hd (hd xs)"
proof (cases xs)
  case (Cons x ys)
  with assms show ?thesis by (cases ys) simp_all
qed (use assms in simp)

section \<open>Cleaning\<close>

text \<open>The shape of cleaned components: climbing first (never in a rooted path), then names.\<close>

definition clean_shape :: "bool \<Rightarrow> string list \<Rightarrow> bool" where
  "clean_shape rooted xs \<longleftrightarrow> (\<exists>k names. xs = replicate k ''..'' @ names
     \<and> (rooted \<longrightarrow> k = 0) \<and> (\<forall>c \<in> set names. file_name c))"

lemma clean_shape_snoc: "clean_shape r xs \<Longrightarrow> file_name c \<Longrightarrow> clean_shape r (xs @ [c])"
proof -
  assume "clean_shape r xs" and c: "file_name c"
  then obtain k names where "xs = replicate k ''..'' @ names" "r \<longrightarrow> k = 0" "\<forall>c \<in> set names. file_name c"
    by (auto simp: clean_shape_def)
  with c show ?thesis
    unfolding clean_shape_def by (intro exI [of _ k] exI [of _ "names @ [c]"]) auto
qed

lemma clean_shape_butlast:
  assumes "clean_shape r (xs @ [c])" and "c \<noteq> ''..''"
  shows "clean_shape r xs"
proof -
  from assms(1) obtain k names where kn: "xs @ [c] = replicate k ''..'' @ names"
      "r \<longrightarrow> k = 0" "\<forall>c \<in> set names. file_name c"
    by (auto simp: clean_shape_def)
  have "names \<noteq> []"
  proof
    assume "names = []"
    with kn(1) have "c \<in> set (replicate k ''..'')" by (metis append_Nil2 in_set_conv_decomp)
    with assms(2) show False by auto
  qed
  then obtain ys where "names = ys @ [c]" and "xs = replicate k ''..'' @ ys"
    using kn(1) by (metis append_butlast_last_id append_eq_append_conv_if butlast_append butlast_snoc last_appendR last_snoc)
  with kn show ?thesis by (auto simp: clean_shape_def)
qed

lemma clean_shape_dots:
  assumes "clean_shape False xs" and "xs = [] \<or> last xs = ''..''"
  shows "clean_shape False (xs @ [''..''])"
proof -
  from assms(1) obtain k names where kn: "xs = replicate k ''..'' @ names" "\<forall>c \<in> set names. file_name c"
    by (auto simp: clean_shape_def)
  have "names = []"
  proof (rule ccontr)
    assume "names \<noteq> []"
    with kn assms(2) have "file_name ''..''" by (metis append_is_Nil_conv last_appendR last_in_set)
    then show False by (simp add: file_name_def)
  qed
  with kn show ?thesis
    unfolding clean_shape_def
    by (intro exI [of _ "Suc k"] exI [of _ "[]"]) (simp add: replicate_append_same)
qed

lemma rooted_no_dots: "clean_shape True xs \<Longrightarrow> c \<in> set xs \<Longrightarrow> file_name c"
  by (auto simp: clean_shape_def)

lemma cleanComps_shape:
  assumes "clean_shape r (rev stack)" and "\<forall>c \<in> set cs. CHR ''/'' \<notin> set c"
  shows "clean_shape r (cleanComps r stack cs)"
  using assms
proof (induction r stack cs rule: cleanComps.induct)
  case (1 rooted stack)
  then show ?case by simp
next
  case (2 rooted stack c cs)
  have "c = [] \<or> c = ''.'' \<or> c = ''..'' \<or> file_name c"
    using "2.prems"(2) by (auto simp: file_name_def)
  then consider (skip) "c = [] \<or> c = ''.''" | (up) "c = ''..''" | (name) "file_name c"
    by blast
  then show ?case
  proof cases
    case skip
    with 2 show ?thesis by simp
  next
    case name
    with 2 clean_shape_snoc [OF "2.prems"(1) name] show ?thesis by (auto simp: file_name_def)
  next
    case up
    show ?thesis
    proof (cases stack)
      case Nil
      have "clean_shape rooted (rev (if rooted then [] else [c]))"
        using up clean_shape_dots [of "[]"] by (auto simp: clean_shape_def)
      with 2(2) up Nil "2.prems"(2) show ?thesis by (cases rooted) simp_all
    next
      case (Cons d ds)
      show ?thesis
      proof (cases "d = ''..''")
        case True
        have "\<not> rooted"
          using "2.prems"(1) Cons True rooted_no_dots [of "rev stack" d] by (auto simp: file_name_def)
        with "2.prems"(1) Cons True up have "clean_shape rooted (rev (c # stack))"
          using clean_shape_dots [of "rev stack"] by simp
        with 2(3) up Cons True "2.prems"(2) show ?thesis by simp
      next
        case False
        with "2.prems"(1) Cons have "clean_shape rooted (rev ds)"
          using clean_shape_butlast [of rooted "rev ds" d] by simp
        with 2(4) up Cons False "2.prems"(2) show ?thesis by simp
      qed
    qed
  qed
qed

lemma cleanComps_names:
  "\<forall>c \<in> set names. file_name c \<Longrightarrow> cleanComps r stack (names @ cs) = cleanComps r (rev names @ stack) cs"
  by (induction names arbitrary: stack) (auto simp: file_name_def)

lemma cleanComps_ups:
  "\<forall>d \<in> set stack. d = ''..'' \<Longrightarrow>
     cleanComps False stack (replicate k ''..'' @ cs) = cleanComps False (replicate k ''..'' @ stack) cs"
proof (induction k arbitrary: stack)
  case (Suc k)
  then have "cleanComps False stack (''..'' # replicate k ''..'' @ cs) =
      cleanComps False (''..'' # stack) (replicate k ''..'' @ cs)"
    by (cases stack) auto
  with Suc show ?case by (simp add: replicate_app_Cons_same)
qed simp

lemma cleanComps_id: "clean_shape r xs \<Longrightarrow> cleanComps r [] xs = xs"
proof -
  assume "clean_shape r xs"
  then obtain k names where kn: "xs = replicate k ''..'' @ names" "r \<longrightarrow> k = 0" "\<forall>c \<in> set names. file_name c"
    by (auto simp: clean_shape_def)
  have names: "cleanComps r stack names = rev stack @ names" for stack
    using cleanComps_names [OF kn(3), of r stack "[]"] by simp
  show ?thesis
  proof (cases r)
    case True
    with kn names show ?thesis by simp
  next
    case False
    with kn names cleanComps_ups [of "[]" k names] show ?thesis by simp
  qed
qed

lemma cleanComps_snoc: "file_name c \<Longrightarrow> cleanComps r stack (xs @ [c]) = cleanComps r stack xs @ [c]"
  by (induction r stack xs rule: cleanComps.induct) (auto simp: file_name_def split: list.splits)

section \<open>Joining a directory and a file name\<close>

definition pathComps :: "string \<Rightarrow> string list" where
  "pathComps p = cleanComps (hasPrefix p ''/'') [] (splitOn CHR ''/'' p)"

text \<open>What stands before the file name in a path of the directory.\<close>

definition dirPrefix :: "string \<Rightarrow> string" where
  "dirPrefix d = (if hasPrefix d ''/'' then ''/'' else [])
     @ (if pathComps d = [] then [] else joinWith ''/'' (pathComps d) @ ''/'')"

lemma pathComps_shape: "clean_shape (hasPrefix p ''/'') (pathComps p)"
  unfolding pathComps_def
  by (rule cleanComps_shape) (auto simp: clean_shape_def dest: splitOn_pieces)

lemma clean_shape_mem:
  assumes "clean_shape r xs" and "w \<in> set xs"
  shows "w = ''..'' \<or> file_name w"
proof -
  from assms(1) obtain k names where kn: "xs = replicate k ''..'' @ names" "\<forall>c \<in> set names. file_name c"
    unfolding clean_shape_def by blast
  from assms(2) show ?thesis unfolding kn(1) using kn(2)
    by (metis Un_iff in_set_replicate set_append)
qed

lemma clean_shape_pieces: "clean_shape r xs \<Longrightarrow> w \<in> set xs \<Longrightarrow> w \<noteq> [] \<and> CHR ''/'' \<notin> set w"
  using clean_shape_mem [of r xs w] by (auto simp: file_name_def)

lemma hasPrefix_slash: "hasPrefix p ''/'' \<longleftrightarrow> p \<noteq> [] \<and> hd p = CHR ''/''"
  by (cases p) (auto simp: hasPrefix_def)

lemma filepathClean_alt:
  "filepathClean p =
     (if hasPrefix p ''/'' then ''/'' @ joinWith ''/'' (pathComps p)
      else if pathComps p = [] then ''.'' else joinWith ''/'' (pathComps p))"
proof -
  have "joinWith ''/'' (pathComps p) = [] \<longleftrightarrow> pathComps p = []"
    using clean_shape_pieces [OF pathComps_shape, of _ p] by (intro joinWith_Nil_iff) auto
  then show ?thesis unfolding filepathClean_def Let_def pathComps_def [symmetric] by simp
qed

lemma filepathClean_not_Nil [simp]: "filepathClean p \<noteq> []"
  using joinWith_Nil_iff [of "pathComps p" "''/''"] clean_shape_pieces [OF pathComps_shape, of _ p]
  by (auto simp: filepathClean_alt)

lemma splitOn_pathComps:
  "pathComps p \<noteq> [] \<Longrightarrow> splitOn CHR ''/'' (joinWith ''/'' (pathComps p)) = pathComps p"
  using clean_shape_pieces [OF pathComps_shape, of _ p] by (intro splitOn_joinWith) auto

lemma rooted_filepathClean: "hasPrefix (filepathClean p) ''/'' \<longleftrightarrow> hasPrefix p ''/''"
proof (cases "hasPrefix p ''/'' \<or> pathComps p = []")
  case True
  then show ?thesis by (auto simp: filepathClean_alt hasPrefix_slash)
next
  case False
  then have ne: "pathComps p \<noteq> []" and r: "\<not> hasPrefix p ''/''" by auto
  have all: "\<forall>w \<in> set (pathComps p). w \<noteq> []" and "CHR ''/'' \<notin> set (hd (pathComps p))"
    using clean_shape_pieces [OF pathComps_shape, of _ p] ne by auto
  moreover from all ne have "hd (pathComps p) \<noteq> []" by simp
  ultimately have "hd (joinWith ''/'' (pathComps p)) \<noteq> CHR ''/''"
    using hd_joinWith [OF all ne, of "''/''"] by (metis hd_in_set)
  with ne r show ?thesis by (simp add: filepathClean_alt hasPrefix_slash)
qed

lemma pathComps_filepathClean: "pathComps (filepathClean p) = pathComps p"
proof -
  have id: "cleanComps (hasPrefix p ''/'') [] (pathComps p) = pathComps p"
    by (rule cleanComps_id [OF pathComps_shape])
  have "cleanComps r [] (splitOn CHR ''/'' (''/'' @ s)) = cleanComps r [] (splitOn CHR ''/'' s)" for r s
    by simp
  with id show ?thesis
    unfolding pathComps_def [of "filepathClean p"] rooted_filepathClean
    by (cases "pathComps p = []") (auto simp: filepathClean_alt splitOn_pathComps)
qed

lemma dirPrefix_clean [simp]: "dirPrefix (filepathClean d) = dirPrefix d"
  by (simp add: dirPrefix_def rooted_filepathClean pathComps_filepathClean)

lemma filepathJoin_file:
  assumes "d \<noteq> []" and "file_name c"
  shows "filepathJoin [d, c] = dirPrefix d @ c"
proof -
  let ?p = "d @ ''/'' @ c"
  have c: "CHR ''/'' \<notin> set c" "c \<noteq> []" using assms(2) by (auto simp: file_name_def)
  have "hasPrefix ?p ''/'' \<longleftrightarrow> hasPrefix d ''/''"
    using assms(1) by (simp add: hasPrefix_slash)
  then have "pathComps ?p = pathComps d @ [c]"
    using c cleanComps_snoc [OF assms(2)]
    by (simp add: pathComps_def splitOn_append splitOn_no_sep)
  then show ?thesis
    using assms(1) c \<open>hasPrefix ?p ''/'' \<longleftrightarrow> hasPrefix d ''/''\<close>
    by (simp add: filepathJoin_def filepathClean_alt dirPrefix_def joinWith_snoc)
qed

lemma dirPrefix_ends: "dirPrefix d = [] \<or> last (dirPrefix d) = CHR ''/''"
  by (simp add: dirPrefix_def)

lemma parentDir_prefix:
  assumes "CHR ''/'' \<notin> set c"
  shows "parentDir (dirPrefix d @ c) = filepathClean d"
proof -
  have "dropWhile (\<lambda>x. x \<noteq> CHR ''/'') (rev (dirPrefix d @ c)) = rev (dirPrefix d)"
  proof -
    have "dropWhile (\<lambda>x. x \<noteq> CHR ''/'') (rev c @ rev (dirPrefix d))
        = dropWhile (\<lambda>x. x \<noteq> CHR ''/'') (rev (dirPrefix d))"
      using assms by (intro dropWhile_append2) auto
    also have "\<dots> = rev (dirPrefix d)"
      using dirPrefix_ends [of d] by (cases "dirPrefix d" rule: rev_cases) auto
    finally show ?thesis by simp
  qed
  moreover have "joinWith ''/'' (pathComps d) \<noteq> []" if "pathComps d \<noteq> []"
    using joinWith_Nil_iff [of "pathComps d" "''/''"] clean_shape_pieces [OF pathComps_shape, of _ d] that
    by auto
  ultimately show ?thesis
    by (auto simp: parentDir_def dirPrefix_def filepathClean_alt Let_def butlast_append)
qed

text \<open>How a directory's text starts the paths of its entries.\<close>

definition dirText :: "string \<Rightarrow> string" where
  "dirText d = (if d = ''.'' then [] else if d = ''/'' then ''/'' else d @ ''/'')"

definition entryIn :: "string \<Rightarrow> string \<Rightarrow> string option" where
  "entryIn d p =
     (let e = drop (length (dirText d)) p
      in if hasPrefix p (dirText d) \<and> e \<noteq> [] \<and> CHR ''/'' \<notin> set e then Some e else None)"

lemma entryIn_iff: "entryIn d p = Some e \<longleftrightarrow> p = dirText d @ e \<and> e \<noteq> [] \<and> CHR ''/'' \<notin> set e"
  by (auto simp: entryIn_def Let_def hasPrefix_iff)

lemma dirText_clean: "dirText (filepathClean d) = dirPrefix d"
proof -
  have all: "\<forall>w \<in> set (pathComps d). w \<noteq> [] \<and> CHR ''/'' \<notin> set w"
    using clean_shape_pieces [OF pathComps_shape, of _ d] by auto
  then have nil: "joinWith ''/'' (pathComps d) = [] \<longleftrightarrow> pathComps d = []"
    by (intro joinWith_Nil_iff) auto
  have dot: "joinWith ''/'' (pathComps d) \<noteq> ''.''" if "pathComps d \<noteq> []"
  proof
    assume "joinWith ''/'' (pathComps d) = ''.''"
    then have "pathComps d = [''.'']" using splitOn_pathComps [OF that] by simp
    then show False
      using clean_shape_mem [OF pathComps_shape, of "''.''" d] by (simp add: file_name_def)
  qed
  have slash: "joinWith ''/'' (pathComps d) \<noteq> ''/''" if "pathComps d \<noteq> []"
  proof
    assume "joinWith ''/'' (pathComps d) = ''/''"
    then have "pathComps d = [[], []]" using splitOn_pathComps [OF that] by simp
    with all show False by simp
  qed
  show ?thesis
    using nil dot slash by (cases "pathComps d = []") (auto simp: dirText_def filepathClean_alt dirPrefix_def)
qed

end
