(* ===== verification/Persist_Store.thy ===== *)
theory Persist_Store
  imports State_File Shell_Env Go_Paths
    "HOL-Library.AList" "HOL-Library.Char_ord" "HOL-Library.List_Lexorder"
begin

text \<open>
  The state directory of \<open>internal/daemon/persist.go\<close>. A file system is an association list from
  clean paths to nodes, together with the process environment, a script of faults (one entry per
  system call, each call may fail; a write may fail half way) and the trace of elementary
  changes. A crash of the machine or the daemon leaves what a prefix of the trace produced, so
  crash safety is a statement about all prefixes.
\<close>

section \<open>The file system\<close>

datatype fsnode = Dir | File "byte list"

datatype fsevent =
    EvMkdir string
  | EvCreate string
  | EvAppend string byte
  | EvRename string string
  | EvRemove string

type_synonym fsnodes = "(string \<times> fsnode) list"

fun apply_event :: "fsevent \<Rightarrow> fsnodes \<Rightarrow> fsnodes" where
  "apply_event (EvMkdir p) n = AList.update p Dir n"
| "apply_event (EvCreate p) n = AList.update p (File []) n"
| "apply_event (EvAppend p b) n =
     (case map_of n p of Some (File d) \<Rightarrow> AList.update p (File (d @ [b])) n | _ \<Rightarrow> n)"
| "apply_event (EvRename a b) n =
     (case map_of n a of Some x \<Rightarrow> AList.update b x (AList.delete a n) | None \<Rightarrow> n)"
| "apply_event (EvRemove p) n = AList.delete p n"

text \<open>A fault is the error text of the failing call and, for a write, how many bytes got out.\<close>

type_synonym fault = "string \<times> nat option"

record fs =
  fs_env :: "string list"
  fs_nodes :: fsnodes
  fs_faults :: "fault option list"
  fs_trace :: "fsevent list"

definition nextFault :: "fs \<Rightarrow> fault option \<times> fs" where
  "nextFault w = (case fs_faults w of [] \<Rightarrow> (None, w) | f # fl \<Rightarrow> (f, w\<lparr>fs_faults := fl\<rparr>))"

definition emit :: "fsevent list \<Rightarrow> fs \<Rightarrow> fs" where
  "emit evs w = w\<lparr>fs_nodes := fold apply_event evs (fs_nodes w), fs_trace := fs_trace w @ evs\<rparr>"

definition isDir :: "fsnodes \<Rightarrow> string \<Rightarrow> bool" where
  "isDir n p \<longleftrightarrow> p = ''/'' \<or> p = ''.'' \<or> map_of n p = Some Dir"

text \<open>The directories \<open>os.MkdirAll\<close> goes through, outermost first.\<close>

definition dirPrefixes :: "string \<Rightarrow> string list" where
  "dirPrefixes p = filter (\<lambda>q. q \<noteq> []) (map (\<lambda>i. take i p)
     (filter (\<lambda>i. i = length p \<or> p ! i = CHR ''/'') [0..<Suc (length p)]))"

fun mkdirEach :: "string list \<Rightarrow> fs \<Rightarrow> unit result \<times> fs" where
  "mkdirEach [] w = (Inr (), w)"
| "mkdirEach (d # ds) w =
     (if isDir (fs_nodes w) d then mkdirEach ds w
      else if map_of (fs_nodes w) d \<noteq> None then (Inl (ErrIO ''not a directory''), w)
      else mkdirEach ds (emit [EvMkdir d] w))"

definition osMkdirAll :: "string \<Rightarrow> fs \<Rightarrow> unit result \<times> fs" where
  "osMkdirAll d w =
     (case nextFault w of
        (Some (e, _), w) \<Rightarrow> (Inl (ErrIO e), w)
      | (None, w) \<Rightarrow> mkdirEach (dirPrefixes d) w)"

definition writeEvents :: "string \<Rightarrow> byte list \<Rightarrow> fsevent list" where
  "writeEvents p data = EvCreate p # map (EvAppend p) data"

definition osWriteFile :: "string \<Rightarrow> byte list \<Rightarrow> fs \<Rightarrow> unit result \<times> fs" where
  "osWriteFile p data w =
     (case nextFault w of
        (Some (e, None), w) \<Rightarrow> (Inl (ErrIO e), w)
      | (fault, w) \<Rightarrow>
          if \<not> isDir (fs_nodes w) (parentDir p) then (Inl ErrNotExist, w)
          else if isDir (fs_nodes w) p then (Inl (ErrIO ''is a directory''), w)
          else (case fault of
                  Some (e, Some k) \<Rightarrow> (Inl (ErrIO e), emit (writeEvents p (take k data)) w)
                | _ \<Rightarrow> (Inr (), emit (writeEvents p data) w)))"

definition osRename :: "string \<Rightarrow> string \<Rightarrow> fs \<Rightarrow> unit result \<times> fs" where
  "osRename a b w =
     (case nextFault w of
        (Some (e, _), w) \<Rightarrow> (Inl (ErrIO e), w)
      | (None, w) \<Rightarrow>
          if map_of (fs_nodes w) a = None then (Inl ErrNotExist, w)
          else if isDir (fs_nodes w) b then (Inl (ErrIO ''file exists''), w)
          else (Inr (), emit [EvRename a b] w))"

definition osRemove :: "string \<Rightarrow> fs \<Rightarrow> unit result \<times> fs" where
  "osRemove p w =
     (case nextFault w of
        (Some (e, _), w) \<Rightarrow> (Inl (ErrIO e), w)
      | (None, w) \<Rightarrow>
          (case map_of (fs_nodes w) p of
             None \<Rightarrow> (Inl ErrNotExist, w)
           | Some Dir \<Rightarrow>
               if list_ex (\<lambda>q. entryIn p q \<noteq> None) (map fst (fs_nodes w))
               then (Inl (ErrIO ''directory not empty''), w)
               else (Inr (), emit [EvRemove p] w)
           | Some (File _) \<Rightarrow> (Inr (), emit [EvRemove p] w)))"

definition osReadFile :: "string \<Rightarrow> fs \<Rightarrow> byte list result \<times> fs" where
  "osReadFile p w =
     (case nextFault w of
        (Some (e, _), w) \<Rightarrow> (Inl (ErrIO e), w)
      | (None, w) \<Rightarrow>
          (case map_of (fs_nodes w) p of
             None \<Rightarrow> (Inl ErrNotExist, w)
           | Some Dir \<Rightarrow> (Inl (ErrIO ''is a directory''), w)
           | Some (File d) \<Rightarrow> (Inr d, w)))"

text \<open>\<open>os.ReadDir\<close>: the entries sorted by file name, each with whether it is a directory.\<close>

definition dirEntries :: "fsnodes \<Rightarrow> string \<Rightarrow> (string \<times> bool) list" where
  "dirEntries n d =
     map (\<lambda>e. (e, map_of n (dirText d @ e) = Some Dir))
       (sort (remdups (List.map_filter (entryIn d) (map fst n))))"

definition osReadDir :: "string \<Rightarrow> fs \<Rightarrow> (string \<times> bool) list result \<times> fs" where
  "osReadDir d w =
     (case nextFault w of
        (Some (e, _), w) \<Rightarrow> (Inl (ErrIO e), w)
      | (None, w) \<Rightarrow>
          if isDir (fs_nodes w) d then (Inr (dirEntries (fs_nodes w) d), w)
          else if map_of (fs_nodes w) d = None then (Inl ErrNotExist, w)
          else (Inl (ErrIO ''not a directory''), w))"

section \<open>The operations of persist.go\<close>

text \<open>\<open>os.UserHomeDir\<close> is \<open>$HOME\<close>, an error when it is empty; \<open>os.TempDir\<close> is \<open>$TMPDIR\<close> or /tmp.\<close>

definition stateDir :: "string list \<Rightarrow> string" where
  "stateDir env =
     (let dir = getEnv env ''XDG_STATE_HOME''
      in if dir \<noteq> [] then filepathJoin [dir, ''hauntty'', ''sessions'']
         else let home = (if getEnv env ''HOME'' \<noteq> [] then getEnv env ''HOME''
                          else if getEnv env ''TMPDIR'' \<noteq> [] then getEnv env ''TMPDIR'' else ''/tmp'')
              in filepathJoin [home, ''.local'', ''state'', ''hauntty'', ''sessions''])"

definition statePath :: "string \<Rightarrow> string \<Rightarrow> string" where
  "statePath dir name = filepathJoin [dir, name @ ''.state'']"

definition writeStateInDir :: "string \<Rightarrow> string \<Rightarrow> sessionState \<Rightarrow> fs \<Rightarrow> unit result \<times> fs" where
  "writeStateInDir dir name state w =
     (case encodeState state of
        Inl e \<Rightarrow> (Inl (Wrap ''persist: encode state'' e), w)
      | Inr data \<Rightarrow>
     (case osMkdirAll dir w of
        (Inl e, w) \<Rightarrow> (Inl (Wrap ''persist: create dir'' e), w)
      | (Inr _, w) \<Rightarrow>
     (let path = statePath dir name; tmp = path @ ''.tmp''
      in case osWriteFile tmp data w of
           (Inl e, w) \<Rightarrow> (Inl (Wrap ''persist: write tmp'' e), w)
         | (Inr _, w) \<Rightarrow>
     (case osRename tmp path w of
        (Inl e, w) \<Rightarrow> (Inl (Wrap ''persist: rename'' e), snd (osRemove tmp w))
      | (Inr _, w) \<Rightarrow> (Inr (), w)))))"

definition writeState :: "string \<Rightarrow> sessionState \<Rightarrow> fs \<Rightarrow> unit result \<times> fs" where
  "writeState name state w = writeStateInDir (stateDir (fs_env w)) name state w"

definition loadState :: "string \<Rightarrow> fs \<Rightarrow> sessionState result \<times> fs" where
  "loadState name w =
     (case osReadFile (statePath (stateDir (fs_env w)) name) w of
        (Inl e, w) \<Rightarrow> (Inl e, w)
      | (Inr data, w) \<Rightarrow> (decodeState data, w))"

definition deadNames :: "(string \<Rightarrow> bool) \<Rightarrow> (string \<times> bool) list \<Rightarrow> string list" where
  "deadNames running entries =
     List.map_filter (\<lambda>(e, isdir).
       if isdir \<or> \<not> hasSuffix e ''.state'' then None
       else let name = trimSuffix e ''.state'' in if \<not> running name then Some name else None) entries"

definition listDeadSessions :: "(string \<Rightarrow> bool) \<Rightarrow> fs \<Rightarrow> string list result \<times> fs" where
  "listDeadSessions running w =
     (case osReadDir (stateDir (fs_env w)) w of
        (Inl e, w) \<Rightarrow> if e = ErrNotExist then (Inr [], w) else (Inl e, w)
      | (Inr entries, w) \<Rightarrow> (Inr (deadNames running entries), w))"

definition cleanState :: "string \<Rightarrow> fs \<Rightarrow> unit result \<times> fs" where
  "cleanState name w =
     (case osRemove (statePath (stateDir (fs_env w)) name) w of
        (Inl e, w) \<Rightarrow> if e = ErrNotExist then (Inr (), w) else (Inl e, w)
      | (Inr _, w) \<Rightarrow> (Inr (), w))"

definition cleanEntry :: "string \<Rightarrow> string \<Rightarrow> bool \<Rightarrow> fs \<Rightarrow> fs" where
  "cleanEntry dir e isdir w =
     (if \<not> isdir \<and> hasSuffix e ''.state.tmp'' then snd (osRemove (filepathJoin [dir, e]) w) else w)"

definition cleanStaleTmp :: "fs \<Rightarrow> fs" where
  "cleanStaleTmp w =
     (let dir = stateDir (fs_env w)
      in case osReadDir dir w of
           (Inl e, w) \<Rightarrow> w
         | (Inr entries, w) \<Rightarrow>
             fold (\<lambda>(e, isdir). cleanEntry dir e isdir) entries w)"

text \<open>
  The persister: \<open>snap\<close> is the session's \<open>snapshot\<close> (the terminal emulator's, outside this
  code), \<open>sizeOf\<close> its size, \<open>now\<close> the clock. Sessions are Go's map from names, here with distinct
  keys; the errors of the sessions that could not be saved are joined.
\<close>

definition saveSession ::
  "string \<Rightarrow> u64 \<Rightarrow> ('s \<Rightarrow> byte list result) \<Rightarrow> ('s \<Rightarrow> u16 \<times> u16) \<Rightarrow> string \<Rightarrow> 's \<Rightarrow> fs \<Rightarrow> unit result \<times> fs" where
  "saveSession dir now snap sizeOf name s w =
     (case snap s of
        Inl e \<Rightarrow> (Inl (Wrap ''persist: snapshot terminal'' e), w)
      | Inr snapshot \<Rightarrow>
          let (c, r) = sizeOf s
          in writeStateInDir dir name
               \<lparr>st_Cols = c, st_Rows = r, st_SavedAt = now, st_Snapshot = snapshot\<rparr> w)"

fun saveEach ::
  "(string \<Rightarrow> 's \<Rightarrow> fs \<Rightarrow> unit result \<times> fs) \<Rightarrow> (string \<times> 's) list \<Rightarrow> string list \<Rightarrow> fs \<Rightarrow> gerror list \<times> fs" where
  "saveEach save sessions [] w = ([], w)"
| "saveEach save sessions (name # names) w =
     (case map_of sessions name of
        None \<Rightarrow> saveEach save sessions names w
      | Some s \<Rightarrow>
          (case save name s w of
             (Inl e, w) \<Rightarrow> (let (errs, w) = saveEach save sessions names w in (Wrap name e # errs, w))
           | (Inr _, w) \<Rightarrow> saveEach save sessions names w))"

definition saveAllWith ::
  "(string \<Rightarrow> 's \<Rightarrow> fs \<Rightarrow> unit result \<times> fs) \<Rightarrow> (string \<times> 's) list \<Rightarrow> fs \<Rightarrow> gerror list \<times> fs" where
  "saveAllWith save sessions w = saveEach save sessions (sort (map fst sessions)) w"

section \<open>What is stored\<close>

text \<open>The state file of a name, as a partial function of the names, and its decoded state.\<close>

definition storedIn :: "string \<Rightarrow> fsnodes \<Rightarrow> string \<Rightarrow> fsnode option" where
  "storedIn dir n name = map_of n (statePath dir name)"

definition stored :: "fs \<Rightarrow> string \<Rightarrow> fsnode option" where
  "stored w = storedIn (stateDir (fs_env w)) (fs_nodes w)"

definition plain_name :: "string \<Rightarrow> bool" where
  "plain_name name \<longleftrightarrow> CHR ''/'' \<notin> set name"

section \<open>Frames: what a call changes\<close>

fun touches :: "fsevent \<Rightarrow> string set" where
  "touches (EvMkdir p) = {p}"
| "touches (EvCreate p) = {p}"
| "touches (EvAppend p b) = {p}"
| "touches (EvRename a b) = {a, b}"
| "touches (EvRemove p) = {p}"

definition steps :: "fs \<Rightarrow> fs \<Rightarrow> fsevent list \<Rightarrow> bool" where
  "steps w w' evs \<longleftrightarrow> fs_env w' = fs_env w \<and> fs_trace w' = fs_trace w @ evs
     \<and> fs_nodes w' = fold apply_event evs (fs_nodes w)"

lemma steps_refl: "steps w w []"
  by (simp add: steps_def)

lemma steps_trans: "steps w w1 a \<Longrightarrow> steps w1 w2 b \<Longrightarrow> steps w w2 (a @ b)"
  by (simp add: steps_def)

lemma steps_emit: "steps w (emit evs w) evs"
  by (simp add: steps_def emit_def)

lemma nextFault_steps: "nextFault w = (f, w') \<Longrightarrow> steps w w' []"
  by (auto simp: nextFault_def steps_def split: list.splits)

lemma nextFault_frame:
  "nextFault w = (f, w') \<Longrightarrow>
     fs_nodes w' = fs_nodes w \<and> fs_env w' = fs_env w \<and> fs_trace w' = fs_trace w"
  by (auto simp: nextFault_def split: list.splits)

lemma apply_event_untouched: "q \<notin> touches e \<Longrightarrow> map_of (apply_event e n) q = map_of n q"
  by (cases e) (auto simp: update_conv' delete_conv' split: option.splits fsnode.splits)

lemma fold_untouched:
  "\<forall>e \<in> set evs. q \<notin> touches e \<Longrightarrow> map_of (fold apply_event evs n) q = map_of n q"
  by (induction evs arbitrary: n) (auto simp: apply_event_untouched)

lemma fold_writeEvents:
  "map_of (fold apply_event (writeEvents p data) n) = (map_of n)(p \<mapsto> File data)"
proof (induction data rule: rev_induct)
  case Nil
  then show ?case by (simp add: writeEvents_def update_conv')
next
  case (snoc b data)
  then show ?case by (auto simp: writeEvents_def update_conv' fun_eq_iff)
qed

lemma touches_writeEvents: "e \<in> set (writeEvents p data) \<Longrightarrow> touches e = {p}"
  by (auto simp: writeEvents_def)

section \<open>Paths of state files\<close>

definition clean_dir :: "string \<Rightarrow> bool" where
  "clean_dir d \<longleftrightarrow> filepathClean d = d"

lemma clean_dir_not_Nil: "clean_dir d \<Longrightarrow> d \<noteq> []"
  unfolding clean_dir_def using filepathClean_not_Nil by metis

lemma filepathClean_idem: "filepathClean (filepathClean p) = filepathClean p"
  unfolding filepathClean_alt [of "filepathClean p"] rooted_filepathClean pathComps_filepathClean
  by (simp add: filepathClean_alt [of p])

lemma clean_dir_stateDir: "clean_dir (stateDir env)"
  by (auto simp: clean_dir_def stateDir_def Let_def filepathJoin_def filepathClean_idem
      split: list.splits)

lemma state_file_name: "plain_name name \<Longrightarrow> file_name (name @ ''.state'')"
  unfolding file_name_def plain_name_def
  by (cases name) (auto simp: append_eq_Cons_conv)

lemma statePath_plain:
  assumes "clean_dir d" and "plain_name name"
  shows "statePath d name = dirText d @ name @ ''.state''"
proof -
  have "dirText d = dirPrefix d" using assms(1) dirText_clean [of d] by (simp add: clean_dir_def)
  then show ?thesis
    unfolding statePath_def
    using filepathJoin_file [OF clean_dir_not_Nil state_file_name] assms by simp
qed

lemma statePath_inject:
  "clean_dir d \<Longrightarrow> plain_name a \<Longrightarrow> plain_name b \<Longrightarrow> statePath d a = statePath d b \<longleftrightarrow> a = b"
  by (simp add: statePath_plain)

lemma statePath_not_tmp:
  assumes "clean_dir d" and "plain_name a" and "plain_name b"
  shows "statePath d a \<noteq> statePath d b @ ''.tmp''"
proof
  assume "statePath d a = statePath d b @ ''.tmp''"
  then have "last (statePath d a) = last (statePath d b @ ''.tmp'')" by simp
  then show False using assms by (simp add: statePath_plain)
qed

lemma dirPrefixes_length: "q \<in> set (dirPrefixes d) \<Longrightarrow> length q \<le> length d"
  unfolding dirPrefixes_def by (auto simp del: upt_Suc upt.simps)

lemma statePath_not_dirPrefix:
  assumes "clean_dir d" and "plain_name name"
  shows "statePath d name \<notin> set (dirPrefixes d)"
proof
  assume "statePath d name \<in> set (dirPrefixes d)"
  then have "length (statePath d name) \<le> length d" by (rule dirPrefixes_length)
  moreover have "length (statePath d name) > length d"
    using assms by (simp add: statePath_plain dirText_def)
  ultimately show False by simp
qed

section \<open>Writing a state file\<close>

lemma mkdirEach_steps:
  "mkdirEach ds w = (r, w') \<Longrightarrow>
     \<exists>evs. steps w w' evs \<and> (\<forall>e \<in> set evs. touches e \<subseteq> set ds)"
proof (induction ds arbitrary: w)
  case Nil
  then show ?case using steps_refl by fastforce
next
  case (Cons d ds)
  consider (dir) "isDir (fs_nodes w) d" | (other) "\<not> isDir (fs_nodes w) d" "map_of (fs_nodes w) d \<noteq> None"
    | (make) "\<not> isDir (fs_nodes w) d" "map_of (fs_nodes w) d = None"
    by blast
  then show ?case
  proof cases
    case dir
    with Cons show ?thesis by fastforce
  next
    case other
    with Cons.prems show ?thesis using steps_refl by fastforce
  next
    case make
    with Cons.prems have "mkdirEach ds (emit [EvMkdir d] w) = (r, w')" by simp
    from Cons.IH [OF this] obtain evs where
      "steps (emit [EvMkdir d] w) w' evs" "\<forall>e \<in> set evs. touches e \<subseteq> set ds" by blast
    then have "steps w w' ([EvMkdir d] @ evs)" and "\<forall>e \<in> set ([EvMkdir d] @ evs). touches e \<subseteq> set (d # ds)"
      by (auto intro: steps_trans [OF steps_emit, of "[EvMkdir d]", simplified])
    then show ?thesis by blast
  qed
qed

lemma osMkdirAll_steps:
  assumes "osMkdirAll d w = (r, w')"
  shows "\<exists>evs. steps w w' evs \<and> (\<forall>e \<in> set evs. touches e \<subseteq> set (dirPrefixes d))"
proof -
  obtain f w1 where nf: "nextFault w = (f, w1)" by fastforce
  show ?thesis
  proof (cases f)
    case None
    with assms nf have "mkdirEach (dirPrefixes d) w1 = (r, w')" by (simp add: osMkdirAll_def)
    from mkdirEach_steps [OF this] nextFault_steps [OF nf] show ?thesis
      using steps_trans by fastforce
  next
    case (Some a)
    with assms nf have "w' = w1" by (auto simp: osMkdirAll_def split: prod.splits)
    with nextFault_steps [OF nf] show ?thesis by fastforce
  qed
qed

lemma osWriteFile_steps:
  assumes "osWriteFile p data w = (r, w')"
  shows "\<exists>evs. steps w w' evs \<and> (\<forall>e \<in> set evs. touches e = {p})
    \<and> (is_ok r \<longrightarrow> evs = writeEvents p data)"
proof -
  obtain f w1 where nf: "nextFault w = (f, w1)" by fastforce
  from assms nf have "w' = w1 \<and> \<not> is_ok r \<or> (\<exists>k. w' = emit (writeEvents p (take k data)) w1 \<and> \<not> is_ok r)
      \<or> w' = emit (writeEvents p data) w1 \<and> is_ok r"
    by (auto simp: osWriteFile_def split: option.splits if_splits prod.splits)
  then show ?thesis
    using nextFault_steps [OF nf] steps_trans [OF nextFault_steps [OF nf] steps_emit] touches_writeEvents
    by (metis append_Nil list.set(1) empty_iff)
qed

lemma osRename_steps:
  assumes "osRename a b w = (r, w')"
  shows "steps w w' (if is_ok r then [EvRename a b] else [])
    \<and> (is_ok r \<longrightarrow> map_of (fs_nodes w) a \<noteq> None)"
proof -
  obtain f w1 where nf: "nextFault w = (f, w1)" by fastforce
  from assms nf nextFault_frame [OF nf]
  have "w' = w1 \<and> \<not> is_ok r \<or> w' = emit [EvRename a b] w1 \<and> is_ok r \<and> map_of (fs_nodes w) a \<noteq> None"
    by (auto simp: osRename_def split: option.splits if_splits)
  then show ?thesis
    using nextFault_steps [OF nf] steps_trans [OF nextFault_steps [OF nf] steps_emit] by auto
qed

lemma osRemove_steps:
  assumes "osRemove p w = (r, w')"
  shows "steps w w' (if is_ok r then [EvRemove p] else [])"
proof -
  obtain f w1 where nf: "nextFault w = (f, w1)" by fastforce
  from assms nf have "w' = w1 \<and> \<not> is_ok r \<or> w' = emit [EvRemove p] w1 \<and> is_ok r"
    by (auto simp: osRemove_def split: option.splits if_splits fsnode.splits)
  then show ?thesis
    using nextFault_steps [OF nf] steps_trans [OF nextFault_steps [OF nf] steps_emit] by auto
qed

lemma writeStateInDir_steps:
  assumes "writeStateInDir dir name st w = (r, w')"
  shows "\<exists>pre. steps w w' (pre @ (if is_ok r then [EvRename (statePath dir name @ ''.tmp'') (statePath dir name)] else []))
    \<and> (\<forall>e \<in> set pre. touches e \<subseteq> set (dirPrefixes dir) \<union> {statePath dir name @ ''.tmp''})
    \<and> (is_ok r \<longrightarrow> state_ok st \<and>
         map_of (fold apply_event pre (fs_nodes w)) (statePath dir name @ ''.tmp'') = Some (File (state_bytes st)))"
proof (cases "encodeState st")
  case (Inl e)
  with assms have "w' = w" "\<not> is_ok r" by (auto simp: writeStateInDir_def)
  then show ?thesis using steps_refl by (intro exI [of _ "[]"]) auto
next
  case (Inr data)
  let ?path = "statePath dir name"
  let ?tmp = "?path @ ''.tmp''"
  from Inr have data: "state_ok st" "data = state_bytes st" by (simp_all add: encodeState_iff)
  obtain r1 w1 where mk: "osMkdirAll dir w = (r1, w1)" by fastforce
  obtain r2 w2 where wr: "osWriteFile ?tmp data w1 = (r2, w2)" by fastforce
  obtain r3 w3 where rn: "osRename ?tmp ?path w2 = (r3, w3)" by fastforce
  obtain r4 w4 where rm: "osRemove ?tmp w3 = (r4, w4)" by fastforce
  from osMkdirAll_steps [OF mk] obtain e1 where
    e1: "steps w w1 e1" "\<forall>e \<in> set e1. touches e \<subseteq> set (dirPrefixes dir)" by blast
  from osWriteFile_steps [OF wr] obtain e2 where
    e2: "steps w1 w2 e2" "\<forall>e \<in> set e2. touches e = {?tmp}" "is_ok r2 \<longrightarrow> e2 = writeEvents ?tmp data" by blast
  note s12 = steps_trans [OF e1(1) e2(1)]
  note s3 = osRename_steps [OF rn, THEN conjunct1]
  note s123 = steps_trans [OF s12 s3]
  note s1234 = steps_trans [OF s123 osRemove_steps [OF rm]]
  have res: "(w' = w1 \<and> \<not> is_ok r) \<or> (w' = w2 \<and> \<not> is_ok r)
      \<or> (w' = w4 \<and> \<not> is_ok r \<and> \<not> is_ok r3) \<or> (w' = w3 \<and> is_ok r \<and> is_ok r2 \<and> is_ok r3)"
    using assms Inr mk wr rn rm
    by (auto simp: writeStateInDir_def Let_def split: sum.splits)
  have new: "is_ok r2 \<Longrightarrow> map_of (fold apply_event (e1 @ e2) (fs_nodes w)) ?tmp = Some (File data)"
    using e2(3) by (simp add: fold_writeEvents)
  from res consider (mk) "w' = w1" "\<not> is_ok r" | (wr) "w' = w2" "\<not> is_ok r"
    | (rn) "w' = w4" "\<not> is_ok r" "\<not> is_ok r3" | (ok) "w' = w3" "is_ok r" "is_ok r2" "is_ok r3"
    by blast
  then show ?thesis
  proof cases
    case mk
    with e1 show ?thesis by (intro exI [of _ e1]) auto
  next
    case wr
    with s12 e1(2) e2(2) show ?thesis by (intro exI [of _ "e1 @ e2"]) fastforce
  next
    case rn
    with s1234 e1(2) e2(2) show ?thesis
      by (intro exI [of _ "e1 @ e2 @ (if is_ok r4 then [EvRemove ?tmp] else [])"]) fastforce
  next
    case ok
    with s123 e1(2) e2(2) new data show ?thesis by (intro exI [of _ "e1 @ e2"]) fastforce
  qed
qed

lemma writeStateInDir_untouched:
  assumes "clean_dir dir" and "plain_name name" and "plain_name m"
    and "\<forall>e \<in> set evs. touches e \<subseteq> set (dirPrefixes dir) \<union> {statePath dir name @ ''.tmp''}"
  shows "storedIn dir (fold apply_event evs n) m = storedIn dir n m"
  unfolding storedIn_def
  using assms statePath_not_dirPrefix [OF assms(1,3)] statePath_not_tmp [OF assms(1,3,2)]
  by (intro fold_untouched) fast

lemma rename_stored:
  assumes "clean_dir dir" and "plain_name name" and "plain_name m"
    and "map_of n (statePath dir name @ ''.tmp'') = Some x"
  shows "storedIn dir (apply_event (EvRename (statePath dir name @ ''.tmp'') (statePath dir name)) n) m
    = (if m = name then Some x else storedIn dir n m)"
  using assms(4) statePath_inject [OF assms(1,3,2)] statePath_not_tmp [OF assms(1,3,2)]
  by (auto simp: storedIn_def update_conv' delete_conv')

lemma writeStateInDir_stored:
  assumes "clean_dir dir" and "plain_name name" and "plain_name m"
    and "writeStateInDir dir name st w = (r, w')"
  shows "storedIn dir (fs_nodes w') m =
      (if is_ok r \<and> m = name then Some (File (state_bytes st)) else storedIn dir (fs_nodes w) m)"
    and "is_ok r \<longrightarrow> state_ok st"
    and "fs_env w' = fs_env w"
proof -
  from writeStateInDir_steps [OF assms(4)] obtain pre where
    st: "steps w w' (pre @ (if is_ok r then [EvRename (statePath dir name @ ''.tmp'') (statePath dir name)] else []))"
    and pre: "\<forall>e \<in> set pre. touches e \<subseteq> set (dirPrefixes dir) \<union> {statePath dir name @ ''.tmp''}"
    and new: "is_ok r \<longrightarrow> state_ok st \<and>
      map_of (fold apply_event pre (fs_nodes w)) (statePath dir name @ ''.tmp'') = Some (File (state_bytes st))"
    by blast
  note un = writeStateInDir_untouched [OF assms(1,2,3) pre, of "fs_nodes w"]
  from st new show "is_ok r \<longrightarrow> state_ok st" and "fs_env w' = fs_env w" by (auto simp: steps_def)
  show "storedIn dir (fs_nodes w') m =
      (if is_ok r \<and> m = name then Some (File (state_bytes st)) else storedIn dir (fs_nodes w) m)"
  proof (cases "is_ok r")
    case True
    with st new rename_stored [OF assms(1,2,3)] un show ?thesis by (simp add: steps_def del: apply_event.simps)
  next
    case False
    with st un show ?thesis by (simp add: steps_def)
  qed
qed

section \<open>Reading, removing and listing\<close>

lemma osReadFile_result:
  assumes "osReadFile p w = (r, w')"
  shows "steps w w' []"
    and "r = Inr d \<Longrightarrow> map_of (fs_nodes w) p = Some (File d)"
    and "r = Inl ErrNotExist \<Longrightarrow> map_of (fs_nodes w) p = None"
    and "map_of (fs_nodes w) p = Some (File d) \<Longrightarrow> fs_faults w = [] \<Longrightarrow> r = Inr d"
proof -
  obtain f w1 where nf: "nextFault w = (f, w1)" by fastforce
  note fr = nextFault_frame [OF nf]
  from assms nf have "w' = w1" by (auto simp: osReadFile_def split: option.splits prod.splits fsnode.splits)
  with nextFault_steps [OF nf] show "steps w w' []" by simp
  from assms nf fr show "r = Inr d \<Longrightarrow> map_of (fs_nodes w) p = Some (File d)"
    by (auto simp: osReadFile_def split: option.splits prod.splits fsnode.splits)
  from assms nf fr show "r = Inl ErrNotExist \<Longrightarrow> map_of (fs_nodes w) p = None"
    by (auto simp: osReadFile_def split: option.splits prod.splits fsnode.splits)
  from assms nf fr show "map_of (fs_nodes w) p = Some (File d) \<Longrightarrow> fs_faults w = [] \<Longrightarrow> r = Inr d"
    by (auto simp: osReadFile_def nextFault_def)
qed

text \<open>Reading a state file never reports a missing file by itself: its errors are malformed contents.\<close>

definition decode_error_only :: "'a dec \<Rightarrow> bool" where
  "decode_error_only d \<longleftrightarrow> (\<forall>bs e r. d bs = (Inl e, r) \<longrightarrow> \<not> errors_Is e ErrNotExist)"

named_theorems decode_error_intros \<open>decoders whose errors are about contents\<close>

lemma decode_error_base [decode_error_intros]:
  "decode_error_only (dret v)"
  "decode_error_only (dfail (Errorf t))"
  "decode_error_only (readFull n)"
  by (auto simp: decode_error_only_def dret_def dfail_def readFull_def)

lemma decode_error_dbind [decode_error_intros]:
  "decode_error_only d \<Longrightarrow> (\<And>v. decode_error_only (f v)) \<Longrightarrow> decode_error_only (dbind d f)"
  unfolding decode_error_only_def dbind_def by (fastforce split: prod.splits sum.splits)

lemma decode_error_dwrap [decode_error_intros]:
  "decode_error_only d \<Longrightarrow> decode_error_only (dwrap ctx d)"
  by (auto simp: decode_error_only_def dwrap_def split: prod.splits sum.splits)

lemma decode_error_if [decode_error_intros]:
  "decode_error_only a \<Longrightarrow> decode_error_only b \<Longrightarrow> decode_error_only (if c then a else b)"
  by simp

lemma decodeState_error: "decodeState d = Inl e \<Longrightarrow> \<not> errors_Is e ErrNotExist"
proof -
  assume h: "decodeState d = Inl e"
  have "decode_error_only decodeStateFields"
    unfolding decodeStateFields_def ReadU8_def ReadU16_def ReadU32_def ReadU64_def
    by (intro decode_error_intros)
  moreover have "fst (decodeStateFields (drop 4 d)) = Inl e \<Longrightarrow>
      \<exists>r. decodeStateFields (drop 4 d) = (Inl e, r)"
    by (metis prod.collapse)
  ultimately show ?thesis
    using h by (auto simp: decodeState_def decode_error_only_def split: if_splits)
qed

lemma loadState_result:
  assumes "loadState name w = (r, w')"
  shows "steps w w' []"
    and "r = Inr s \<Longrightarrow> \<exists>d. stored w name = Some (File d) \<and> decodeState d = Inr s"
    and "r = Inl e \<Longrightarrow> errors_Is e ErrNotExist \<Longrightarrow> stored w name = None"
proof -
  obtain r1 w1 where rd: "osReadFile (statePath (stateDir (fs_env w)) name) w = (r1, w1)" by fastforce
  note rr = osReadFile_result [OF rd]
  have err: "r1 = Inl e \<Longrightarrow> errors_Is e ErrNotExist \<Longrightarrow> e = ErrNotExist" for e
    using rd by (auto simp: osReadFile_def split: option.splits prod.splits fsnode.splits)
  from assms rd rr(1) show "steps w w' []" by (auto simp: loadState_def split: sum.splits)
  from assms rd rr(2) show "r = Inr s \<Longrightarrow> \<exists>d. stored w name = Some (File d) \<and> decodeState d = Inr s"
    by (auto simp: loadState_def stored_def storedIn_def split: sum.splits)
  from assms rd rr(3) err decodeState_error
  show "r = Inl e \<Longrightarrow> errors_Is e ErrNotExist \<Longrightarrow> stored w name = None"
    by (auto simp: loadState_def stored_def storedIn_def split: sum.splits)
qed

lemma osRemove_missing: "osRemove p w = (Inl ErrNotExist, w') \<Longrightarrow> map_of (fs_nodes w) p = None"
  using nextFault_frame [of w]
  by (auto simp: osRemove_def split: option.splits if_splits fsnode.splits prod.splits)

lemma cleanState_stored:
  assumes "cleanState name w = (r, w')" and "plain_name name" and "plain_name m"
  shows "stored w' m = (if is_ok r \<and> m = name then None else stored w m)"
    and "fs_env w' = fs_env w"
proof -
  let ?p = "statePath (stateDir (fs_env w)) name"
  obtain r1 w1 where rm: "osRemove ?p w = (r1, w1)" by fastforce
  from assms(1) rm have w': "w' = w1" and ok: "is_ok r \<longleftrightarrow> is_ok r1 \<or> r1 = Inl ErrNotExist"
    by (auto simp: cleanState_def split: sum.splits if_splits)
  from osRemove_steps [OF rm] w' have nodes:
      "fs_nodes w' = (if is_ok r1 then AList.delete ?p (fs_nodes w) else fs_nodes w)"
    and env: "fs_env w' = fs_env w"
    by (auto simp: steps_def)
  show "fs_env w' = fs_env w" by (rule env)
  have none: "r1 = Inl ErrNotExist \<Longrightarrow> map_of (fs_nodes w) ?p = None"
    using rm by (auto intro: osRemove_missing)
  show "stored w' m = (if is_ok r \<and> m = name then None else stored w m)"
    using statePath_inject [OF clean_dir_stateDir assms(3,2)] none ok
    by (auto simp: stored_def storedIn_def env nodes delete_conv')
qed

lemma dirEntries_mem:
  "(e, isdir) \<in> set (dirEntries n d) \<longleftrightarrow>
     e \<noteq> [] \<and> CHR ''/'' \<notin> set e \<and> (\<exists>x. map_of n (dirText d @ e) = Some x \<and> isdir = (x = Dir))"
proof -
  have "e \<in> set (List.map_filter (entryIn d) (map fst n)) \<longleftrightarrow>
      e \<noteq> [] \<and> CHR ''/'' \<notin> set e \<and> dirText d @ e \<in> fst ` set n"
    unfolding map_filter_mem by (auto simp: entryIn_iff image_iff)
  then show ?thesis
    by (auto simp: dirEntries_def dom_map_of_conv_image_fst [symmetric])
qed

lemma deadNames_mem:
  "name \<in> set (deadNames running entries) \<longleftrightarrow> (name @ ''.state'', False) \<in> set entries \<and> \<not> running name"
proof (induction entries)
  case Nil
  then show ?case by (simp add: deadNames_def map_filter_def)
next
  case (Cons x xs)
  obtain e isdir where x: "x = (e, isdir)" by fastforce
  have step: "deadNames running (x # xs) =
      (if isdir \<or> \<not> hasSuffix e ''.state'' \<or> running (trimSuffix e ''.state'') then deadNames running xs
       else trimSuffix e ''.state'' # deadNames running xs)"
    by (auto simp: deadNames_def map_filter_def x Let_def)
  show ?case
  proof (cases "hasSuffix e ''.state''")
    case True
    then obtain n where e: "e = n @ ''.state''" unfolding hasSuffix_iff by blast
    have "trimSuffix e ''.state'' = n" unfolding e by (rule trimSuffix_append)
    with step x e True Cons.IH show ?thesis by auto
  next
    case False
    then have "e \<noteq> name @ ''.state''" unfolding hasSuffix_iff by blast
    with step x False Cons.IH show ?thesis by auto
  qed
qed

lemma sorted_dirEntries: "distinct (map fst (dirEntries n d))"
  by (simp add: dirEntries_def o_def)

lemma deadNames_distinct: "distinct (map fst entries) \<Longrightarrow> distinct (deadNames running entries)"
proof (induction entries)
  case Nil
  then show ?case by (simp add: deadNames_def map_filter_def)
next
  case (Cons x xs)
  have "deadNames running (x # xs) = deadNames running [x] @ deadNames running xs"
    by (auto simp: deadNames_def map_filter_def)
  moreover have "distinct (deadNames running [x])"
    by (cases x) (auto simp: deadNames_def map_filter_def Let_def)
  moreover have "set (deadNames running [x]) \<inter> set (deadNames running xs) = {}"
  proof (intro equals0I, elim IntE)
    fix n
    assume "n \<in> set (deadNames running [x])" and "n \<in> set (deadNames running xs)"
    then have "x = (n @ ''.state'', False)" and "(n @ ''.state'', False) \<in> set xs"
      by (simp_all add: deadNames_mem)
    with Cons.prems show False by force
  qed
  ultimately show ?case using Cons by simp
qed

section \<open>The interface of the store\<close>

text \<open>
  What the daemon relies on: a successful write replaces the state of one name, a successful
  clean removes it, everything else (failed calls included) changes no stored state, and a load
  returns what is stored.
\<close>

locale state_store =
  fixes view :: "'w \<Rightarrow> 'n \<Rightarrow> 'v option"
    and store :: "'n \<Rightarrow> 's \<Rightarrow> 'w \<Rightarrow> unit result \<times> 'w"
    and fetch :: "'n \<Rightarrow> 'w \<Rightarrow> 's result \<times> 'w"
    and drop_state :: "'n \<Rightarrow> 'w \<Rightarrow> unit result \<times> 'w"
    and pack :: "'s \<Rightarrow> 'v"
    and unpack :: "'v \<Rightarrow> 's result"
    and name_ok :: "'n \<Rightarrow> bool"
  assumes write_view: "name_ok n \<Longrightarrow> name_ok m \<Longrightarrow> store n s w = (r, w') \<Longrightarrow>
      view w' m = (if is_ok r \<and> m = n then Some (pack s) else view w m)"
    and write_unpack: "name_ok n \<Longrightarrow> store n s w = (r, w') \<Longrightarrow> is_ok r \<Longrightarrow> unpack (pack s) = Inr s"
    and clean_view: "name_ok n \<Longrightarrow> name_ok m \<Longrightarrow> drop_state n w = (r, w') \<Longrightarrow>
      view w' m = (if is_ok r \<and> m = n then None else view w m)"
    and load_view: "fetch n w = (q, w') \<Longrightarrow> view w' = view w"
    and load_unpack: "fetch n w = (Inr s, w') \<Longrightarrow> \<exists>v. view w n = Some v \<and> unpack v = Inr s"
    and load_missing: "fetch n w = (Inl e, w') \<Longrightarrow> errors_Is e ErrNotExist \<Longrightarrow> view w n = None"
begin

definition saved :: "'w \<Rightarrow> 'n \<Rightarrow> 's result option" where
  "saved w n = map_option unpack (view w n)"

lemma load_saved: "fetch n w = (Inr s, w') \<Longrightarrow> saved w n = Some (Inr s)"
  using load_unpack [of n w s w'] by (auto simp: saved_def)

lemma load_after_write:
  assumes "name_ok n" and "store n s w = (r, w1)" and "is_ok r" and "fetch n w1 = (Inr s', w2)"
  shows "s' = s"
  using load_unpack [OF assms(4)] write_view [OF assms(1,1,2)] write_unpack [OF assms(1,2,3)] assms(3)
  by auto

lemma load_after_clean:
  assumes "name_ok n" and "drop_state n w = (r, w1)" and "is_ok r"
  shows "\<not> is_ok (fst (fetch n w1))"
proof
  assume "is_ok (fst (fetch n w1))"
  then obtain s w2 where "fetch n w1 = (Inr s, w2)" by (metis is_ok_iff prod.collapse)
  then show False using load_unpack clean_view [OF assms(1,1,2)] assms(3) by fastforce
qed

text \<open>Cleaning what was loaded and writing it back changes no stored state.\<close>

lemma rollback_restores:
  assumes "name_ok n" and "name_ok m"
    and "fetch n w = (Inr s, w1)" and "drop_state n w1 = (r2, w2)" and "store n s w2 = (r3, w3)" and "is_ok r3"
  shows "saved w3 m = saved w m"
  using load_saved [OF assms(3)] load_view [OF assms(3)] clean_view [OF assms(1,2,4)]
    write_view [OF assms(1,2,5)] write_unpack [OF assms(1,5,6)] assms(6)
  by (auto simp: saved_def split: if_splits)

end

definition unpackNode :: "fsnode \<Rightarrow> sessionState result" where
  "unpackNode x = (case x of File d \<Rightarrow> decodeState d | Dir \<Rightarrow> Inl (ErrIO ''is a directory''))"

interpretation disk: state_store stored writeState loadState cleanState
  "\<lambda>s. File (state_bytes s)" unpackNode plain_name
proof unfold_locales
  fix n m :: string and s :: sessionState and w r w'
  assume n: "plain_name n" and m: "plain_name m" and wr: "writeState n s w = (r, w')"
  note ws = writeStateInDir_stored [OF clean_dir_stateDir n m wr [unfolded writeState_def]]
  from ws(1,3) show "stored w' m = (if is_ok r \<and> m = n then Some (File (state_bytes s)) else stored w m)"
    by (simp add: stored_def)
next
  fix n :: string and s :: sessionState and w r w'
  assume "plain_name n" and wr: "writeState n s w = (r, w')" and "is_ok r"
  then show "unpackNode (File (state_bytes s)) = Inr s"
    using writeStateInDir_stored(2) [OF clean_dir_stateDir _ _ wr [unfolded writeState_def]]
      decodeState_state_bytes [of s "[]"] by (simp add: unpackNode_def)
next
  fix n m :: string and w r w'
  assume "plain_name n" and "plain_name m" and "cleanState n w = (r, w')"
  then show "stored w' m = (if is_ok r \<and> m = n then None else stored w m)"
    by (simp add: cleanState_stored(1))
next
  fix n :: string and w r w'
  assume "loadState n w = (r, w')"
  then show "stored w' = stored w"
    using loadState_result(1) by (fastforce simp: steps_def stored_def)
next
  fix n :: string and w s w'
  assume "loadState n w = (Inr s, w')"
  then show "\<exists>v. stored w n = Some v \<and> unpackNode v = Inr s"
    using loadState_result(2) by (fastforce simp: unpackNode_def)
next
  fix n :: string and w e w'
  assume "loadState n w = (Inl e, w')" and "errors_Is e ErrNotExist"
  then show "stored w n = None" using loadState_result(3) by blast
qed

section \<open>Properties\<close>

definition demo_fs :: fs where
  "demo_fs = \<lparr>fs_env = [''XDG_STATE_HOME=/s''], fs_nodes = [], fs_faults = [], fs_trace = []\<rparr>"

text \<open>
  C14. Saving is crash safe. Whatever faults happen, and wherever the daemon or the machine stops
  inside \<open>writeStateInDir\<close> (any prefix of the elementary changes it made), every session's state
  file is either what it was or, for the session being saved, the complete new file. A call that
  returns success has stored the new state, a failed one has changed no state file.
\<close>

theorem writeState_crash_safe:
  assumes "clean_dir dir" and "plain_name name" and "plain_name m"
    and "writeStateInDir dir name st w = (r, w')"
  shows "\<exists>evs. fs_trace w' = fs_trace w @ evs \<and> fs_nodes w' = fold apply_event evs (fs_nodes w)
    \<and> (\<forall>k. storedIn dir (fold apply_event (take k evs) (fs_nodes w)) m = storedIn dir (fs_nodes w) m
          \<or> m = name \<and> storedIn dir (fold apply_event (take k evs) (fs_nodes w)) m = Some (File (state_bytes st))
              \<and> decodeState (state_bytes st) = Inr st)
    \<and> storedIn dir (fs_nodes w') m =
        (if is_ok r \<and> m = name then Some (File (state_bytes st)) else storedIn dir (fs_nodes w) m)"
proof -
  let ?ren = "EvRename (statePath dir name @ ''.tmp'') (statePath dir name)"
  from writeStateInDir_steps [OF assms(4)] obtain pre where
    st: "steps w w' (pre @ (if is_ok r then [?ren] else []))"
    and pre: "\<forall>e \<in> set pre. touches e \<subseteq> set (dirPrefixes dir) \<union> {statePath dir name @ ''.tmp''}"
    by blast
  let ?evs = "pre @ (if is_ok r then [?ren] else [])"
  note fin = writeStateInDir_stored [OF assms]
  have "storedIn dir (fold apply_event (take k ?evs) (fs_nodes w)) m = storedIn dir (fs_nodes w) m
      \<or> m = name \<and> storedIn dir (fold apply_event (take k ?evs) (fs_nodes w)) m = Some (File (state_bytes st))
        \<and> decodeState (state_bytes st) = Inr st" for k
  proof (cases "k \<le> length pre \<or> \<not> is_ok r")
    case True
    then have "take k ?evs = take k pre" by auto
    moreover have "\<forall>e \<in> set (take k pre). touches e \<subseteq> set (dirPrefixes dir) \<union> {statePath dir name @ ''.tmp''}"
      using pre by (meson in_set_takeD)
    ultimately show ?thesis using writeStateInDir_untouched [OF assms(1,2,3)] by metis
  next
    case False
    then have "length ?evs \<le> k" by auto
    then have "take k ?evs = ?evs" by (rule take_all)
    then have "fold apply_event (take k ?evs) (fs_nodes w) = fs_nodes w'"
      using st by (simp add: steps_def)
    with fin False show ?thesis using decodeState_state_bytes [of st "[]"] by auto
  qed
  moreover from st have "fs_trace w' = fs_trace w @ ?evs" "fs_nodes w' = fold apply_event ?evs (fs_nodes w)"
    by (simp_all only: steps_def)
  ultimately show ?thesis using fin(1) by blast
qed

theorem writeState_crash_safe_witness:
  "\<exists>evs. fs_trace (snd (writeStateInDir ''/s'' ''work'' demo_state demo_fs)) = evs
    \<and> (\<forall>k. storedIn ''/s'' (fold apply_event (take k evs) []) ''work'' \<in> {None, Some (File (state_bytes demo_state))})"
proof -
  have "clean_dir ''/s''"
    by (simp add: clean_dir_def filepathClean_def hasPrefix_def)
  moreover have "plain_name ''work''" by (simp add: plain_name_def)
  ultimately show ?thesis
    using writeState_crash_safe [of "''/s''" "''work''" "''work''" demo_state demo_fs _
        "snd (writeStateInDir ''/s'' ''work'' demo_state demo_fs)", OF _ _ _ prod.collapse [symmetric]]
    by (auto simp: demo_fs_def storedIn_def)
qed

definition newState :: "u64 \<Rightarrow> ('s \<Rightarrow> byte list result) \<Rightarrow> ('s \<Rightarrow> u16 \<times> u16) \<Rightarrow> 's \<Rightarrow> sessionState" where
  "newState now snap sizeOf s = \<lparr>st_Cols = fst (sizeOf s), st_Rows = snd (sizeOf s), st_SavedAt = now,
     st_Snapshot = projr (snap s)\<rparr>"

lemma saveSession_stored:
  assumes "clean_dir dir" and "plain_name name" and "plain_name m"
    and "saveSession dir now snap sizeOf name s w = (r, w')"
  shows "storedIn dir (fs_nodes w') m =
    (if is_ok r \<and> m = name then Some (File (state_bytes (newState now snap sizeOf s)))
     else storedIn dir (fs_nodes w) m)"
proof (cases "snap s")
  case (Inl e)
  with assms(4) show ?thesis by (auto simp: saveSession_def)
next
  case (Inr snapshot)
  with assms(4) have "writeStateInDir dir name (newState now snap sizeOf s) w = (r, w')"
    by (auto simp: saveSession_def newState_def Let_def split: prod.splits)
  from writeStateInDir_stored(1) [OF assms(1,2,3) this] show ?thesis .
qed

lemma saveEach_stored:
  assumes "clean_dir dir" and "\<forall>n \<in> set names. plain_name n" and "distinct names" and "plain_name m"
    and "saveEach (saveSession dir now snap sizeOf) sessions names w = (errs, w')"
  shows "storedIn dir (fs_nodes w') m = storedIn dir (fs_nodes w) m
      \<and> (m \<in> set names \<and> map_of sessions m \<noteq> None \<longrightarrow> (\<exists>e. Wrap m e \<in> set errs))
    \<or> m \<in> set names \<and> (\<exists>s. map_of sessions m = Some s \<and>
        storedIn dir (fs_nodes w') m = Some (File (state_bytes (newState now snap sizeOf s))))"
  using assms(2,3,5)
proof (induction names arbitrary: w errs)
  case Nil
  then show ?case by simp
next
  case (Cons n names)
  show ?case
  proof (cases "map_of sessions n")
    case None
    with Cons show ?thesis by fastforce
  next
    case (Some s)
    obtain r w1 where sv: "saveSession dir now snap sizeOf n s w = (r, w1)" by fastforce
    obtain errs1 w2 where rest: "saveEach (saveSession dir now snap sizeOf) sessions names w1 = (errs1, w2)"
      by fastforce
    have w2: "w2 = w'" and sub: "set errs1 \<subseteq> set errs" and e: "\<not> is_ok r \<longrightarrow> (\<exists>x. Wrap n x \<in> set errs)"
      using Cons.prems(3) Some sv rest by (auto split: sum.splits)
    have n: "plain_name n" "n \<notin> set names" using Cons.prems by auto
    note st = saveSession_stored [OF assms(1) n(1) assms(4) sv]
    note IH = Cons.IH [OF _ _ rest [unfolded w2]]
    show ?thesis
    proof (cases "m = n")
      case True
      with IH Cons.prems n(2) st e Some show ?thesis by (auto split: if_splits)
    next
      case False
      with IH Cons.prems st sub show ?thesis by (auto 4 4)
    qed
  qed
qed

text \<open>
  C15. Saving all sessions: with every session's name a plain file name, each session either has
  its new state stored or its error in the joined error; one session's failure does not stop the
  others, and no other session's state file changes.
\<close>

theorem saveAll_independent:
  assumes "clean_dir dir" and "\<forall>(n, s) \<in> set sessions. plain_name n" and "distinct (map fst sessions)"
    and "saveAllWith (saveSession dir now snap sizeOf) sessions w = (errs, w')"
  shows "(\<forall>(n, s) \<in> set sessions. (\<exists>e. Wrap n e \<in> set errs)
        \<or> storedIn dir (fs_nodes w') n = Some (File (state_bytes (newState now snap sizeOf s))))
    \<and> (\<forall>m. plain_name m \<and> m \<notin> fst ` set sessions \<longrightarrow>
        storedIn dir (fs_nodes w') m = storedIn dir (fs_nodes w) m)"
proof -
  let ?names = "sort (map fst sessions)"
  have pl: "\<forall>n \<in> set ?names. plain_name n" and di: "distinct ?names" using assms(2,3) by auto
  note st = saveEach_stored [OF assms(1) pl di _ assms(4) [unfolded saveAllWith_def]]
  have "(\<exists>e. Wrap n e \<in> set errs)
      \<or> storedIn dir (fs_nodes w') n = Some (File (state_bytes (newState now snap sizeOf s)))"
    if "(n, s) \<in> set sessions" for n s
    using st [of n] that assms(2,3) by (force simp: image_iff)
  then show ?thesis using st by auto
qed

theorem saveAll_independent_witness:
  "storedIn ''/s'' (fs_nodes (snd (saveAllWith (saveSession ''/s'' 7 (\<lambda>b. if b then Inr [1, 2] else Inl EOF) (\<lambda>_. (80, 24)))
      [(''b'', False), (''a'', True)] demo_fs))) ''other'' = None"
proof -
  let ?r = "saveAllWith (saveSession ''/s'' 7 (\<lambda>b. if b then Inr [1, 2] else Inl EOF) (\<lambda>_. (80, 24)))
      [(''b'', False), (''a'', True)] demo_fs"
  have "clean_dir ''/s''"
    by (simp add: clean_dir_def filepathClean_def hasPrefix_def)
  then show ?thesis
    using saveAll_independent [of "''/s''" "[(''b'', False), (''a'', True)]" 7
        "\<lambda>b. if b then Inr [1, 2] else Inl EOF" "\<lambda>_. (80, 24)" demo_fs "fst ?r" "snd ?r"]
    by (auto simp: plain_name_def storedIn_def demo_fs_def)
qed

lemma dead_names_of_list:
  assumes "listDeadSessions running w = (Inr names, w')"
    and "isDir (fs_nodes w) (stateDir (fs_env w))"
  shows "distinct names
    \<and> set names = {m. plain_name m \<and> \<not> running m \<and> (\<exists>d. stored w m = Some (File d))}
    \<and> fs_nodes w' = fs_nodes w"
proof -
  let ?d = "stateDir (fs_env w)"
  obtain f w1 where nf: "nextFault w = (f, w1)" by fastforce
  from assms nf nextFault_frame [OF nf]
  have names: "names = deadNames running (dirEntries (fs_nodes w) ?d)" and w': "fs_nodes w' = fs_nodes w"
    by (auto simp: listDeadSessions_def osReadDir_def split: option.splits if_splits prod.splits)
  have "m \<in> set names \<longleftrightarrow> plain_name m \<and> \<not> running m \<and> (\<exists>d. stored w m = Some (File d))" for m
  proof (cases "plain_name m")
    case True
    have "(\<exists>x. map_of (fs_nodes w) (statePath ?d m) = Some x \<and> x \<noteq> Dir) \<longleftrightarrow>
        (\<exists>d. map_of (fs_nodes w) (statePath ?d m) = Some (File d))"
      by (metis fsnode.distinct(1) fsnode.exhaust)
    with True show ?thesis
      by (auto simp: names deadNames_mem dirEntries_mem stored_def storedIn_def
          statePath_plain [OF clean_dir_stateDir True] plain_name_def)
  next
    case False
    then show ?thesis by (auto simp: names deadNames_mem dirEntries_mem plain_name_def)
  qed
  then show ?thesis
    using names w' deadNames_distinct [OF sorted_dirEntries] by blast
qed

text \<open>
  \<open>listDeadSessions\<close> lists exactly the saved sessions that are not running, each once: the
  names with a state file in the state directory. Without a fault it always returns such a list
  unless the state directory's path is a file.
\<close>

theorem listDeadSessions_exact:
  assumes "listDeadSessions running w = (Inr names, w')"
    and "isDir (fs_nodes w) (stateDir (fs_env w))"
  shows "distinct names
    \<and> set names = {m. plain_name m \<and> \<not> running m \<and> (\<exists>d. stored w m = Some (File d))}
    \<and> fs_nodes w' = fs_nodes w"
  using dead_names_of_list [OF assms] .

definition demo_disk :: fs where
  "demo_disk = \<lparr>fs_env = [''XDG_STATE_HOME=/s''],
     fs_nodes = [(''/s/hauntty/sessions'', Dir), (''/s/hauntty/sessions/work.state'', File [1]),
       (''/s/hauntty/sessions/play.state'', File [2]), (''/s/hauntty/sessions/work.state.tmp'', File [3])],
     fs_faults = [], fs_trace = []\<rparr>"

lemma demo_disk_dir: "stateDir (fs_env demo_disk) = ''/s/hauntty/sessions''"
  by (simp add: demo_disk_def stateDir_def filepathJoin_def filepathClean_def hasPrefix_def Let_def)

theorem listDeadSessions_exact_witness:
  "\<exists>names. fst (listDeadSessions (\<lambda>n. n = ''work'') demo_disk) = Inr names \<and> ''work'' \<notin> set names
     \<and> ''play'' \<in> set names"
proof -
  let ?r = "listDeadSessions (\<lambda>n. n = ''work'') demo_disk"
  have dir: "isDir (fs_nodes demo_disk) (stateDir (fs_env demo_disk))"
    unfolding demo_disk_dir by (simp add: isDir_def demo_disk_def)
  have "fst ?r = Inr (deadNames (\<lambda>n. n = ''work'') (dirEntries (fs_nodes demo_disk) (stateDir (fs_env demo_disk))))"
    using dir by (simp add: listDeadSessions_def osReadDir_def nextFault_def demo_disk_def)
  then obtain names where r: "?r = (Inr names, snd ?r)" by (metis prod.collapse)
  have "stored demo_disk ''play'' = Some (File [2])"
    using statePath_plain [OF clean_dir_stateDir, of "''play''" "fs_env demo_disk"]
    by (simp add: stored_def storedIn_def plain_name_def demo_disk_dir dirText_def) (simp add: demo_disk_def)
  moreover have "plain_name ''play''" "''play'' \<noteq> ''work''" by (simp_all add: plain_name_def)
  moreover have "set names = {m. plain_name m \<and> m \<noteq> ''work'' \<and> (\<exists>d. stored demo_disk m = Some (File d))}"
    using listDeadSessions_exact [OF r dir] by blast
  ultimately have "''work'' \<notin> set names" "''play'' \<in> set names" by blast+
  moreover from r have "fst ?r = Inr names" by (metis fst_conv)
  ultimately show ?thesis by blast
qed

lemma tmp_file_name:
  assumes "hasSuffix e ''.state.tmp''" and "CHR ''/'' \<notin> set e"
  shows "file_name e"
proof -
  from assms(1) have "length e \<ge> 10" unfolding hasSuffix_def by simp
  with assms(2) show ?thesis by (auto simp: file_name_def)
qed

lemma cleanEntry_frame:
  assumes "clean_dir d" and "CHR ''/'' \<notin> set e"
  shows "fs_env (cleanEntry d e isdir w) = fs_env w"
    and "q \<noteq> dirText d @ e \<or> \<not> hasSuffix e ''.state.tmp'' \<or> isdir \<Longrightarrow>
      map_of (fs_nodes (cleanEntry d e isdir w)) q = map_of (fs_nodes w) q"
    and "map_of (fs_nodes w) q = None \<Longrightarrow> map_of (fs_nodes (cleanEntry d e isdir w)) q = None"
    and "fs_faults w = [] \<Longrightarrow> fs_faults (cleanEntry d e isdir w) = []"
    and "fs_faults w = [] \<Longrightarrow> hasSuffix e ''.state.tmp'' \<Longrightarrow> map_of (fs_nodes w) (dirText d @ e) \<noteq> Some Dir \<Longrightarrow>
      map_of (fs_nodes (cleanEntry d e False w)) (dirText d @ e) = None"
proof -
  obtain r w1 where rm: "osRemove (filepathJoin [d, e]) w = (r, w1)" by fastforce
  have path: "hasSuffix e ''.state.tmp'' \<Longrightarrow> filepathJoin [d, e] = dirText d @ e"
    using filepathJoin_file [OF clean_dir_not_Nil [OF assms(1)] tmp_file_name [OF _ assms(2)]]
      dirText_clean [of d] assms(1) by (simp add: clean_dir_def)
  note st = osRemove_steps [OF rm, unfolded steps_def]
  show "fs_env (cleanEntry d e isdir w) = fs_env w" using st rm by (simp add: cleanEntry_def)
  show "q \<noteq> dirText d @ e \<or> \<not> hasSuffix e ''.state.tmp'' \<or> isdir \<Longrightarrow>
      map_of (fs_nodes (cleanEntry d e isdir w)) q = map_of (fs_nodes w) q"
    using st rm path by (auto simp: cleanEntry_def delete_conv')
  show "map_of (fs_nodes w) q = None \<Longrightarrow> map_of (fs_nodes (cleanEntry d e isdir w)) q = None"
    using st rm by (auto simp: cleanEntry_def delete_conv')
  show "fs_faults w = [] \<Longrightarrow> fs_faults (cleanEntry d e isdir w) = []"
    by (auto simp: cleanEntry_def osRemove_def nextFault_def emit_def split: option.splits fsnode.splits)
  show "fs_faults w = [] \<Longrightarrow> hasSuffix e ''.state.tmp'' \<Longrightarrow> map_of (fs_nodes w) (dirText d @ e) \<noteq> Some Dir \<Longrightarrow>
      map_of (fs_nodes (cleanEntry d e False w)) (dirText d @ e) = None"
    using path by (auto simp: cleanEntry_def osRemove_def nextFault_def emit_def delete_conv'
        split: option.splits fsnode.splits)
qed

lemma clean_entries:
  assumes "clean_dir d" and "\<forall>(e, isdir) \<in> set es. CHR ''/'' \<notin> set e"
  shows "fs_env (fold (\<lambda>(e, isdir). cleanEntry d e isdir) es w) = fs_env w
    \<and> (\<forall>q. (\<forall>(e, isdir) \<in> set es. q = dirText d @ e \<longrightarrow> \<not> hasSuffix e ''.state.tmp'' \<or> isdir) \<longrightarrow>
         map_of (fs_nodes (fold (\<lambda>(e, isdir). cleanEntry d e isdir) es w)) q = map_of (fs_nodes w) q)
    \<and> (\<forall>q. map_of (fs_nodes w) q = None \<longrightarrow>
         map_of (fs_nodes (fold (\<lambda>(e, isdir). cleanEntry d e isdir) es w)) q = None)"
  using assms(2)
proof (induction es arbitrary: w)
  case (Cons x es)
  obtain e isdir where x: "x = (e, isdir)" by fastforce
  with Cons.prems have "CHR ''/'' \<notin> set e" by simp
  note fr = cleanEntry_frame(1-3) [OF assms(1) this]
  from Cons show ?case by (auto simp: x fr)
qed simp

lemma clean_entries_gone:
  assumes "clean_dir d" and "\<forall>(e, isdir) \<in> set es. CHR ''/'' \<notin> set e" and "fs_faults w = []"
    and "(e, False) \<in> set es" and "hasSuffix e ''.state.tmp''" and "map_of (fs_nodes w) (dirText d @ e) \<noteq> Some Dir"
  shows "map_of (fs_nodes (fold (\<lambda>(e, isdir). cleanEntry d e isdir) es w)) (dirText d @ e) = None"
  using assms(2-4,6)
proof (induction es arbitrary: w)
  case (Cons x es)
  obtain e' isdir where x: "x = (e', isdir)" by fastforce
  with Cons.prems have e': "CHR ''/'' \<notin> set e'" and es: "\<forall>(e, isdir) \<in> set es. CHR ''/'' \<notin> set e" by auto
  note fr = cleanEntry_frame [OF assms(1) e']
  show ?case
  proof (cases "x = (e, False)")
    case True
    with x fr(5) [OF Cons.prems(2)] assms(5) Cons.prems(4)
    have "map_of (fs_nodes (cleanEntry d e' isdir w)) (dirText d @ e) = None" by simp
    with clean_entries [OF assms(1) es] x show ?thesis by simp
  next
    case False
    with Cons.prems(3) have "(e, False) \<in> set es" by simp
    moreover have "map_of (fs_nodes (cleanEntry d e' isdir w)) (dirText d @ e) \<noteq> Some Dir"
      using Cons.prems(4) fr(2) [of "dirText d @ e" isdir w] fr(5) [OF Cons.prems(2)] False
      by (cases isdir) (auto simp: cleanEntry_def x)
    ultimately show ?thesis using Cons.IH [OF es fr(4) [OF Cons.prems(2)]] x by simp
  qed
qed simp

text \<open>The clean-up either cannot list the directory and does nothing, or runs over the entries listed.\<close>

lemma cleanStaleTmp_cases:
  obtains (unread) "fs_nodes (cleanStaleTmp w) = fs_nodes w" "fs_env (cleanStaleTmp w) = fs_env w"
      "\<not> (fs_faults w = [] \<and> isDir (fs_nodes w) (stateDir (fs_env w)))"
    | (listed) w1 where "fs_nodes w1 = fs_nodes w" "fs_env w1 = fs_env w" "fs_faults w = [] \<Longrightarrow> fs_faults w1 = []"
      "cleanStaleTmp w = fold (\<lambda>(e, isdir). cleanEntry (stateDir (fs_env w)) e isdir)
        (dirEntries (fs_nodes w) (stateDir (fs_env w))) w1"
proof -
  let ?d = "stateDir (fs_env w)"
  obtain r w1 where rd: "osReadDir ?d w = (r, w1)" by fastforce
  have w1: "fs_nodes w1 = fs_nodes w" "fs_env w1 = fs_env w"
    and ents: "\<And>es. r = Inr es \<Longrightarrow> es = dirEntries (fs_nodes w) ?d"
    using rd nextFault_frame [of w] by (auto simp: osReadDir_def split: option.splits if_splits prod.splits)
  have faults: "fs_faults w = [] \<Longrightarrow> fs_faults w1 = []"
    and ok: "fs_faults w = [] \<and> isDir (fs_nodes w) ?d \<Longrightarrow> is_ok r"
    using rd by (auto simp: osReadDir_def nextFault_def split: if_splits)
  show thesis
  proof (cases r)
    case (Inl e)
    with rd w1 ok show thesis by (intro unread) (auto simp: cleanStaleTmp_def)
  next
    case (Inr es)
    with rd ents [OF Inr] have "cleanStaleTmp w = fold (\<lambda>(e, isdir). cleanEntry ?d e isdir) (dirEntries (fs_nodes w) ?d) w1"
      by (simp add: cleanStaleTmp_def Let_def)
    with w1 faults show thesis by (rule listed)
  qed
qed

lemma dirEntries_names: "\<forall>(e, isdir) \<in> set (dirEntries ns d). CHR ''/'' \<notin> set e"
  by (auto simp: dirEntries_mem)

lemma cleanStaleTmp_keeps_states:
  assumes "plain_name m"
  shows "stored (cleanStaleTmp w) m = stored w m"
proof (cases rule: cleanStaleTmp_cases [of w])
  case unread
  then show ?thesis by (simp add: stored_def)
next
  case (listed w1)
  let ?d = "stateDir (fs_env w)"
  note fr = clean_entries [OF clean_dir_stateDir dirEntries_names, of "fs_env w" "fs_nodes w" ?d w1, folded listed(4)]
  have "\<not> hasSuffix e ''.state.tmp''" if "dirText ?d @ m @ ''.state'' = dirText ?d @ e" for e
  proof
    assume "hasSuffix e ''.state.tmp''"
    then have "last e = CHR ''p''" unfolding hasSuffix_iff by fastforce
    moreover from that have "e = m @ ''.state''" by simp
    ultimately show False by simp
  qed
  with fr have "map_of (fs_nodes (cleanStaleTmp w)) (dirText ?d @ m @ ''.state'')
      = map_of (fs_nodes w1) (dirText ?d @ m @ ''.state'')"
    by blast
  with fr listed(1,2) show ?thesis
    by (simp add: stored_def storedIn_def statePath_plain [OF clean_dir_stateDir assms])
qed

lemma cleanStaleTmp_leaves_no_tmp:
  assumes "fs_faults w = []" and "isDir (fs_nodes w) (stateDir (fs_env w))" and "hasSuffix e ''.state.tmp''"
  shows "(e, False) \<notin> set (dirEntries (fs_nodes (cleanStaleTmp w)) (stateDir (fs_env w)))"
proof (cases rule: cleanStaleTmp_cases [of w])
  case unread
  with assms show ?thesis by simp
next
  case (listed w1)
  let ?d = "stateDir (fs_env w)"
  let ?es = "dirEntries (fs_nodes w) ?d"
  note fr = clean_entries [OF clean_dir_stateDir dirEntries_names, of "fs_env w" "fs_nodes w" ?d w1, folded listed(4)]
  show ?thesis
  proof
    assume "(e, False) \<in> set (dirEntries (fs_nodes (cleanStaleTmp w)) ?d)"
    then obtain x where x: "map_of (fs_nodes (cleanStaleTmp w)) (dirText ?d @ e) = Some x" "x \<noteq> Dir"
        "e \<noteq> []" "CHR ''/'' \<notin> set e"
      by (auto simp: dirEntries_mem)
    with fr obtain y where y: "map_of (fs_nodes w) (dirText ?d @ e) = Some y" using listed(1) by fastforce
    show False
    proof (cases "y = Dir")
      case True
      with y have "\<forall>(e', isdir) \<in> set ?es. e' = e \<longrightarrow> isdir" by (auto simp: dirEntries_mem)
      with fr have "map_of (fs_nodes (cleanStaleTmp w)) (dirText ?d @ e) = map_of (fs_nodes w1) (dirText ?d @ e)"
        by fastforce
      with x y True listed(1) show False by simp
    next
      case False
      with y x have "(e, False) \<in> set ?es" by (auto simp: dirEntries_mem)
      with clean_entries_gone [OF clean_dir_stateDir dirEntries_names, of w1 e "fs_nodes w" ?d "fs_env w", folded listed(4)]
        assms listed(1,3) x y False
      show False by simp
    qed
  qed
qed

text \<open>
  C17. Cleaning up after interrupted writes at start-up: whatever fails, \<open>cleanStaleTmp\<close> touches
  no session's state file; with no fault it leaves no temporary state file in the directory.
\<close>

theorem cleanStaleTmp_safe:
  assumes "plain_name m"
  shows "stored (cleanStaleTmp w) m = stored w m
    \<and> (fs_faults w = [] \<and> isDir (fs_nodes w) (stateDir (fs_env w)) \<longrightarrow>
        (\<forall>e. hasSuffix e ''.state.tmp'' \<longrightarrow>
          (e, False) \<notin> set (dirEntries (fs_nodes (cleanStaleTmp w)) (stateDir (fs_env w)))))"
  using cleanStaleTmp_keeps_states [OF assms] cleanStaleTmp_leaves_no_tmp by blast

theorem cleanStaleTmp_safe_witness:
  "stored (cleanStaleTmp demo_disk) ''work'' = stored demo_disk ''work''
    \<and> (''work.state.tmp'', False) \<notin> set (dirEntries (fs_nodes (cleanStaleTmp demo_disk)) ''/s/hauntty/sessions'')"
proof -
  have "isDir (fs_nodes demo_disk) (stateDir (fs_env demo_disk))"
    unfolding demo_disk_dir by (simp add: isDir_def demo_disk_def)
  moreover have "fs_faults demo_disk = []" by (simp add: demo_disk_def)
  moreover have "hasSuffix ''work.state.tmp'' ''.state.tmp''" by (simp add: hasSuffix_def)
  moreover have "plain_name ''work''" by (simp add: plain_name_def)
  ultimately show ?thesis
    using cleanStaleTmp_safe [of "''work''" demo_disk] unfolding demo_disk_dir by blast
qed

end
