(* ===== verification/Store_Refinement.thy ===== *)
theory Store_Refinement
  imports Persist_Store
begin

text \<open>
  The state store of \<open>persist.go\<close> against an abstract specification: a map from session names to
  saved states on which saving, removing and loading either work or fail without effect. The
  simulation is proved once from the laws of the store's interface and holds for the files on
  disk by its interpretation.
\<close>

datatype storeOp =
    SaveOp string sessionState
  | CleanOp string
  | LoadOp string

type_synonym storeMap = "string \<Rightarrow> sessionState result option"

fun opName :: "storeOp \<Rightarrow> string" where
  "opName (SaveOp n s) = n"
| "opName (CleanOp n) = n"
| "opName (LoadOp n) = n"

section \<open>The specification\<close>

text \<open>A failed load says that the state is missing only when it is.\<close>

inductive specStep :: "storeOp \<Rightarrow> sessionState option result \<Rightarrow> storeMap \<Rightarrow> storeMap \<Rightarrow> bool" where
  spec_save: "specStep (SaveOp n s) (Inr None) m (m(n \<mapsto> Inr s))"
| spec_save_failed: "specStep (SaveOp n s) (Inl e) m m"
| spec_clean: "specStep (CleanOp n) (Inr None) m (m(n := None))"
| spec_clean_failed: "specStep (CleanOp n) (Inl e) m m"
| spec_load: "m n = Some (Inr s) \<Longrightarrow> specStep (LoadOp n) (Inr (Some s)) m m"
| spec_load_failed: "(errors_Is e ErrNotExist \<Longrightarrow> m n = None) \<Longrightarrow> specStep (LoadOp n) (Inl e) m m"

inductive_simps specStep_simps: "specStep op r m m'"

inductive specRun :: "storeOp list \<Rightarrow> sessionState option result list \<Rightarrow> storeMap \<Rightarrow> storeMap \<Rightarrow> bool" where
  spec_done: "specRun [] [] m m"
| spec_more: "specStep op r m m1 \<Longrightarrow> specRun ops rs m1 m' \<Longrightarrow> specRun (op # ops) (r # rs) m m'"

inductive_cases specRun_ConsE: "specRun (op # ops) rs m m'"

lemma spec_load_after_save:
  "specRun [SaveOp n s, LoadOp n] [Inr None, Inr (Some s')] m m' \<Longrightarrow> s' = s"
  by (auto elim!: specRun_ConsE simp: specStep_simps)

lemma spec_load_after_clean:
  "specRun [CleanOp n, LoadOp n] [Inr None, r] m m' \<Longrightarrow> \<not> is_ok r"
  by (auto elim!: specRun_ConsE simp: specStep_simps)

section \<open>The store as it is\<close>

fun runOp :: "storeOp \<Rightarrow> fs \<Rightarrow> sessionState option result \<times> fs" where
  "runOp (SaveOp n s) w = map_prod (map_sum id (\<lambda>_. None)) id (writeState n s w)"
| "runOp (CleanOp n) w = map_prod (map_sum id (\<lambda>_. None)) id (cleanState n w)"
| "runOp (LoadOp n) w = map_prod (map_sum id Some) id (loadState n w)"

fun runOps :: "storeOp list \<Rightarrow> fs \<Rightarrow> sessionState option result list \<times> fs" where
  "runOps [] w = ([], w)"
| "runOps (op # ops) w =
     (let (r, w) = runOp op w; (rs, w) = runOps ops w in (r # rs, w))"

text \<open>What the files stand for: the decoded state of every name that is a file name.\<close>

definition absStore :: "fs \<Rightarrow> storeMap" where
  "absStore w n = (if plain_name n then disk.saved w n else None)"

lemma absStore_cong: "(\<And>n. plain_name n \<Longrightarrow> stored w n = stored w' n) \<Longrightarrow> absStore w = absStore w'"
  by (auto simp: absStore_def disk.saved_def fun_eq_iff)

lemma save_refines:
  assumes "writeState n s w = (q, w')" and "plain_name n"
  shows "specStep (SaveOp n s) (map_sum id (\<lambda>_. None) q) (absStore w) (absStore w')"
proof -
  note view = disk.write_view [OF assms(2) _ assms(1)]
  show ?thesis
  proof (cases q)
    case (Inl e)
    then have "absStore w = absStore w'" using view by (intro absStore_cong) simp
    with Inl show ?thesis by (simp add: spec_save_failed)
  next
    case (Inr u)
    have "unpackNode (File (state_bytes s)) = Inr s" using disk.write_unpack [OF assms(2,1)] Inr by simp
    then have "absStore w' = (absStore w)(n \<mapsto> Inr s)"
      using view Inr assms(2) by (auto simp: absStore_def disk.saved_def fun_eq_iff)
    with Inr show ?thesis by (simp add: spec_save)
  qed
qed

lemma clean_refines:
  assumes "cleanState n w = (q, w')" and "plain_name n"
  shows "specStep (CleanOp n) (map_sum id (\<lambda>_. None) q) (absStore w) (absStore w')"
proof -
  note view = disk.clean_view [OF assms(2) _ assms(1)]
  show ?thesis
  proof (cases q)
    case (Inl e)
    then have "absStore w = absStore w'" using view by (intro absStore_cong) simp
    with Inl show ?thesis by (simp add: spec_clean_failed)
  next
    case (Inr u)
    then have "absStore w' = (absStore w)(n := None)"
      using view assms(2) by (auto simp: absStore_def disk.saved_def fun_eq_iff)
    with Inr show ?thesis by (simp add: spec_clean)
  qed
qed

lemma load_refines:
  assumes "loadState n w = (q, w')" and "plain_name n"
  shows "specStep (LoadOp n) (map_sum id Some q) (absStore w) (absStore w')"
proof -
  have same: "absStore w' = absStore w" using disk.load_view [OF assms(1)] by (intro absStore_cong) simp
  show ?thesis
  proof (cases q)
    case (Inl e)
    have "absStore w n = None" if "errors_Is e ErrNotExist"
      using disk.load_missing [of n w] assms Inl that by (simp add: absStore_def disk.saved_def)
    with Inl same show ?thesis by (simp add: spec_load_failed)
  next
    case (Inr s)
    have "absStore w n = Some (Inr s)" using disk.load_saved [of n w] assms Inr by (simp add: absStore_def)
    with Inr same show ?thesis by (simp add: spec_load)
  qed
qed

lemma runOp_refines:
  assumes "runOp op w = (r, w')" and "plain_name (opName op)"
  shows "specStep op r (absStore w) (absStore w')"
  using assms by (cases op) (auto simp: map_prod_def split: prod.splits intro!: save_refines clean_refines load_refines)

section \<open>Properties\<close>

text \<open>
  C40. The state files implement a map from session names to saved states: any sequence of saves,
  removals and loads on disk, with whatever faults, is a run of the specification with the same
  results, from the map the files stand for before to the one they stand for afterwards.
\<close>

theorem store_refines_map:
  assumes "\<forall>op \<in> set ops. plain_name (opName op)" and "runOps ops w = (rs, w')"
  shows "specRun ops rs (absStore w) (absStore w')"
  using assms
proof (induction ops arbitrary: w rs)
  case Nil
  then show ?case by (simp add: spec_done)
next
  case (Cons op ops)
  obtain r w1 where one: "runOp op w = (r, w1)" by fastforce
  obtain rs' where rest: "runOps ops w1 = (rs', w')" and rs: "rs = r # rs'"
    using Cons.prems(2) one by (auto split: prod.splits)
  show ?case unfolding rs
    using spec_more [OF runOp_refines [OF one] Cons.IH [OF _ rest]] Cons.prems(1) by simp
qed

theorem store_refines_map_witness:
  "let run = runOps [SaveOp ''a'' demo_state, LoadOp ''a'', CleanOp ''a'', LoadOp ''a''] demo_fs
   in length (fst run) = 4
     \<and> specRun [SaveOp ''a'' demo_state, LoadOp ''a'', CleanOp ''a'', LoadOp ''a''] (fst run) (absStore demo_fs) (absStore (snd run))"
proof -
  let ?ops = "[SaveOp ''a'' demo_state, LoadOp ''a'', CleanOp ''a'', LoadOp ''a'']"
  have "\<forall>op \<in> set ?ops. plain_name (opName op)" by (simp add: plain_name_def)
  from store_refines_map [OF this prod.collapse [symmetric], of demo_fs]
  show ?thesis by (simp add: Let_def split_beta)
qed

end
