(* ===== verification/Terminal_Keys.thy ===== *)
theory Terminal_Keys
  imports Ht_Prelude
begin

text \<open>
  Keys: the key notation of \<open>internal/client/keys.go\<close>, the daemon's translation of key codes in
  \<open>internal/daemon/terminal_state.go\<close>, the key numbers of \<open>libghostty/key_event.go\<close> the two use, and
  the dump formats. A switch over characters is a table of its cases, searched in order. Strings
  are ASCII: \<open>strings.ToLower\<close> lowers the letters A to Z.
\<close>

section \<open>Key numbers\<close>

definition KeyBackquote :: int where "KeyBackquote = 1"
definition KeyBackslash :: int where "KeyBackslash = 2"
definition KeyBracketLeft :: int where "KeyBracketLeft = 3"
definition KeyBracketRight :: int where "KeyBracketRight = 4"
definition KeyComma :: int where "KeyComma = 5"
definition KeyDigit0 :: int where "KeyDigit0 = 6"
definition KeyDigit1 :: int where "KeyDigit1 = 7"
definition KeyDigit2 :: int where "KeyDigit2 = 8"
definition KeyDigit3 :: int where "KeyDigit3 = 9"
definition KeyDigit4 :: int where "KeyDigit4 = 10"
definition KeyDigit5 :: int where "KeyDigit5 = 11"
definition KeyDigit6 :: int where "KeyDigit6 = 12"
definition KeyDigit7 :: int where "KeyDigit7 = 13"
definition KeyDigit8 :: int where "KeyDigit8 = 14"
definition KeyDigit9 :: int where "KeyDigit9 = 15"
definition KeyEqual :: int where "KeyEqual = 16"
definition KeyA :: int where "KeyA = 20"
definition KeyB :: int where "KeyB = 21"
definition KeyC :: int where "KeyC = 22"
definition KeyD :: int where "KeyD = 23"
definition KeyE :: int where "KeyE = 24"
definition KeyF :: int where "KeyF = 25"
definition KeyG :: int where "KeyG = 26"
definition KeyH :: int where "KeyH = 27"
definition KeyI :: int where "KeyI = 28"
definition KeyJ :: int where "KeyJ = 29"
definition KeyK :: int where "KeyK = 30"
definition KeyL :: int where "KeyL = 31"
definition KeyM :: int where "KeyM = 32"
definition KeyN :: int where "KeyN = 33"
definition KeyO :: int where "KeyO = 34"
definition KeyP :: int where "KeyP = 35"
definition KeyQ :: int where "KeyQ = 36"
definition KeyR :: int where "KeyR = 37"
definition KeyS :: int where "KeyS = 38"
definition KeyT :: int where "KeyT = 39"
definition KeyU :: int where "KeyU = 40"
definition KeyV :: int where "KeyV = 41"
definition KeyW :: int where "KeyW = 42"
definition KeyX :: int where "KeyX = 43"
definition KeyY :: int where "KeyY = 44"
definition KeyZ :: int where "KeyZ = 45"
definition KeyMinus :: int where "KeyMinus = 46"
definition KeyPeriod :: int where "KeyPeriod = 47"
definition KeyQuote :: int where "KeyQuote = 48"
definition KeySemicolon :: int where "KeySemicolon = 49"
definition KeySlash :: int where "KeySlash = 50"
definition KeyBackspace :: int where "KeyBackspace = 53"
definition KeyEnter :: int where "KeyEnter = 58"
definition KeySpace :: int where "KeySpace = 63"
definition KeyTab :: int where "KeyTab = 64"
definition KeyDelete :: int where "KeyDelete = 68"
definition KeyEnd :: int where "KeyEnd = 69"
definition KeyHome :: int where "KeyHome = 71"
definition KeyInsert :: int where "KeyInsert = 72"
definition KeyPageDown :: int where "KeyPageDown = 73"
definition KeyPageUp :: int where "KeyPageUp = 74"
definition KeyArrowDown :: int where "KeyArrowDown = 75"
definition KeyArrowLeft :: int where "KeyArrowLeft = 76"
definition KeyArrowRight :: int where "KeyArrowRight = 77"
definition KeyArrowUp :: int where "KeyArrowUp = 78"
definition KeyEscape :: int where "KeyEscape = 120"
definition KeyF1 :: int where "KeyF1 = 121"

definition ModShift :: u32 where "ModShift = 0x01"
definition ModCtrl :: u32 where "ModCtrl = 0x02"
definition ModAlt :: u32 where "ModAlt = 0x04"
definition ModSuper :: u32 where "ModSuper = 0x08"

definition client_KeyEnter :: u32 where "client_KeyEnter = 0x100"
definition client_KeyEscape :: u32 where "client_KeyEscape = 0x101"
definition client_KeyTab :: u32 where "client_KeyTab = 0x102"
definition client_KeyBackspace :: u32 where "client_KeyBackspace = 0x103"
definition client_KeyUp :: u32 where "client_KeyUp = 0x110"
definition client_KeyDown :: u32 where "client_KeyDown = 0x111"
definition client_KeyLeft :: u32 where "client_KeyLeft = 0x112"
definition client_KeyRight :: u32 where "client_KeyRight = 0x113"
definition client_KeyHome :: u32 where "client_KeyHome = 0x120"
definition client_KeyEnd :: u32 where "client_KeyEnd = 0x121"
definition client_KeyPageUp :: u32 where "client_KeyPageUp = 0x122"
definition client_KeyPageDown :: u32 where "client_KeyPageDown = 0x123"
definition client_KeyInsert :: u32 where "client_KeyInsert = 0x124"
definition client_KeyDelete :: u32 where "client_KeyDelete = 0x125"
definition client_KeyF1 :: u32 where "client_KeyF1 = 0x130"
definition client_KeyF2 :: u32 where "client_KeyF2 = 0x131"
definition client_KeyF3 :: u32 where "client_KeyF3 = 0x132"
definition client_KeyF4 :: u32 where "client_KeyF4 = 0x133"
definition client_KeyF5 :: u32 where "client_KeyF5 = 0x134"
definition client_KeyF6 :: u32 where "client_KeyF6 = 0x135"
definition client_KeyF7 :: u32 where "client_KeyF7 = 0x136"
definition client_KeyF8 :: u32 where "client_KeyF8 = 0x137"
definition client_KeyF9 :: u32 where "client_KeyF9 = 0x138"
definition client_KeyF10 :: u32 where "client_KeyF10 = 0x139"
definition client_KeyF11 :: u32 where "client_KeyF11 = 0x13a"
definition client_KeyF12 :: u32 where "client_KeyF12 = 0x13b"

section \<open>The daemon's side\<close>

definition switchOn :: "('k list \<times> 'v) list \<Rightarrow> 'k \<Rightarrow> 'v option" where
  "switchOn table k = map_option snd (find (\<lambda>(ks, v). k \<in> set ks) table)"

definition byteOf :: "u32 \<Rightarrow> char" where
  "byteOf code = char_of_byte (ucast code)"

definition asciiKeys :: "(char list \<times> int) list" where
  "asciiKeys =
     [([CHR 0x60, CHR 0x7E], KeyBackquote),
      ([CHR 0x5C, CHR 0x7C], KeyBackslash),
      ([CHR 0x5B, CHR 0x7B], KeyBracketLeft),
      ([CHR 0x5D, CHR 0x7D], KeyBracketRight),
      ([CHR 0x2C, CHR 0x3C], KeyComma),
      ([CHR ''0'', CHR 0x29], KeyDigit0),
      ([CHR ''1'', CHR 0x21], KeyDigit1),
      ([CHR ''2'', CHR 0x40], KeyDigit2),
      ([CHR ''3'', CHR 0x23], KeyDigit3),
      ([CHR ''4'', CHR 0x24], KeyDigit4),
      ([CHR ''5'', CHR 0x25], KeyDigit5),
      ([CHR ''6'', CHR 0x5E], KeyDigit6),
      ([CHR ''7'', CHR 0x26], KeyDigit7),
      ([CHR ''8'', CHR 0x2A], KeyDigit8),
      ([CHR ''9'', CHR 0x28], KeyDigit9),
      ([CHR 0x3D, CHR 0x2B], KeyEqual),
      ([CHR ''a'', CHR ''A''], KeyA),
      ([CHR ''b'', CHR ''B''], KeyB),
      ([CHR ''c'', CHR ''C''], KeyC),
      ([CHR ''d'', CHR ''D''], KeyD),
      ([CHR ''e'', CHR ''E''], KeyE),
      ([CHR ''f'', CHR ''F''], KeyF),
      ([CHR ''g'', CHR ''G''], KeyG),
      ([CHR ''h'', CHR ''H''], KeyH),
      ([CHR ''i'', CHR ''I''], KeyI),
      ([CHR ''j'', CHR ''J''], KeyJ),
      ([CHR ''k'', CHR ''K''], KeyK),
      ([CHR ''l'', CHR ''L''], KeyL),
      ([CHR ''m'', CHR ''M''], KeyM),
      ([CHR ''n'', CHR ''N''], KeyN),
      ([CHR ''o'', CHR ''O''], KeyO),
      ([CHR ''p'', CHR ''P''], KeyP),
      ([CHR ''q'', CHR ''Q''], KeyQ),
      ([CHR ''r'', CHR ''R''], KeyR),
      ([CHR ''s'', CHR ''S''], KeyS),
      ([CHR ''t'', CHR ''T''], KeyT),
      ([CHR ''u'', CHR ''U''], KeyU),
      ([CHR ''v'', CHR ''V''], KeyV),
      ([CHR ''w'', CHR ''W''], KeyW),
      ([CHR ''x'', CHR ''X''], KeyX),
      ([CHR ''y'', CHR ''Y''], KeyY),
      ([CHR ''z'', CHR ''Z''], KeyZ),
      ([CHR 0x2D, CHR 0x5F], KeyMinus),
      ([CHR 0x2E, CHR 0x3E], KeyPeriod),
      ([CHR 0x27, CHR 0x22], KeyQuote),
      ([CHR 0x3B, CHR 0x3A], KeySemicolon),
      ([CHR 0x2F, CHR 0x3F], KeySlash),
      ([CHR 0x20], KeySpace)]"

definition asciiPhysicalKey :: "char \<Rightarrow> int option" where
  "asciiPhysicalKey ch = switchOn asciiKeys ch"

definition unshiftedChars :: "char list" where
  "unshiftedChars = [CHR 0x60] @ ''1234567890-=[]'' @ [CHR 0x5C] @ '';'' @ [CHR 0x27] @ '',./''"

definition shiftedChars :: "char list" where
  "shiftedChars = ''~!@#$%^&*()_+{}|:'' @ [CHR 0x22] @ ''<>?''"

definition shiftedASCII :: "char \<Rightarrow> char option" where
  "shiftedASCII ch =
     (let n = (of_char ch :: int)
      in if 97 \<le> n \<and> n \<le> 122 then Some (char_of (n - 32))
         else map_option (\<lambda>i. shiftedChars ! i) (indexByte unshiftedChars ch))"

definition specialKeys :: "(u32 list \<times> int \<times> u32) list" where
  "specialKeys =
     [([0x100], KeyEnter, 13), ([0x101], KeyEscape, 0x1b), ([0x102], KeyTab, 9), ([0x103], KeyBackspace, 0x7f),
      ([0x110], KeyArrowUp, 0), ([0x111], KeyArrowDown, 0), ([0x112], KeyArrowLeft, 0), ([0x113], KeyArrowRight, 0),
      ([0x120], KeyHome, 0), ([0x121], KeyEnd, 0), ([0x122], KeyPageUp, 0), ([0x123], KeyPageDown, 0),
      ([0x124], KeyInsert, 0), ([0x125], KeyDelete, 0)]"

text \<open>\<open>terminalKeyEvent\<close>: key, unshifted codepoint and text; \<open>None\<close> for an unsupported code.\<close>

definition terminalKeyEvent :: "u32 \<Rightarrow> u32 \<Rightarrow> (int \<times> u32 \<times> char list) option" where
  "terminalKeyEvent keyCode mods =
     (if 0x20 \<le> keyCode \<and> keyCode \<le> 0x7e
      then (case asciiPhysicalKey (byteOf keyCode) of
              None \<Rightarrow> None
            | Some key \<Rightarrow>
                let ch = byteOf keyCode
                in (case (if mods AND ModShift \<noteq> 0 then shiftedASCII ch else None) of
                      Some shifted \<Rightarrow> Some (key, keyCode, [shifted])
                    | None \<Rightarrow> if mods AND ModCtrl = 0 then Some (key, keyCode, [ch]) else Some (key, keyCode, [])))
      else (case switchOn specialKeys keyCode of
              Some (key, cp) \<Rightarrow> Some (key, cp, [])
            | None \<Rightarrow>
                if 0x130 \<le> keyCode \<and> keyCode \<le> 0x13b
                then Some (KeyF1 + uint (keyCode - 0x130), 0, []) else None))"

text \<open>What \<open>encodeClientKey\<close> puts into the key event before the emulator encodes it; \<open>libghostty.Mods\<close> has 16 bits.\<close>

record keyEvent =
  ke_key :: int
  ke_mods :: u16
  ke_consumed :: u16
  ke_unshifted :: u32
  ke_utf8 :: "char list"

definition encodeClientKeyEvent :: "u32 \<Rightarrow> u32 \<Rightarrow> keyEvent result" where
  "encodeClientKeyEvent keyCode mods =
     (case terminalKeyEvent keyCode mods of
        None \<Rightarrow> Inl (Errorf (''unsupported key code '' @ string_of_nat (unat keyCode)))
      | Some (key, codepoint, text) \<Rightarrow>
          Inr \<lparr>ke_key = key, ke_mods = ucast mods,
               ke_consumed = (if mods AND ModShift \<noteq> 0 \<and> shiftedASCII (byteOf keyCode) \<noteq> None then ucast ModShift else 0),
               ke_unshifted = codepoint, ke_utf8 = text\<rparr>)"

section \<open>The client's side\<close>

record keyInput =
  ki_Code :: u32
  ki_Mods :: u32

definition keyNames :: "(string list \<times> u32) list" where
  "keyNames =
     [([''enter'', ''return''], client_KeyEnter),
      ([''escape'', ''esc''], client_KeyEscape),
      ([''tab''], client_KeyTab),
      ([''backspace''], client_KeyBackspace),
      ([''space''], 32),
      ([''up''], client_KeyUp),
      ([''down''], client_KeyDown),
      ([''left''], client_KeyLeft),
      ([''right''], client_KeyRight),
      ([''home''], client_KeyHome),
      ([''end''], client_KeyEnd),
      ([''pageup'', ''pgup''], client_KeyPageUp),
      ([''pagedown'', ''pgdn''], client_KeyPageDown),
      ([''insert''], client_KeyInsert),
      ([''delete'', ''del''], client_KeyDelete),
      ([''f1''], client_KeyF1),
      ([''f2''], client_KeyF2),
      ([''f3''], client_KeyF3),
      ([''f4''], client_KeyF4),
      ([''f5''], client_KeyF5),
      ([''f6''], client_KeyF6),
      ([''f7''], client_KeyF7),
      ([''f8''], client_KeyF8),
      ([''f9''], client_KeyF9),
      ([''f10''], client_KeyF10),
      ([''f11''], client_KeyF11),
      ([''f12''], client_KeyF12)]"

definition parseKeyName :: "string \<Rightarrow> u32 result" where
  "parseKeyName name =
     (case switchOn keyNames name of
        Some code \<Rightarrow> Inr code
      | None \<Rightarrow>
          if length name = 1 \<and> 0x20 \<le> (of_char (hd name) :: int) \<and> (of_char (hd name) :: int) \<le> 0x7e
          then Inr (of_char (hd name))
          else Inl (Errorf (''unknown key: '' @ quoted name)))"

definition modifierNames :: "(string list \<times> u32) list" where
  "modifierNames = [([''ctrl'', ''control''], ModCtrl), ([''shift''], ModShift),
     ([''alt'', ''opt'', ''option''], ModAlt), ([''super'', ''cmd'', ''command''], ModSuper)]"

fun parseMods :: "string list \<Rightarrow> u32 \<Rightarrow> u32 result" where
  "parseMods [] mods = Inr mods"
| "parseMods (m # ms) mods =
     (case switchOn modifierNames m of
        Some flag \<Rightarrow> parseMods ms (mods OR flag)
      | None \<Rightarrow> Inl (Errorf (''unknown modifier: '' @ quoted m)))"

definition ParseKeyNotation :: "string \<Rightarrow> keyInput result" where
  "ParseKeyNotation notation =
     (let parts = splitOn CHR ''+'' (trimSpace (map toLowerAscii notation))
      in case parseMods (butlast parts) 0 of
           Inl e \<Rightarrow> Inl e
         | Inr mods \<Rightarrow>
             (case parseKeyName (last parts) of
                Inl e \<Rightarrow> Inl e
              | Inr code \<Rightarrow> Inr \<lparr>ki_Code = code, ki_Mods = mods\<rparr>))"

definition shiftedKeyByte :: "char \<Rightarrow> char option" where
  "shiftedKeyByte ch =
     (let n = (of_char ch :: int)
      in if 97 \<le> n \<and> n \<le> 122 then Some (char_of (n - 32))
         else map_option (\<lambda>i. shiftedChars ! i) (indexByte unshiftedChars ch))"

definition detachKeys :: "(char list \<times> int) list" where
  "detachKeys =
     [([CHR 0x29], KeyDigit0),
      ([CHR 0x21], KeyDigit1),
      ([CHR 0x40], KeyDigit2),
      ([CHR 0x23], KeyDigit3),
      ([CHR 0x24], KeyDigit4),
      ([CHR 0x25], KeyDigit5),
      ([CHR 0x5E], KeyDigit6),
      ([CHR 0x26], KeyDigit7),
      ([CHR 0x2A], KeyDigit8),
      ([CHR 0x28], KeyDigit9),
      ([CHR 0x60, CHR 0x7E], KeyBackquote),
      ([CHR 0x5C, CHR 0x7C], KeyBackslash),
      ([CHR 0x5B, CHR 0x7B], KeyBracketLeft),
      ([CHR 0x5D, CHR 0x7D], KeyBracketRight),
      ([CHR 0x2C, CHR 0x3C], KeyComma),
      ([CHR 0x3D, CHR 0x2B], KeyEqual),
      ([CHR 0x2D, CHR 0x5F], KeyMinus),
      ([CHR 0x2E, CHR 0x3E], KeyPeriod),
      ([CHR 0x27, CHR 0x22], KeyQuote),
      ([CHR 0x3B, CHR 0x3A], KeySemicolon),
      ([CHR 0x2F, CHR 0x3F], KeySlash),
      ([CHR 0x20], KeySpace)]"

definition detachPhysicalKey :: "char \<Rightarrow> int option" where
  "detachPhysicalKey ch =
     (let n = (of_char ch :: int)
      in if 97 \<le> n \<and> n \<le> 122 then Some (KeyA + (n - 97))
         else if 48 \<le> n \<and> n \<le> 57 then Some (KeyDigit0 + (n - 48))
         else switchOn detachKeys ch)"

text \<open>The key event \<open>encodeDetachKey\<close> builds, for codes in the printable range.\<close>

definition detachKeyEvent :: "u32 \<Rightarrow> u32 \<Rightarrow> keyEvent result" where
  "detachKeyEvent code mods =
     (case detachPhysicalKey (byteOf code) of
        None \<Rightarrow> Inl (Errorf (''unsupported key code '' @ string_of_nat (unat code)))
      | Some key \<Rightarrow>
          let (consumed, text) =
            (if mods AND ModShift \<noteq> 0
             then (case shiftedKeyByte (byteOf code) of
                     Some shifted \<Rightarrow> (ucast ModShift, [shifted])
                   | None \<Rightarrow> if mods AND ModCtrl = 0 then (0, [byteOf code]) else (0, []))
             else if mods AND ModCtrl = 0 then (0, [byteOf code])
             else (0, []))
          in Inr \<lparr>ke_key = key, ke_mods = ucast mods, ke_consumed = consumed, ke_unshifted = code, ke_utf8 = text\<rparr>)"

text \<open>
  \<open>ParseDetachKey\<close>: \<open>encLegacy\<close> and \<open>encKitty\<close> are the emulator's key encoder on a fresh terminal
  without and with the kitty keyboard protocol, \<open>setupErr\<close> the failure of creating the terminal,
  the encoder or the event.
\<close>

record detachKey =
  dk_rawByte :: byte
  dk_hasRaw :: bool
  dk_csiSeq :: "byte list"

definition ParseDetachKey ::
  "gerror option \<Rightarrow> (keyEvent \<Rightarrow> byte list result) \<Rightarrow> (keyEvent \<Rightarrow> byte list result) \<Rightarrow> string \<Rightarrow> detachKey result" where
  "ParseDetachKey setupErr encLegacy encKitty notation =
     (case ParseKeyNotation notation of
        Inl e \<Rightarrow> Inl e
      | Inr ki \<Rightarrow>
          if ki_Mods ki AND ModCtrl = 0 then Inl (Errorf ''detach keybind must include ctrl modifier'')
          else if ki_Code ki < 0x20 \<or> ki_Code ki > 0x7e
          then Inl (Errorf ''detach keybind must be ctrl+<printable key>'')
          else if setupErr \<noteq> None then Inl (Wrap ''encode detach key'' (the setupErr))
          else (case detachKeyEvent (ki_Code ki) (ki_Mods ki AND ModCtrl) of
                  Inl e \<Rightarrow> Inl (Wrap ''encode legacy detach key'' e)
                | Inr ev \<Rightarrow>
               (case encLegacy ev of
                  Inl e \<Rightarrow> Inl (Wrap ''encode legacy detach key'' e)
                | Inr legacy \<Rightarrow>
                    let hasRaw = (length legacy = 1 \<and> legacy ! 0 \<noteq> 0x1b);
                        raw = (if hasRaw then legacy ! 0 else 0)
                    in (case detachKeyEvent (ki_Code ki) (ki_Mods ki) of
                          Inl e \<Rightarrow> Inl (Wrap ''encode kitty detach key'' e)
                        | Inr ev' \<Rightarrow>
                       (case encKitty ev' of
                          Inl e \<Rightarrow> Inl (Wrap ''encode kitty detach key'' e)
                        | Inr kitty \<Rightarrow> Inr \<lparr>dk_rawByte = raw, dk_hasRaw = hasRaw, dk_csiSeq = kitty\<rparr>)))))"

section \<open>Dump formats\<close>

definition DumpPlain :: u8 where "DumpPlain = 0"
definition DumpVT :: u8 where "DumpVT = 1"
definition DumpHTML :: u8 where "DumpHTML = 2"
definition DumpFlagUnwrap :: u8 where "DumpFlagUnwrap = 0x10"
definition DumpFlagScrollback :: u8 where "DumpFlagScrollback = 0x20"
definition DumpFormatMask :: u8 where "DumpFormatMask = 0x0F"

definition FormatterFormatPlain :: nat where "FormatterFormatPlain = 0"
definition FormatterFormatVT :: nat where "FormatterFormatVT = 1"
definition FormatterFormatHTML :: nat where "FormatterFormatHTML = 2"

record terminalFormat =
  tf_emit :: nat
  tf_unwrap :: bool
  tf_scrollback :: bool
  tf_full :: bool
  tf_safe :: bool

definition terminalFormatVTFull :: terminalFormat where
  "terminalFormatVTFull = \<lparr>tf_emit = FormatterFormatVT, tf_unwrap = False, tf_scrollback = True, tf_full = True,
     tf_safe = False\<rparr>"

definition terminalDumpFormat :: "u8 \<Rightarrow> terminalFormat" where
  "terminalDumpFormat format =
     (let kind = format AND DumpFormatMask
      in \<lparr>tf_emit = (if kind = DumpVT then FormatterFormatVT else if kind = DumpHTML then FormatterFormatHTML
                     else FormatterFormatPlain),
          tf_unwrap = (format AND DumpFlagUnwrap \<noteq> 0), tf_scrollback = (format AND DumpFlagScrollback \<noteq> 0),
          tf_full = False, tf_safe = (kind = DumpVT)\<rparr>)"

section \<open>Lemmas\<close>

text \<open>A property of all characters is a finite check.\<close>

definition bits :: "bool list" where "bits = [False, True]"

lemma in_bits: "x \<in> set bits" by (cases x) (simp_all add: bits_def)

definition allChars :: "char list" where
  "allChars = [Char b0 b1 b2 b3 b4 b5 b6 b7. b0 \<leftarrow> bits, b1 \<leftarrow> bits, b2 \<leftarrow> bits, b3 \<leftarrow> bits,
     b4 \<leftarrow> bits, b5 \<leftarrow> bits, b6 \<leftarrow> bits, b7 \<leftarrow> bits]"

lemma all_chars: "list_all P allChars \<Longrightarrow> P c"
proof -
  assume "list_all P allChars"
  moreover have "c \<in> set allChars" by (cases c) (simp add: allChars_def, blast intro: in_bits)
  ultimately show ?thesis by (simp add: list_all_iff)
qed

definition isUpper :: "char \<Rightarrow> bool" where
  "isUpper c \<longleftrightarrow> 65 \<le> (of_char c :: int) \<and> (of_char c :: int) \<le> 90"

lemma ascii_keys_check:
  "list_all (\<lambda>c. (asciiPhysicalKey c \<noteq> None) = (32 \<le> (of_char c :: int) \<and> (of_char c :: int) \<le> 126)) allChars"
  by code_simp

lemma physical_keys_check: "list_all (\<lambda>c. isUpper c \<or> detachPhysicalKey c = asciiPhysicalKey c) allChars"
  by code_simp

lemmas physical_keys = all_chars [OF physical_keys_check]
lemmas ascii_keys = all_chars [OF ascii_keys_check]

lemma of_char_int_range: "0 \<le> (of_char c :: int)" "(of_char c :: int) < 256"
proof -
  have eq: "(of_char c :: int) = int (of_char c)" by (rule of_nat_of_char [symmetric])
  show "0 \<le> (of_char c :: int)" unfolding eq by simp
  show "(of_char c :: int) < 256" unfolding eq using of_char_less_256 [of c] by linarith
qed

lemma uint_of_char: "uint (of_char c :: u32) = of_char c"
proof -
  have "(of_char c :: 32 word) = word_of_int (of_char c)" by (rule of_int_of_char [symmetric])
  then have "uint (of_char c :: 32 word) = of_char c mod 4294967296" by (simp add: uint_word_of_int)
  with of_char_int_range [of c] show ?thesis by simp
qed

lemma byteOf_of_char: "byteOf (of_char c) = c"
proof -
  have "unat (ucast (of_char c :: 32 word) :: 8 word) = nat (uint (of_char c :: 32 word) mod 256)"
    by (simp add: unsigned_ucast_eq take_bit_eq_mod nat_mod_distrib flip: nat_uint_eq)
  also have "\<dots> = of_char c" using of_char_int_range [of c]
    by (simp add: uint_of_char)
  finally show ?thesis by (simp add: byteOf_def char_of_byte_def)
qed

lemma printable_of_char: "0x20 \<le> (of_char c :: u32) \<and> (of_char c :: u32) \<le> 0x7e \<longleftrightarrow> 32 \<le> (of_char c :: int) \<and> (of_char c :: int) \<le> 126"
  by (simp add: word_le_def uint_of_char)

lemma special_codes_check:
  "list_all (\<lambda>(_, c). c = 32 \<or> \<not> (0x20 \<le> c \<and> c \<le> 0x7e) \<and> (switchOn specialKeys c \<noteq> None \<or> 0x130 \<le> c \<and> c \<le> 0x13b)) keyNames"
  by code_simp

lemma switchOn_SomeD: "switchOn t k = Some v \<Longrightarrow> \<exists>ks. (ks, v) \<in> set t \<and> k \<in> set ks"
  by (auto simp: switchOn_def find_Some_iff) (metis nth_mem)

text \<open>The codes of accepted names: a printable character or one of the daemon's special codes.\<close>

lemma parseKeyName_codes:
  assumes "parseKeyName name = Inr code"
  obtains c where "code = of_char c" "32 \<le> (of_char c :: int)" "(of_char c :: int) \<le> 126" "c = CHR 0x20 \<or> name = [c]"
    | "\<not> (0x20 \<le> code \<and> code \<le> 0x7e)" "switchOn specialKeys code \<noteq> None \<or> 0x130 \<le> code \<and> code \<le> 0x13b"
proof (cases "switchOn keyNames name")
  case None
  with assms have "length name = 1" and r: "32 \<le> (of_char (hd name) :: int)" "(of_char (hd name) :: int) \<le> 126"
    and "code = of_char (hd name)" by (auto simp: parseKeyName_def split: if_splits)
  moreover from this(1) have "name = [hd name]" by (cases name) auto
  ultimately show ?thesis using that(1) by blast
next
  case (Some v)
  with assms have "switchOn keyNames name = Some code" by (simp add: parseKeyName_def)
  then obtain ns where "(ns, code) \<in> set keyNames" using switchOn_SomeD by fastforce
  with special_codes_check consider "code = 32"
    | "\<not> (0x20 \<le> code \<and> code \<le> 0x7e)" "switchOn specialKeys code \<noteq> None \<or> 0x130 \<le> code \<and> code \<le> 0x13b"
    by (force simp: list_all_iff)
  then show ?thesis
  proof cases
    case 1
    then have "code = of_char CHR 0x20" by simp
    then show ?thesis using that(1) [of "CHR 0x20"] by simp
  next
    case 2
    then show ?thesis by (rule that(2))
  qed
qed

lemma not_upper_lower: "\<not> isUpper (toLowerAscii c)"
  by (auto simp: isUpper_def toLowerAscii_def Let_def of_nat_of_char [where ?'a = int, symmetric] of_char_of nat_less_iff)

text \<open>The daemon's event for a printable character.\<close>

lemma terminalKeyEvent_char:
  assumes "32 \<le> (of_char c :: int)" "(of_char c :: int) \<le> 126"
  obtains key where "asciiPhysicalKey c = Some key"
    and "terminalKeyEvent (of_char c) mods = Some (key, of_char c,
           case (if mods AND ModShift \<noteq> 0 then shiftedASCII c else None) of Some s \<Rightarrow> [s]
           | None \<Rightarrow> if mods AND ModCtrl = 0 then [c] else [])"
proof -
  obtain key where key: "asciiPhysicalKey c = Some key" using ascii_keys [of c] assms by auto
  have p: "0x20 \<le> (of_char c :: u32) \<and> (of_char c :: u32) \<le> 0x7e" using printable_of_char assms by blast
  show ?thesis
  proof (rule that [OF key])
    show "terminalKeyEvent (of_char c) mods = Some (key, of_char c,
           case (if mods AND ModShift \<noteq> 0 then shiftedASCII c else None) of Some s \<Rightarrow> [s]
           | None \<Rightarrow> if mods AND ModCtrl = 0 then [c] else [])"
      using p key by (simp add: terminalKeyEvent_def byteOf_of_char Let_def split: option.split)
  qed
qed

lemma modifiers_check: "list_all (\<lambda>(_, f). f \<le> 15) modifierNames"
  by code_simp

lemma parseMods_bounded: "parseMods ms mods = Inr r \<Longrightarrow> mods \<le> 15 \<Longrightarrow> r \<le> 15"
proof (induction ms mods rule: parseMods.induct)
  case (2 m ms mods)
  then obtain f where f: "switchOn modifierNames m = Some f" and rest: "parseMods ms (mods OR f) = Inr r"
    by (auto split: option.splits)
  have "f \<le> 15" using switchOn_SomeD [OF f] modifiers_check by (auto simp: list_all_iff)
  have four: "x \<le> 15 \<longleftrightarrow> take_bit 4 x = x" for x :: "32 word"
    by (simp add: take_bit_eq_mod word_unat_eq_iff unat_mod word_le_nat_alt mod_eq_self_iff_div_eq_0) presburger
  from "2.prems"(2) \<open>f \<le> 15\<close> have "mods OR f \<le> 15" unfolding four by (simp add: take_bit_or)
  with "2.IH" f rest show ?case by simp
qed simp

lemma splitOn_subset: "w \<in> set (splitOn c s) \<Longrightarrow> set w \<subseteq> set s"
proof (induction s arbitrary: w)
  case (Cons x s)
  have ih: "v \<in> set (splitOn c s) \<Longrightarrow> y \<in> set v \<Longrightarrow> y \<in> set s" for v y using Cons.IH by blast
  show ?case
  proof (cases "splitOn c s")
    case Nil
    with Cons.prems show ?thesis by (auto split: if_splits)
  next
    case (Cons v vs)
    with Cons.prems have "w = [] \<or> w = x # v \<or> w = v \<or> w \<in> set vs" by (auto split: if_splits)
    with ih [of v] ih [of w] Cons show ?thesis by auto
  qed
qed simp

lemma trimSpace_subset: "set (trimSpace s) \<subseteq> set s"
  by (auto simp: trimSpace_def dest!: set_dropWhileD)

text \<open>The key part of a notation has no capital letter.\<close>

lemma key_part_lower:
  assumes "c \<in> set (last (splitOn CHR ''+'' (trimSpace (map toLowerAscii notation))))"
  shows "\<not> isUpper c"
proof -
  let ?parts = "splitOn CHR ''+'' (trimSpace (map toLowerAscii notation))"
  have "?parts \<noteq> []" by (cases "trimSpace (map toLowerAscii notation)") (auto split: list.split)
  then have "last ?parts \<in> set ?parts" by (rule last_in_set)
  from splitOn_subset [OF this] assms have "c \<in> set (trimSpace (map toLowerAscii notation))" by (rule subsetD)
  then have "c \<in> set (map toLowerAscii notation)" by (rule subsetD [OF trimSpace_subset])
  then show ?thesis using not_upper_lower by auto
qed

lemma function_key_cases:
  assumes "0x130 \<le> code" "code \<le> (0x13b :: u32)"
  shows "code \<in> {0x130, 0x131, 0x132, 0x133, 0x134, 0x135, 0x136, 0x137, 0x138, 0x139, 0x13a, 0x13b}"
proof -
  have "uint code \<in> {304, 305, 306, 307, 308, 309, 310, 311, 312, 313, 314, 315}"
    using assms by (simp add: word_le_def) presburger
  then have "word_of_int (uint code) \<in> (word_of_int :: int \<Rightarrow> u32) ` {304, 305, 306, 307, 308, 309, 310, 311, 312, 313, 314, 315}"
    by (rule imageI)
  then show ?thesis by simp
qed

lemma special_not_shifted: "list_all (\<lambda>(cs, _). list_all (\<lambda>c. shiftedASCII (byteOf c) = None) cs) specialKeys"
  by code_simp

lemma function_keys_shifted:
  "list_all (\<lambda>c. (shiftedASCII (byteOf c) \<noteq> None) = (c \<noteq> 0x13a))
     [0x130, 0x131, 0x132, 0x133, 0x134, 0x135, 0x136, 0x137, 0x138, 0x139, 0x13a, 0x13b]"
  by code_simp

section \<open>Properties\<close>

text \<open>
  C29. Every key the command line accepts can be sent: when \<open>ParseKeyNotation\<close> accepts a notation, only
  the four known modifier bits are set and the daemon's \<open>encodeClientKey\<close> supports the key code,
  whatever the modifiers, so \<open>ht send --key\<close> never fails with an unsupported key code.
\<close>

theorem accepted_keys_supported:
  assumes "ParseKeyNotation notation = Inr ki"
  shows "ki_Mods ki \<le> 15 \<and> is_ok (encodeClientKeyEvent (ki_Code ki) (ki_Mods ki))"
proof -
  let ?parts = "splitOn CHR ''+'' (trimSpace (map toLowerAscii notation))"
  from assms have m: "parseMods (butlast ?parts) 0 = Inr (ki_Mods ki)" and n: "parseKeyName (last ?parts) = Inr (ki_Code ki)"
    by (auto simp: ParseKeyNotation_def Let_def split: sum.splits)
  from n have "terminalKeyEvent (ki_Code ki) (ki_Mods ki) \<noteq> None"
  proof (cases rule: parseKeyName_codes)
    case (1 c)
    then show ?thesis using terminalKeyEvent_char [of c "ki_Mods ki"] by (metis option.distinct(1))
  next
    case 2
    then show ?thesis by (auto simp: terminalKeyEvent_def split: option.split)
  qed
  then have "is_ok (encodeClientKeyEvent (ki_Code ki) (ki_Mods ki))"
    by (auto simp: encodeClientKeyEvent_def is_ok_iff split: option.split)
  with parseMods_bounded [OF m] show ?thesis by simp
qed

theorem accepted_keys_supported_witness:
  "\<exists>ki. ParseKeyNotation ''Ctrl+Shift+F5'' = Inr ki \<and> is_ok (encodeClientKeyEvent (ki_Code ki) (ki_Mods ki))"
proof -
  have "ParseKeyNotation ''Ctrl+Shift+F5'' = Inr \<lparr>ki_Code = 0x134, ki_Mods = 3\<rparr>" by code_simp
  from accepted_keys_supported [OF this] this show ?thesis by blast
qed

text \<open>
  C30. The client recognises the detach key by the bytes the emulator would produce for it: for every
  printable key a notation can name and any modifiers, the key event \<open>encodeDetachKey\<close> builds from
  its own tables is the one the daemon's \<open>encodeClientKey\<close> builds from its tables.
\<close>

theorem detach_event_is_client_event:
  assumes "ParseKeyNotation notation = Inr ki" and "0x20 \<le> ki_Code ki" and "ki_Code ki \<le> 0x7e"
  shows "detachKeyEvent (ki_Code ki) mods = encodeClientKeyEvent (ki_Code ki) mods"
proof -
  let ?parts = "splitOn CHR ''+'' (trimSpace (map toLowerAscii notation))"
  from assms(1) have n: "parseKeyName (last ?parts) = Inr (ki_Code ki)"
    by (auto simp: ParseKeyNotation_def Let_def split: sum.splits)
  then obtain c where c: "ki_Code ki = of_char c" "32 \<le> (of_char c :: int)" "(of_char c :: int) \<le> 126"
      "c = CHR 0x20 \<or> last ?parts = [c]"
    using assms(2,3) by (cases rule: parseKeyName_codes) auto
  have "\<not> isUpper c" using c(4) key_part_lower [of c "notation"] by (auto simp: isUpper_def)
  then have key: "detachPhysicalKey c = asciiPhysicalKey c" using physical_keys by blast
  obtain key where k: "asciiPhysicalKey c = Some key"
    and ev: "terminalKeyEvent (of_char c) mods = Some (key, of_char c,
           case (if mods AND ModShift \<noteq> 0 then shiftedASCII c else None) of Some s \<Rightarrow> [s]
           | None \<Rightarrow> if mods AND ModCtrl = 0 then [c] else [])"
    using terminalKeyEvent_char [OF c(2,3), of mods] by blast
  have "shiftedKeyByte c = shiftedASCII c" by (simp add: shiftedKeyByte_def shiftedASCII_def)
  then show ?thesis unfolding c(1)
    by (simp add: detachKeyEvent_def encodeClientKeyEvent_def byteOf_of_char ev key k split: option.split)
qed

theorem detach_event_is_client_event_witness:
  "\<exists>ki. ParseKeyNotation ''ctrl+;'' = Inr ki \<and> detachKeyEvent (ki_Code ki) 3 = encodeClientKeyEvent (ki_Code ki) 3"
proof -
  have "ParseKeyNotation ''ctrl+;'' = Inr \<lparr>ki_Code = 0x3b, ki_Mods = 2\<rparr>" by code_simp
  from detach_event_is_client_event [OF this, of 3] this show ?thesis by simp
qed

text \<open>
  Where \<open>encodeClientKey\<close> marks Shift as consumed although the key produces no text:
  \<open>byte(keyCode)\<close> truncates the key code, so F1 to F10 and F12 with Shift are taken for the digits
  and the semicolon in their low byte. These are exactly the keys with consumed modifiers and no text.
\<close>

theorem shift_consumed_without_text:
  assumes "encodeClientKeyEvent code mods = Inr ev"
  shows "ke_consumed ev \<noteq> 0 \<and> ke_utf8 ev = []
    \<longleftrightarrow> mods AND ModShift \<noteq> 0 \<and> (client_KeyF1 \<le> code \<and> code \<le> client_KeyF10 \<or> code = client_KeyF12)"
proof -
  obtain key cp tx where t: "terminalKeyEvent code mods = Some (key, cp, tx)" and u: "ke_utf8 ev = tx"
    and c: "ke_consumed ev \<noteq> 0 \<longleftrightarrow> mods AND ModShift \<noteq> 0 \<and> shiftedASCII (byteOf code) \<noteq> None"
    using assms by (auto simp: encodeClientKeyEvent_def ModShift_def split: option.splits)
  show ?thesis
  proof (cases "0x20 \<le> code \<and> code \<le> 0x7e")
    case True
    then have "ke_consumed ev \<noteq> 0 \<Longrightarrow> tx \<noteq> []"
      using t c by (auto simp: terminalKeyEvent_def Let_def split: option.splits if_splits)
    moreover have "\<not> client_KeyF1 \<le> code \<and> code \<noteq> client_KeyF12"
      using True by (auto simp: client_KeyF1_def client_KeyF12_def word_le_def)
    ultimately show ?thesis using u by auto
  next
    case False
    then have empty: "tx = []" using t by (auto simp: terminalKeyEvent_def split: option.splits if_splits)
    show ?thesis
    proof (cases "switchOn specialKeys code")
      case (Some v)
      then obtain cs where "(cs, v) \<in> set specialKeys" "code \<in> set cs" using switchOn_SomeD by fastforce
      then have "shiftedASCII (byteOf code) = None" "\<not> client_KeyF1 \<le> code \<and> code \<noteq> client_KeyF12"
        using special_not_shifted
        by (auto simp: list_all_iff specialKeys_def client_KeyF1_def client_KeyF12_def)
      then show ?thesis using c by auto
    next
      case None
      with t False have r: "0x130 \<le> code" "code \<le> 0x13b"
        by (auto simp: terminalKeyEvent_def split: if_splits)
      have "shiftedASCII (byteOf code) \<noteq> None \<longleftrightarrow> code \<noteq> 0x13a"
        using function_key_cases [OF r] function_keys_shifted by auto
      moreover have "client_KeyF1 \<le> code \<and> code \<le> client_KeyF10 \<or> code = client_KeyF12 \<longleftrightarrow> code \<noteq> 0x13a"
        using function_key_cases [OF r] by (auto simp: client_KeyF1_def client_KeyF10_def client_KeyF12_def)
      ultimately show ?thesis using c u empty by auto
    qed
  qed
qed

theorem shift_consumed_without_text_witness:
  "\<exists>ev. encodeClientKeyEvent client_KeyF5 ModShift = Inr ev \<and> ke_consumed ev \<noteq> 0 \<and> ke_utf8 ev = []"
proof -
  have "is_ok (encodeClientKeyEvent client_KeyF5 ModShift)" by code_simp
  then obtain ev where ev: "encodeClientKeyEvent client_KeyF5 ModShift = Inr ev" by (auto simp: is_ok_iff)
  from shift_consumed_without_text [OF ev] have "ke_consumed ev \<noteq> 0 \<and> ke_utf8 ev = []"
    by (simp add: ModShift_def client_KeyF1_def client_KeyF5_def client_KeyF10_def)
  with ev show ?thesis by blast
qed

end
