(* ===== verification/Ht_Config.thy ===== *)
theory Ht_Config
  imports Go_Paths Session_Clients Terminal_Keys
begin

text \<open>
  The configuration: \<open>internal/config/config.go\<close> and \<open>paths.go\<close>. \<open>toml.DecodeFile\<close> (a third-party
  package) is the parameter \<open>decodeFile\<close>: it reads the file at a path into a configuration whose
  unset fields keep their values. The environment is the process environment as a list.
\<close>

record daemonConfig =
  dc_SocketPath :: string
  dc_AutoExit :: bool
  dc_DefaultScrollback :: u32
  dc_StatePersistence :: bool
  dc_StatePersistenceInterval :: int

record clientConfig =
  cc_DetachKeybind :: string
  cc_ForwardEnv :: "string list"

record sessionConfig =
  sf_DefaultCommand :: string
  sf_ResizePolicy :: string

record config =
  cfg_Daemon :: daemonConfig
  cfg_Client :: clientConfig
  cfg_Session :: sessionConfig

definition Default :: config where
  "Default = \<lparr>cfg_Daemon = \<lparr>dc_SocketPath = [], dc_AutoExit = False, dc_DefaultScrollback = 10000,
       dc_StatePersistence = True, dc_StatePersistenceInterval = 30\<rparr>,
     cfg_Client = \<lparr>cc_DetachKeybind = ''ctrl+;'',
       cc_ForwardEnv = [''COLORTERM'', ''GHOSTTY_RESOURCES_DIR'', ''GHOSTTY_BIN_DIR'']\<rparr>,
     cfg_Session = \<lparr>sf_DefaultCommand = [], sf_ResizePolicy = ResizePolicySmallest\<rparr>\<rparr>"

definition validate :: "config \<Rightarrow> unit result" where
  "validate c =
     (if sf_ResizePolicy (cfg_Session c) \<in>
           set [ResizePolicySmallest, ResizePolicyLargest, ResizePolicyFirst, ResizePolicyLast]
      then Inr ()
      else Inl (Errorf (''invalid resize_policy '' @ quoted (sf_ResizePolicy (cfg_Session c)))))"

definition LoadFrom :: "(string \<Rightarrow> config \<Rightarrow> config result) \<Rightarrow> string \<Rightarrow> config result" where
  "LoadFrom decodeFile path =
     (case decodeFile path Default of
        Inl e \<Rightarrow> if errors_Is e ErrNotExist then Inr Default else Inl (Wrap (''config: parse '' @ path) e)
      | Inr cfg \<Rightarrow>
          (case validate cfg of
             Inl e \<Rightarrow> Inl (Wrap (''config: '' @ path) e)
           | Inr _ \<Rightarrow> Inr cfg))"

definition DefaultPath :: "string list \<Rightarrow> string result" where
  "DefaultPath env =
     (let dir = getEnv env ''XDG_CONFIG_HOME''
      in if dir \<noteq> [] then Inr (filepathJoin [dir, ''hauntty'', ''config.toml''])
         else if getEnv env ''HOME'' = []
         then Inl (Wrap ''config: determine home directory'' (Errorf ''$HOME is not defined''))
         else Inr (filepathJoin [getEnv env ''HOME'', ''.config'', ''hauntty'', ''config.toml'']))"

definition Load :: "(string \<Rightarrow> config \<Rightarrow> config result) \<Rightarrow> string list \<Rightarrow> config result" where
  "Load decodeFile env =
     (case DefaultPath env of
        Inl e \<Rightarrow> Inl (Wrap ''config: default path'' e)
      | Inr path \<Rightarrow> LoadFrom decodeFile path)"

definition SocketPath :: "string list \<Rightarrow> nat \<Rightarrow> string" where
  "SocketPath env uid =
     (let xdg = getEnv env ''XDG_RUNTIME_DIR''
      in if xdg \<noteq> [] then filepathJoin [xdg, ''hauntty'', ''hauntty.sock'']
         else let tmp = (if getEnv env ''TMPDIR'' \<noteq> [] then getEnv env ''TMPDIR'' else ''/tmp'')
              in filepathJoin [tmp, ''hauntty-'' @ string_of_nat uid, ''hauntty.sock''])"

section \<open>Properties\<close>

definition policy_ok :: "string \<Rightarrow> bool" where
  "policy_ok p \<longleftrightarrow> p \<in> {ResizePolicySmallest, ResizePolicyLargest, ResizePolicyFirst, ResizePolicyLast}"



end
