(* ===== verification/Server_State.thy ===== *)
theory Server_State
  imports Session_Inv Persist_Store Name_Gen Wire_Conn Terminal_Keys
begin

text \<open>
  The daemon's table of sessions and what its handlers call on a session: \<open>internal/daemon/server.go\<close>
  (the \<open>Server\<close> struct, the table), the request methods of \<open>session_clients.go\<close>, and starting and
  closing a session (\<open>session_lifecycle.go\<close>). The terminal emulator, the process start, the clock
  and the random source are fields of the parameter \<open>host\<close>. A session's identity is a number;
  \<open>sv_procs\<close> records which started sessions have not been closed: their process group, PTY,
  terminal and temporary directory. \<open>sv_persist\<close> says whether there is a persister.
\<close>

record 't host =
  ho_em :: "'t emulator"
  ho_newTerminal :: "u32 \<Rightarrow> u32 \<Rightarrow> u32 \<Rightarrow> 't result"
  ho_restoreTerminal :: "sessionState \<Rightarrow> termSize \<Rightarrow> u32 \<Rightarrow> 't result"
  ho_start :: "execCmd \<Rightarrow> u32 result"
  ho_environ :: "string list"
  ho_rnd :: "nat \<Rightarrow> nat"
  ho_now :: u64
  ho_snapshot :: "'t \<Rightarrow> byte list result"
  ho_cwd :: "'t \<Rightarrow> (string \<times> bool) result"
  ho_dump :: "terminalFormat \<Rightarrow> 't \<Rightarrow> screenDump result"
  ho_dumpDead :: "sessionState \<Rightarrow> u32 \<Rightarrow> u8 \<Rightarrow> byte list result"
  ho_encodeKey :: "keyEvent \<Rightarrow> 't \<Rightarrow> byte list result"
  ho_pid :: u32
  ho_uptime :: int
  ho_version :: string

record 't tableEntry =
  ls_id :: nat
  ls_sess :: "'t session"
  ls_CreatedAt :: u64
  ls_tempDir :: string
  ls_ptyErr :: "gerror option"
  ls_input :: "byte list"
  ls_hup :: bool

record 't server =
  sv_sessions :: "(string \<times> 't tableEntry) list"
  sv_persist :: bool
  sv_fs :: fs
  sv_tmp :: tmpfs
  sv_socketPath :: string
  sv_defaultScrollback :: u32
  sv_resizePolicy :: string
  sv_autoExit :: bool
  sv_ctxDone :: bool
  sv_nextId :: nat
  sv_procs :: "nat list"
  sv_pidPath :: string
  sv_lockPath :: string
  sv_lockHeld :: bool
  sv_listening :: bool
  sv_shutdownOnce :: bool

section \<open>Requests to a session\<close>

text \<open>
  A request waits for the loop's select and is answered there; a loop that has returned answers
  nothing. \<open>None\<close> is the branch on \<open>s.done\<close>.
\<close>

definition serve :: "'t emulator \<Rightarrow> sessionAction \<Rightarrow> 't session \<Rightarrow> actionReply option \<times> 't session" where
  "serve em a s =
     (if se_done s then (None, s)
      else let s = (if se_atSelect s then s else loopTop s);
               (reply, s) = handleAction em a s
           in (Some reply, s\<lparr>se_atSelect := False\<rparr>))"

definition attach :: "'t emulator \<Rightarrow> bool \<Rightarrow> sessionAttachSpec \<Rightarrow> 't session \<Rightarrow> ref result \<times> 't session" where
  "attach em ctxDone spec s =
     (if ctxDone then (Inl (Errorf ''context canceled''), s)
      else case serve em (AttachReq spec) s of
             (Some (AttachResp r), s) \<Rightarrow> (r, s)
           | (_, s) \<Rightarrow> (Inl (Errorf ''session closed''), s))"

definition detachClient :: "'t emulator \<Rightarrow> ref \<Rightarrow> 't session \<Rightarrow> 't session" where
  "detachClient em r s = snd (serve em (DetachReq r) s)"

definition kickClient :: "'t emulator \<Rightarrow> string \<Rightarrow> 't session \<Rightarrow> bool \<times> 't session" where
  "kickClient em cid s =
     (case serve em (KickReq cid) s of
        (Some (KickResp b), s) \<Rightarrow> (b, s)
      | (_, s) \<Rightarrow> (False, s))"

definition resizeClient :: "'t emulator \<Rightarrow> ref \<Rightarrow> termSize \<Rightarrow> 't session \<Rightarrow> 't session" where
  "resizeClient em r sz s = snd (serve em (ResizeReq r sz) s)"

definition clientInfo :: "'t emulator \<Rightarrow> 't session \<Rightarrow> sessionClient list \<times> 't session" where
  "clientInfo em s =
     (case serve em ClientInfoReq s of
        (Some (InfoResp l), s) \<Rightarrow> (l, s)
      | (_, s) \<Rightarrow> ([], s))"

definition isRunning :: "'t session \<Rightarrow> bool" where
  "isRunning s \<longleftrightarrow> \<not> se_done s"

definition sendInput :: "byte list \<Rightarrow> 't tableEntry \<Rightarrow> gerror option \<times> 't tableEntry" where
  "sendInput data ls =
     (case ls_ptyErr ls of
        Some e \<Rightarrow> (Some e, ls)
      | None \<Rightarrow> (None, ls\<lparr>ls_input := ls_input ls @ data\<rparr>))"

definition killSession :: "'t tableEntry \<Rightarrow> 't tableEntry" where
  "killSession ls = ls\<lparr>ls_hup := True\<rparr>"

definition encodeClientKey :: "'t host \<Rightarrow> u32 \<Rightarrow> u32 \<Rightarrow> 't \<Rightarrow> byte list result" where
  "encodeClientKey h keyCode mods term =
     (case encodeClientKeyEvent keyCode mods of
        Inl e \<Rightarrow> Inl e
      | Inr ev \<Rightarrow> ho_encodeKey h ev term)"

section \<open>Starting and closing\<close>

definition scrollback :: "'t server \<Rightarrow> u32 \<Rightarrow> u32" where
  "scrollback sv requested = (if requested = 0 then sv_defaultScrollback sv else requested)"

text \<open>The common half of \<open>newSession\<close> and \<open>restoreSession\<close>: launch the process and start the loop.\<close>

definition launchAndStart ::
  "'t host \<Rightarrow> sessionStartSpec \<Rightarrow> 't \<Rightarrow> 't server \<Rightarrow> 't tableEntry result \<times> 't server" where
  "launchAndStart h spec term sv =
     (case launchSessionProcess (ho_start h) (ho_environ h) spec (sv_tmp sv) of
        (Inl e, tmp) \<Rightarrow> (Inl e, sv\<lparr>sv_tmp := tmp\<rparr>)
      | (Inr l, tmp) \<Rightarrow>
          (Inr \<lparr>ls_id = sv_nextId sv,
                ls_sess = startSession (spec_name spec) (launch_proc l) (sv_resizePolicy sv) (spec_size spec) term
                  (\<lambda>_. no_client),
                ls_CreatedAt = ho_now h, ls_tempDir = launch_tempDir l, ls_ptyErr = None, ls_input = [],
                ls_hup = False\<rparr>,
           sv\<lparr>sv_tmp := tmp, sv_nextId := Suc (sv_nextId sv), sv_procs := sv_nextId sv # sv_procs sv\<rparr>))"

definition newSession :: "'t host \<Rightarrow> sessionStartSpec \<Rightarrow> 't server \<Rightarrow> 't tableEntry result \<times> 't server" where
  "newSession h spec sv =
     (case ho_newTerminal h (ucast (cols (spec_size spec))) (ucast (rows (spec_size spec))) (spec_scrollback spec) of
        Inl e \<Rightarrow> (Inl e, sv)
      | Inr term \<Rightarrow> launchAndStart h spec term sv)"

definition restoreSession ::
  "'t host \<Rightarrow> sessionState \<Rightarrow> sessionStartSpec \<Rightarrow> 't server \<Rightarrow> 't tableEntry result \<times> 't server" where
  "restoreSession h state spec sv =
     (case ho_restoreTerminal h state (spec_size spec) (spec_scrollback spec) of
        Inl e \<Rightarrow> (Inl e, sv)
      | Inr term \<Rightarrow> launchAndStart h spec term sv)"

text \<open>\<open>Session.close\<close>: stop the loop, hang up, reap, remove the temporary directory.\<close>

definition closeSession :: "'t tableEntry \<Rightarrow> 't server \<Rightarrow> 't server" where
  "closeSession ls sv = sv\<lparr>sv_procs := remove1 (ls_id ls) (sv_procs sv),
     sv_tmp := (if ls_tempDir ls \<noteq> [] then removeAll (ls_tempDir ls) (sv_tmp sv) else sv_tmp sv)\<rparr>"

section \<open>The table\<close>

definition liveSession :: "string \<Rightarrow> 't server \<Rightarrow> 't tableEntry option" where
  "liveSession name sv = map_of (sv_sessions sv) name"

definition liveSessionNames :: "'t server \<Rightarrow> string \<Rightarrow> bool" where
  "liveSessionNames sv name \<longleftrightarrow> name \<in> fst ` set (sv_sessions sv)"

definition insertSessionOrExisting ::
  "string \<Rightarrow> 't tableEntry \<Rightarrow> 't server \<Rightarrow> ('t tableEntry option \<times> bool) \<times> 't server" where
  "insertSessionOrExisting name ls sv =
     (case map_of (sv_sessions sv) name of
        Some existing \<Rightarrow> ((Some existing, False), sv)
      | None \<Rightarrow> ((None, True), sv\<lparr>sv_sessions := sv_sessions sv @ [(name, ls)]\<rparr>))"

definition insertSession :: "string \<Rightarrow> 't tableEntry \<Rightarrow> 't server \<Rightarrow> bool \<times> 't server" where
  "insertSession name ls sv = (case insertSessionOrExisting name ls sv of ((_, inserted), sv) \<Rightarrow> (inserted, sv))"

definition removeSession :: "string \<Rightarrow> 't server \<Rightarrow> 't server" where
  "removeSession name sv = sv\<lparr>sv_sessions := AList.delete name (sv_sessions sv)\<rparr>"

text \<open>Writing back what a call did to the session the table holds under the name.\<close>

definition putSession :: "string \<Rightarrow> 't tableEntry \<Rightarrow> 't server \<Rightarrow> 't server" where
  "putSession name ls sv = sv\<lparr>sv_sessions := AList.update name ls (sv_sessions sv)\<rparr>"

definition onSess :: "('t session \<Rightarrow> 'r \<times> 't session) \<Rightarrow> 't tableEntry \<Rightarrow> 'r \<times> 't tableEntry" where
  "onSess f ls = (case f (ls_sess ls) of (r, s) \<Rightarrow> (r, ls\<lparr>ls_sess := s\<rparr>))"

definition withFs :: "(fs \<Rightarrow> 'r \<times> fs) \<Rightarrow> 't server \<Rightarrow> 'r \<times> 't server" where
  "withFs f sv = (case f (sv_fs sv) of (r, w) \<Rightarrow> (r, sv\<lparr>sv_fs := w\<rparr>))"

section \<open>Lemmas\<close>

text \<open>Requests only take the session through reachable states.\<close>

lemma serve_reachable:
  assumes "serve em a s = (reply, s')" and "validRefs a (se_refs s)" and "reachable em s0 s" and "fresh_session s0"
  shows "reachable em s0 s'"
proof (cases "se_done s")
  case True
  with assms show ?thesis by (simp add: serve_def)
next
  case False
  define t where "t = (if se_atSelect s then s else loopTop s)"
  have run: "running_ok s" using reachable_ok [OF assms(3,4)] False by (simp add: loop_ok_def session_running_ok)
  have t: "reachable em s0 t"
    using assms(3) False reachable_step [OF assms(3), of EvTop] by (simp add: t_def)
  have "se_atSelect t" "\<not> se_done t" "se_refs t = se_refs s"
    using False loopTop_ok(1) [OF run] flushPending_ok(3) [OF pruneAndNotify_ok(1) [OF run]] pruneAndNotify_ok(2) [OF run]
    by (auto simp: t_def loopTop_def running_ok_def)
  with assms(2) have "exec em (EvAction a) t = Some ((snd (handleAction em a t))\<lparr>se_atSelect := False\<rparr>)" by simp
  moreover from assms(1) False have "s' = (snd (handleAction em a t))\<lparr>se_atSelect := False\<rparr>"
    by (auto simp: serve_def Let_def t_def split: prod.splits)
  ultimately show ?thesis using reachable_step [OF t, of "EvAction a"] by (simp del: exec.simps)
qed

end
