(* ===== verification/Dead_State.thy ===== *)
theory Dead_State
  imports Server_State
begin

text \<open>
  \<open>internal/daemon/dead_state.go\<close>: saved sessions as the server sees them. Every function is one of
  the source, over the server's table and file system; an error is a value, and the third state
  of \<open>readDeadSession\<close> (no saved session) is \<open>Inr None\<close>. Random names come from \<open>Name_Gen\<close>.
\<close>

definition reserveSessionName :: "'t host \<Rightarrow> string \<Rightarrow> 't server \<Rightarrow> string result \<times> 't server" where
  "reserveSessionName h name sv =
     (if name \<noteq> [] then (Inr name, sv)
      else let reserved = liveSessionNames sv
           in if sv_persist sv
              then (case withFs (listDeadSessions reserved) sv of
                      (Inl e, sv) \<Rightarrow> (Inl e, sv)
                    | (Inr dead, sv) \<Rightarrow>
                        (Inr (the (generateUniqueName (ho_rnd h) (\<lambda>n. reserved n \<or> n \<in> set dead))), sv))
              else (Inr (the (generateUniqueName (ho_rnd h) reserved)), sv))"

definition deadSessionNames :: "'t server \<Rightarrow> string list result \<times> 't server" where
  "deadSessionNames sv =
     (if \<not> sv_persist sv then (Inr [], sv)
      else withFs (listDeadSessions (liveSessionNames sv)) sv)"

definition readDeadSession :: "string \<Rightarrow> 't server \<Rightarrow> sessionState option result \<times> 't server" where
  "readDeadSession name sv =
     (if \<not> sv_persist sv then (Inr None, sv)
      else case withFs (loadState name) sv of
             (Inr state, sv) \<Rightarrow> (Inr (Some state), sv)
           | (Inl e, sv) \<Rightarrow> if errors_Is e ErrNotExist then (Inr None, sv) else (Inl e, sv))"

definition deadRow :: "string \<Rightarrow> sessionState \<Rightarrow> sessionRow" where
  "deadRow name state = \<lparr>row_Name = name, row_State = SessionStateDead, row_Cols = st_Cols state,
     row_Rows = st_Rows state, row_PID = 0, row_CreatedAt = 0, row_SavedAt = ucast (st_SavedAt state),
     row_CWD = [], row_Clients = []\<rparr>"

fun deadRows :: "string list \<Rightarrow> 't server \<Rightarrow> sessionRow list result \<times> 't server" where
  "deadRows [] sv = (Inr [], sv)"
| "deadRows (name # names) sv =
     (case readDeadSession name sv of
        (Inl e, sv) \<Rightarrow> (Inl (Wrap (''load dead session state '' @ quoted name) e), sv)
      | (Inr None, sv) \<Rightarrow> deadRows names sv
      | (Inr (Some state), sv) \<Rightarrow>
          (case deadRows names sv of
             (Inl e, sv) \<Rightarrow> (Inl e, sv)
           | (Inr rws, sv) \<Rightarrow> (Inr (deadRow name state # rws), sv)))"

definition deadSessionRows :: "'t server \<Rightarrow> sessionRow list result \<times> 't server" where
  "deadSessionRows sv =
     (case deadSessionNames sv of
        (Inl e, sv) \<Rightarrow> (Inl e, sv)
      | (Inr dead, sv) \<Rightarrow> deadRows dead sv)"

definition dumpDeadSession ::
  "'t host \<Rightarrow> string \<Rightarrow> u8 \<Rightarrow> 't server \<Rightarrow> byte list option result \<times> 't server" where
  "dumpDeadSession h name format sv =
     (case readDeadSession name sv of
        (Inl e, sv) \<Rightarrow> (Inl e, sv)
      | (Inr None, sv) \<Rightarrow> (Inr None, sv)
      | (Inr (Some state), sv) \<Rightarrow>
          (case ho_dumpDead h state (sv_defaultScrollback sv) format of
             Inl e \<Rightarrow> (Inl e, sv)
           | Inr data \<Rightarrow> (Inr (Some data), sv)))"

definition removeDeadSession :: "string \<Rightarrow> 't server \<Rightarrow> unit result \<times> 't server" where
  "removeDeadSession name sv = (if \<not> sv_persist sv then (Inr (), sv) else withFs (cleanState name) sv)"

definition writeDeadSession :: "string \<Rightarrow> sessionState \<Rightarrow> 't server \<Rightarrow> unit result \<times> 't server" where
  "writeDeadSession name state sv = (if \<not> sv_persist sv then (Inr (), sv) else withFs (writeState name state) sv)"

fun pruneEach :: "string list \<Rightarrow> u32 \<Rightarrow> 't server \<Rightarrow> u32 result \<times> 't server" where
  "pruneEach [] count sv = (Inr count, sv)"
| "pruneEach (name # names) count sv =
     (case removeDeadSession name sv of
        (Inl e, sv) \<Rightarrow> (Inl (Wrap (''prune dead session '' @ quoted name) e), sv)
      | (Inr _, sv) \<Rightarrow> pruneEach names (count + 1) sv)"

definition pruneDeadSessions :: "'t server \<Rightarrow> u32 result \<times> 't server" where
  "pruneDeadSessions sv =
     (case deadSessionNames sv of
        (Inl e, sv) \<Rightarrow> (Inl e, sv)
      | (Inr dead, sv) \<Rightarrow> pruneEach dead 0 sv)"

definition deadSessionStateExistsMessage :: "string \<Rightarrow> string" where
  "deadSessionStateExistsMessage name =
     ''dead session state exists for '' @ quoted name @ ''; restore it with `ht restore '' @ name
     @ ''`, or discard it with `ht new -f '' @ name @ '' ...`''"

definition prepareCreateDeadSession :: "string \<Rightarrow> bool \<Rightarrow> 't server \<Rightarrow> unit result \<times> 't server" where
  "prepareCreateDeadSession name force sv =
     (case readDeadSession name sv of (r, sv) \<Rightarrow>
        if force
        then (case removeDeadSession name sv of
                (Inl e, sv) \<Rightarrow> (Inl (Wrap ''clean dead session state'' e), sv)
              | (Inr _, sv) \<Rightarrow> (Inr (), sv))
        else (case r of
                Inl e \<Rightarrow> (Inl (Wrap ''load dead session state'' e), sv)
              | Inr (Some state) \<Rightarrow> (Inl (Errorf (deadSessionStateExistsMessage name)), sv)
              | Inr None \<Rightarrow> (Inr (), sv)))"

definition prepareRestoreDeadSession :: "string \<Rightarrow> 't server \<Rightarrow> sessionState result \<times> 't server" where
  "prepareRestoreDeadSession name sv =
     (if name = [] then (Inl (Errorf ''name required for restore''), sv)
      else if \<not> sv_persist sv then (Inl (Errorf ''persistence is disabled''), sv)
      else if liveSession name sv \<noteq> None then (Inl (Errorf ''session is running''), sv)
      else (case readDeadSession name sv of
              (Inl e, sv) \<Rightarrow> (Inl (Wrap ''load saved state'' e), sv)
            | (Inr None, sv) \<Rightarrow> (Inl (Errorf ''no saved state''), sv)
            | (Inr (Some state), sv) \<Rightarrow> (Inr state, sv)))"

definition commitRestoreDeadSession :: "string \<Rightarrow> 't server \<Rightarrow> unit result \<times> 't server" where
  "commitRestoreDeadSession name sv =
     (case removeDeadSession name sv of
        (Inl e, sv) \<Rightarrow> (Inl (Wrap ''clean dead session state'' e), sv)
      | (Inr _, sv) \<Rightarrow> (Inr (), sv))"

text \<open>\<open>fmt.Errorf("%w; restore dead session state: %v", err, restoreErr)\<close>: the wrapped cause comes first.\<close>

definition rollbackRestoreDeadSession :: "string \<Rightarrow> sessionState \<Rightarrow> gerror \<Rightarrow> 't server \<Rightarrow> gerror \<times> 't server" where
  "rollbackRestoreDeadSession name state err sv =
     (case writeDeadSession name state sv of
        (Inl restoreErr, sv) \<Rightarrow>
          (Errorf (error_text err @ ''; restore dead session state: '' @ error_text restoreErr), sv)
      | (Inr _, sv) \<Rightarrow> (err, sv))"

section \<open>Lemmas\<close>

text \<open>The saved sessions, as the store's interface sees them.\<close>

definition savedState :: "'t server \<Rightarrow> string \<Rightarrow> sessionState result option" where
  "savedState sv = disk.saved (sv_fs sv)"

text \<open>Nothing but the file system differs.\<close>

definition fs_only :: "'t server \<Rightarrow> 't server \<Rightarrow> bool" where
  "fs_only sv sv' \<longleftrightarrow> (\<exists>w. sv' = sv\<lparr>sv_fs := w\<rparr>)"

lemma fs_only_refl [simp]: "fs_only sv sv"
  unfolding fs_only_def by (metis server.surjective server.update_convs(3))

lemma fs_only_trans: "fs_only a b \<Longrightarrow> fs_only b c \<Longrightarrow> fs_only a c"
  unfolding fs_only_def by force

lemma fs_onlyD:
  assumes "fs_only sv sv'"
  shows "sv_sessions sv' = sv_sessions sv" "sv_persist sv' = sv_persist sv" "sv_procs sv' = sv_procs sv"
    "sv_nextId sv' = sv_nextId sv" "sv_tmp sv' = sv_tmp sv" "sv_ctxDone sv' = sv_ctxDone sv"
    "sv_autoExit sv' = sv_autoExit sv" "sv_resizePolicy sv' = sv_resizePolicy sv"
    "sv_defaultScrollback sv' = sv_defaultScrollback sv" "sv_socketPath sv' = sv_socketPath sv"
  using assms unfolding fs_only_def by auto

lemma withFs_fs_only: "withFs f sv = (r, sv') \<Longrightarrow> fs_only sv sv'"
  by (auto simp: withFs_def fs_only_def split: prod.splits)

lemma savedState_eq: "savedState sv name = map_option unpackNode (stored (sv_fs sv) name)"
  by (simp add: savedState_def disk.saved_def)

lemma readDeadSession_result:
  assumes "readDeadSession name sv = (r, sv')"
  shows "fs_only sv sv'" and "stored (sv_fs sv') = stored (sv_fs sv)"
    and "r = Inr (Some st) \<Longrightarrow> sv_persist sv \<and> savedState sv name = Some (Inr st)"
    and "r = Inr None \<Longrightarrow> sv_persist sv \<Longrightarrow> savedState sv name = None"
proof -
  obtain r1 w where ld: "loadState name (sv_fs sv) = (r1, w)" by fastforce
  have cases: "\<not> sv_persist sv \<and> r = Inr None \<and> sv' = sv
      \<or> sv_persist sv \<and> sv' = sv\<lparr>sv_fs := w\<rparr> \<and> (case r1 of Inr st \<Rightarrow> r = Inr (Some st)
           | Inl e \<Rightarrow> r = (if errors_Is e ErrNotExist then Inr None else Inl e))"
    using assms ld by (auto simp: readDeadSession_def withFs_def split: sum.splits if_splits)
  then show "fs_only sv sv'" by (auto simp: fs_only_def intro: fs_only_refl [unfolded fs_only_def])
  show "stored (sv_fs sv') = stored (sv_fs sv)" using cases disk.load_view [OF ld] by auto
  show "sv_persist sv \<and> savedState sv name = Some (Inr st)" if "r = Inr (Some st)"
    using cases that disk.load_saved [of name "sv_fs sv"] ld
    by (auto simp: savedState_def split: sum.splits if_splits)
  show "savedState sv name = None" if "r = Inr None" "sv_persist sv"
    using cases that disk.load_missing [of name "sv_fs sv"] ld
    by (auto simp: savedState_eq split: sum.splits if_splits)
qed

lemma removeDeadSession_result:
  assumes "removeDeadSession name sv = (r, sv')" and "plain_name name"
  shows "fs_only sv sv'"
    and "plain_name m \<Longrightarrow> stored (sv_fs sv') m =
      (if sv_persist sv \<and> is_ok r \<and> m = name then None else stored (sv_fs sv) m)"
proof -
  obtain r1 w where cl: "cleanState name (sv_fs sv) = (r1, w)" by fastforce
  have cases: "\<not> sv_persist sv \<and> sv' = sv \<or> sv_persist sv \<and> r = r1 \<and> sv' = sv\<lparr>sv_fs := w\<rparr>"
    using assms(1) cl by (auto simp: removeDeadSession_def withFs_def split: if_splits)
  then show "fs_only sv sv'" by (auto simp: fs_only_def intro: fs_only_refl [unfolded fs_only_def])
  show "stored (sv_fs sv') m = (if sv_persist sv \<and> is_ok r \<and> m = name then None else stored (sv_fs sv) m)"
    if "plain_name m"
    using cases disk.clean_view [OF assms(2) that cl] by auto
qed

lemma writeDeadSession_result:
  assumes "writeDeadSession name st sv = (r, sv')" and "plain_name name" and "sv_persist sv"
  shows "fs_only sv sv'"
    and "plain_name m \<Longrightarrow> stored (sv_fs sv') m =
      (if is_ok r \<and> m = name then Some (File (state_bytes st)) else stored (sv_fs sv) m)"
    and "is_ok r \<Longrightarrow> decodeState (state_bytes st) = Inr st"
proof -
  have wr: "writeState name st (sv_fs sv) = (r, sv_fs sv')" and eq: "sv' = sv\<lparr>sv_fs := sv_fs sv'\<rparr>"
    using assms(1,3) by (auto simp: writeDeadSession_def withFs_def split: prod.splits)
  then show "fs_only sv sv'" by (auto simp: fs_only_def)
  show "stored (sv_fs sv') m = (if is_ok r \<and> m = name then Some (File (state_bytes st)) else stored (sv_fs sv) m)"
    if "plain_name m" by (rule disk.write_view [OF assms(2) that wr])
  show "decodeState (state_bytes st) = Inr st" if "is_ok r"
    using disk.write_unpack [OF assms(2) wr that] by (simp add: unpackNode_def)
qed

lemma deadSessionNames_result:
  assumes "deadSessionNames sv = (Inr names, sv')" and "sv_persist sv"
    and "isDir (fs_nodes (sv_fs sv)) (stateDir (fs_env (sv_fs sv)))"
  shows "fs_only sv sv'" and "stored (sv_fs sv') = stored (sv_fs sv)" and "distinct names"
    and "set names = {m. plain_name m \<and> \<not> liveSessionNames sv m \<and> (\<exists>d. stored (sv_fs sv) m = Some (File d))}"
proof -
  have ls: "listDeadSessions (liveSessionNames sv) (sv_fs sv) = (Inr names, sv_fs sv')" and "sv' = sv\<lparr>sv_fs := sv_fs sv'\<rparr>"
    using assms(1,2) by (auto simp: deadSessionNames_def withFs_def split: prod.splits)
  then show "fs_only sv sv'" by (auto simp: fs_only_def)
  obtain f w1 where nf: "nextFault (sv_fs sv) = (f, w1)" by fastforce
  have "fs_env (sv_fs sv') = fs_env (sv_fs sv) \<and> fs_nodes (sv_fs sv') = fs_nodes (sv_fs sv)"
    using ls nextFault_frame [OF nf]
    by (auto simp: listDeadSessions_def osReadDir_def nf split: option.splits if_splits prod.splits)
  then show "stored (sv_fs sv') = stored (sv_fs sv)" by (simp add: stored_def)
  from ls assms(3) show "distinct names"
    and "set names = {m. plain_name m \<and> \<not> liveSessionNames sv m \<and> (\<exists>d. stored (sv_fs sv) m = Some (File d))}"
    using dead_names_of_list by blast+
qed

lemma pruneEach_result:
  assumes "pruneEach names count sv = (r, sv')" and "\<forall>n \<in> set names. plain_name n" and "sv_persist sv" and "plain_name m"
  shows "fs_only sv sv' \<and> (m \<notin> set names \<longrightarrow> stored (sv_fs sv') m = stored (sv_fs sv) m)
    \<and> (stored (sv_fs sv) m = None \<longrightarrow> stored (sv_fs sv') m = None)
    \<and> (\<forall>c. r = Inr c \<longrightarrow> c = count + of_nat (length names) \<and> (m \<in> set names \<longrightarrow> stored (sv_fs sv') m = None))"
  using assms(1-3)
proof (induction names arbitrary: count sv)
  case Nil
  then show ?case by auto
next
  case (Cons n names)
  obtain r1 sv1 where rm: "removeDeadSession n sv = (r1, sv1)" by fastforce
  have n: "plain_name n" using Cons.prems(2) by simp
  note res = removeDeadSession_result(1) [OF rm n] removeDeadSession_result(2) [OF rm n assms(4)]
  show ?case
  proof (cases r1)
    case (Inl e)
    with Cons.prems(1) rm res show ?thesis by auto
  next
    case (Inr u)
    with Cons.prems(1) rm have rest: "pruneEach names (count + 1) sv1 = (r, sv')" by simp
    have p1: "sv_persist sv1" using fs_onlyD(2) [OF res(1)] Cons.prems(3) by simp
    from Cons.IH [OF rest _ p1] Cons.prems(2)
    have ih: "fs_only sv1 sv'" "m \<notin> set names \<longrightarrow> stored (sv_fs sv') m = stored (sv_fs sv1) m"
        "stored (sv_fs sv1) m = None \<longrightarrow> stored (sv_fs sv') m = None"
        "\<forall>c. r = Inr c \<longrightarrow> c = count + 1 + of_nat (length names) \<and> (m \<in> set names \<longrightarrow> stored (sv_fs sv') m = None)"
      by auto
    have fs: "fs_only sv sv'" using res(1) ih(1) fs_only_trans by blast
    have count: "r = Inr c \<longrightarrow> c = count + of_nat (length (n # names))" for c using ih(4) by (simp add: add.assoc)
    have n1: "stored (sv_fs sv1) m = (if m = n then None else stored (sv_fs sv) m)"
      using res(2) Inr Cons.prems(3) by simp
    show ?thesis
    proof (intro conjI allI impI)
      show "fs_only sv sv'" by (rule fs)
      show "stored (sv_fs sv') m = stored (sv_fs sv) m" if "m \<notin> set (n # names)" using that ih(2) n1 by simp
      show "stored (sv_fs sv') m = None" if "stored (sv_fs sv) m = None" using that ih(3) n1 by simp
      show "c = count + of_nat (length (n # names))" if "r = Inr c" for c using that count by blast
      show "stored (sv_fs sv') m = None" if "r = Inr c" "m \<in> set (n # names)" for c
        using that ih(3,4) n1 by (cases "m \<in> set names") simp_all
    qed
  qed
qed

section \<open>Properties\<close>

definition demo_tmpfs :: tmpfs where
  "demo_tmpfs = \<lparr>tmp_mkdir = Inr ''/tmp/x'', tmp_write = Inr (), tmp_home = ''/home/u'', tmp_dirs = [], tmp_files = []\<rparr>"

definition demo_server :: "(byte list) server" where
  "demo_server = \<lparr>sv_sessions = [], sv_persist = True, sv_fs = demo_disk, sv_tmp = demo_tmpfs,
     sv_socketPath = ''/run/h.sock'', sv_defaultScrollback = 1000, sv_resizePolicy = ResizePolicySmallest,
     sv_autoExit = False, sv_ctxDone = False, sv_nextId = 0, sv_procs = [],
     sv_pidPath = ''/run/hauntty.pid'', sv_lockPath = ''/run/hauntty.lock'', sv_lockHeld = True, sv_listening = True,
     sv_shutdownOnce = False\<rparr>"

lemma demo_server_dir:
  "isDir (fs_nodes (sv_fs demo_server)) (stateDir (fs_env (sv_fs demo_server)))"
  using demo_disk_dir by (simp add: demo_server_def isDir_def) (simp add: demo_disk_def)

text \<open>
  C27. Pruning removes exactly the saved sessions that are not running: when it succeeds, no saved
  session without a running one is left and the count is their number; the saved state of a
  running session is untouched, also when pruning fails half way, and nothing else of the server
  changes.
\<close>

theorem pruneDeadSessions_exact:
  assumes "pruneDeadSessions sv = (r, sv')" and "sv_persist sv"
    and "isDir (fs_nodes (sv_fs sv)) (stateDir (fs_env (sv_fs sv)))" and "plain_name m"
  shows "fs_only sv sv'
    \<and> (liveSessionNames sv m \<longrightarrow> stored (sv_fs sv') m = stored (sv_fs sv) m)
    \<and> (\<forall>c. r = Inr c \<longrightarrow>
         (\<not> liveSessionNames sv m \<longrightarrow> (\<nexists>d. stored (sv_fs sv') m = Some (File d)))
         \<and> c = of_nat (card {n. plain_name n \<and> \<not> liveSessionNames sv n \<and> (\<exists>d. stored (sv_fs sv) n = Some (File d))}))"
proof -
  obtain r1 sv1 where dn: "deadSessionNames sv = (r1, sv1)" by fastforce
  show ?thesis
  proof (cases r1)
    case (Inl e)
    have "fs_only sv sv1" and st: "stored (sv_fs sv1) = stored (sv_fs sv)"
      using dn assms(2) nextFault_frame [of "sv_fs sv"]
      by (auto simp: deadSessionNames_def withFs_def fs_only_def listDeadSessions_def osReadDir_def stored_def
          split: prod.splits option.splits if_splits)
    moreover have "r = Inl e" "sv' = sv1" using assms(1) dn Inl by (simp_all add: pruneDeadSessions_def)
    ultimately show ?thesis by simp
  next
    case (Inr names)
    note d = deadSessionNames_result [OF dn [unfolded Inr] assms(2,3)]
    have run: "pruneEach names 0 sv1 = (r, sv')" using assms(1) dn Inr by (simp add: pruneDeadSessions_def)
    have p1: "sv_persist sv1" using fs_onlyD(2) [OF d(1)] assms(2) by simp
    have pl: "\<forall>n \<in> set names. plain_name n" using d(4) by auto
    note pr = pruneEach_result [OF run pl p1 assms(4)]
    have "length names = card (set names)" using d(3) by (simp add: distinct_card)
    then have "length names = card {n. plain_name n \<and> \<not> liveSessionNames sv n \<and> (\<exists>d. stored (sv_fs sv) n = Some (File d))}"
      unfolding d(4) .
    moreover have "fs_only sv sv'" using pr d(1) fs_only_trans by blast
    moreover have "m \<in> set names" if "\<not> liveSessionNames sv m" "stored (sv_fs sv) m = Some (File x)" for x
      using that assms(4) d(4) by auto
    ultimately show ?thesis using pr d(2,4) by auto
  qed
qed

theorem pruneDeadSessions_exact_witness:
  "\<exists>c. fst (pruneDeadSessions demo_server) = Inr c \<and> stored (sv_fs (snd (pruneDeadSessions demo_server))) ''play'' = None"
proof -
  let ?r = "pruneDeadSessions demo_server"
  have "sv_persist demo_server" by (simp add: demo_server_def)
  have "is_ok (fst ?r)" by code_simp
  then obtain c where c: "fst ?r = Inr c" by (auto simp: is_ok_iff)
  have "plain_name ''play''" by (simp add: plain_name_def)
  note t = pruneDeadSessions_exact [of demo_server "fst ?r" "snd ?r" "''play''", OF prod.collapse [symmetric]
      \<open>sv_persist demo_server\<close> demo_server_dir this]
  have "\<not> liveSessionNames demo_server ''play''" by (simp add: liveSessionNames_def demo_server_def)
  with t c have "\<nexists>d. stored (sv_fs (snd ?r)) ''play'' = Some (File d)" by (simp del: split_paired_Ex)
  moreover have "stored (sv_fs (snd ?r)) ''play'' \<noteq> Some Dir" by code_simp
  ultimately show ?thesis using c by (cases "stored (sv_fs (snd ?r)) ''play''") (auto intro: fsnode.exhaust)
qed

text \<open>
  A name the daemon picks is free: with no name requested, \<open>reserveSessionName\<close> either reports
  that the state directory cannot be read or returns a name that is neither the name of a live
  session nor, with persistence on, the name of a saved one. A requested name is returned as is.
\<close>

theorem reserveSessionName_free:
  assumes "reserveSessionName h name sv = (Inr picked, sv')"
    and "sv_persist sv \<longrightarrow> isDir (fs_nodes (sv_fs sv)) (stateDir (fs_env (sv_fs sv)))"
  shows "(name \<noteq> [] \<longrightarrow> picked = name)
    \<and> (name = [] \<longrightarrow> \<not> liveSessionNames sv picked
        \<and> (sv_persist sv \<and> plain_name picked \<longrightarrow> (\<nexists>d. stored (sv_fs sv) picked = Some (File d))))"
proof (cases "name = []")
  case False
  with assms(1) show ?thesis by (simp add: reserveSessionName_def)
next
  case nil: True
  have live: "finite {n. liveSessionNames sv n}" by (simp add: liveSessionNames_def)
  show ?thesis
  proof (cases "sv_persist sv")
    case False
    with assms(1) nil have "picked = the (generateUniqueName (ho_rnd h) (liveSessionNames sv))"
      by (auto simp: reserveSessionName_def)
    with generateUniqueName_free [OF live, of "ho_rnd h"] False nil show ?thesis by auto
  next
    case True
    obtain r sv1 where l: "withFs (listDeadSessions (liveSessionNames sv)) sv = (r, sv1)" by fastforce
    with assms(1) nil True obtain dead where r: "r = Inr dead"
      and p: "picked = the (generateUniqueName (ho_rnd h) (\<lambda>n. liveSessionNames sv n \<or> n \<in> set dead))"
      by (auto simp: reserveSessionName_def split: sum.splits)
    have "deadSessionNames sv = (Inr dead, sv1)" using l r True by (simp add: deadSessionNames_def)
    note d = deadSessionNames_result [OF this True] assms(2)
    have "finite {n. liveSessionNames sv n \<or> n \<in> set dead}" using live by (simp add: Collect_disj_eq)
    from generateUniqueName_free [OF this, of "ho_rnd h"] p
    have "\<not> liveSessionNames sv picked" "picked \<notin> set dead" by auto
    with d(4) d(5) True nil show ?thesis by auto
  qed
qed

definition demo_host :: "(byte list) host" where
  "demo_host = \<lparr>ho_em = \<lparr>em_feed = (\<lambda>d t. t @ d), em_resize = (\<lambda>c r t. t),
       em_dump = (\<lambda>t. Inr \<lparr>dump_Data = t, dump_CursorRow = 0, dump_CursorCol = 0, dump_IsAltScreen = False\<rparr>)\<rparr>,
     ho_newTerminal = (\<lambda>c r n. Inr []), ho_restoreTerminal = (\<lambda>st sz n. Inr (st_Snapshot st)),
     ho_start = (\<lambda>cmd. Inr 42), ho_environ = [''SHELL=/bin/sh''], ho_rnd = (\<lambda>_. 0), ho_now = 1700000000,
     ho_snapshot = (\<lambda>t. Inr (1 # t)), ho_cwd = (\<lambda>t. Inr ([], False)),
     ho_dump = (\<lambda>f t. Inr \<lparr>dump_Data = t, dump_CursorRow = 0, dump_CursorCol = 0, dump_IsAltScreen = False\<rparr>),
     ho_dumpDead = (\<lambda>st n f. Inr (st_Snapshot st)), ho_encodeKey = (\<lambda>ev t. Inr (bytes_of_string (ke_utf8 ev))),
     ho_pid = 7, ho_uptime = 5, ho_version = ''dev''\<rparr>"

theorem reserveSessionName_free_witness:
  "\<exists>picked. fst (reserveSessionName demo_host [] demo_server) = Inr picked \<and> \<not> liveSessionNames demo_server picked"
proof -
  let ?r = "reserveSessionName demo_host [] demo_server"
  have "is_ok (fst (listDeadSessions (liveSessionNames demo_server) (sv_fs demo_server)))" by code_simp
  then obtain dead w where l: "listDeadSessions (liveSessionNames demo_server) (sv_fs demo_server) = (Inr dead, w)"
    by (metis is_ok_iff prod.collapse)
  have "sv_persist demo_server" by (simp add: demo_server_def)
  with l obtain picked where p: "fst ?r = Inr picked" by (simp add: reserveSessionName_def withFs_def)
  then have "?r = (Inr picked, snd ?r)" by (metis prod.collapse)
  from reserveSessionName_free [OF this] demo_server_dir p show ?thesis by auto
qed

end
