(* ===== verification/Server_Handlers.thy ===== *)
theory Server_Handlers
  imports Dead_State
begin

text \<open>
  The daemon's request handlers: \<open>internal/daemon/server_attach.go\<close>, \<open>server_control.go\<close>,
  \<open>server_inspect.go\<close>. A handler returns what it writes to the connection and the new server. Other connections run while a handler has
  released the server's lock; \<open>itf k\<close> is what they do to the server at the \<open>k\<close>-th such point.
  Go's map iteration order is unspecified; the model uses the order of the table.
\<close>

type_synonym 't interference = "nat \<Rightarrow> 't server \<Rightarrow> 't server"

definition writeOK :: "message option" where
  "writeOK = Some MOK"

definition writeError :: "string \<Rightarrow> message option" where
  "writeError m = Some (MError \<lparr>error_Message = m\<rparr>)"

section \<open>server_attach.go\<close>

text \<open>\<open>watchSession\<close> starts a goroutine; what it does when the session ends is \<open>sessionEnded\<close> below.\<close>

definition addSession :: "string \<Rightarrow> 't tableEntry \<Rightarrow> 't server \<Rightarrow> bool \<times> 't server" where
  "addSession name ls sv =
     (case insertSessionOrExisting name ls sv of
        ((_, False), sv) \<Rightarrow> (False, sv)
      | ((_, True), sv) \<Rightarrow> (True, sv))"

definition createSpec :: "createMsg \<Rightarrow> string \<Rightarrow> 't server \<Rightarrow> sessionStartSpec" where
  "createSpec msg name sv = \<lparr>spec_name = name, spec_command = create_Command msg, spec_env = create_Env msg,
     spec_cwd = create_CWD msg, spec_size = \<lparr>cols = 80, rows = 24, xpixel = 0, ypixel = 0\<rparr>,
     spec_scrollback = scrollback sv (create_Scrollback msg)\<rparr>"

definition handleCreate ::
  "'t host \<Rightarrow> 't interference \<Rightarrow> createMsg \<Rightarrow> 't server \<Rightarrow> message option \<times> 't server" where
  "handleCreate h itf msg sv =
     (case reserveSessionName h (create_Name msg) sv of
        (Inl e, sv) \<Rightarrow> (writeError (error_text (Wrap ''reserve session name'' e)), sv)
      | (Inr name, sv) \<Rightarrow>
     let sv = itf 0 sv
     in if liveSession name sv \<noteq> None then (writeError ''session already exists'', sv)
        else (case prepareCreateDeadSession name (create_Force msg) (itf 1 sv) of
                (Inl e, sv) \<Rightarrow> (writeError (error_text e), sv)
              | (Inr _, sv) \<Rightarrow>
             (case newSession h (createSpec msg name sv) (itf 2 sv) of
                (Inl e, sv) \<Rightarrow> (writeError (error_text e), sv)
              | (Inr ls, sv) \<Rightarrow>
             (case addSession name ls (itf 3 sv) of
                (False, sv) \<Rightarrow> (writeError ''session already exists'', closeSession ls sv)
              | (True, sv) \<Rightarrow>
                  (Some (MCreated \<lparr>created_Name = name, created_PID = se_PID (ls_sess ls)\<rparr>), sv)))))"

definition attachSize :: "attachMsg \<Rightarrow> termSize" where
  "attachSize msg = \<lparr>cols = attach_Cols msg, rows = attach_Rows msg, xpixel = attach_Xpixel msg,
     ypixel = attach_Ypixel msg\<rparr>"

definition attachSpec :: "attachMsg \<Rightarrow> string \<Rightarrow> 't server \<Rightarrow> sessionStartSpec" where
  "attachSpec msg name sv = \<lparr>spec_name = name, spec_command = attach_Command msg, spec_env = attach_Env msg,
     spec_cwd = attach_CWD msg, spec_size = attachSize msg, spec_scrollback = scrollback sv (attach_Scrollback msg)\<rparr>"

text \<open>
  A connection that has attached holds the session's pointer and its client: here the name, the
  session's identity and the client's reference, with the read-only flag.
\<close>

record attachment =
  at_name :: string
  at_id :: nat
  at_client :: ref
  at_readOnly :: bool

text \<open>\<open>sess.attach\<close> through the pointer: on the table's session when it still holds that session.\<close>

definition sessionAt :: "string \<Rightarrow> nat \<Rightarrow> 't server \<Rightarrow> 't tableEntry option" where
  "sessionAt name i sv =
     (case liveSession name sv of
        Some ls \<Rightarrow> if ls_id ls = i then Some ls else None
      | None \<Rightarrow> None)"

definition attachTo ::
  "'t host \<Rightarrow> string \<Rightarrow> nat \<Rightarrow> sessionAttachSpec \<Rightarrow> 't server \<Rightarrow> ref result \<times> 't server" where
  "attachTo h name i spec sv =
     (case sessionAt name i sv of
        None \<Rightarrow> (Inl (Errorf ''session closed''), sv)
      | Some ls \<Rightarrow>
          (case onSess (attach (ho_em h) (sv_ctxDone sv) spec) ls of
             (r, ls) \<Rightarrow> (r, putSession name ls sv)))"

definition clientSpec :: "attachMsg \<Rightarrow> string \<Rightarrow> bool \<Rightarrow> sessionAttachSpec" where
  "clientSpec msg clientRev created = \<lparr>as_size = attachSize msg, as_version = clientRev, as_readOnly = attach_ReadOnly msg,
     as_created = created\<rparr>"

text \<open>The session an attach request works on: the live one, or a new one, and whether it was created.\<close>

definition attachTarget ::
  "'t host \<Rightarrow> 't interference \<Rightarrow> attachMsg \<Rightarrow> string \<Rightarrow> 't server \<Rightarrow> ('t tableEntry \<times> bool) result \<times> 't server" where
  "attachTarget h itf msg name sv =
     (case liveSession name sv of
        Some ls \<Rightarrow> (Inr (ls, False), sv)
      | None \<Rightarrow>
          (case readDeadSession name (itf 1 sv) of
             (Inl e, sv) \<Rightarrow> (Inl (Wrap ''load dead session state'' e), sv)
           | (Inr (Some state), sv) \<Rightarrow> (Inl (Errorf (deadSessionStateExistsMessage name)), sv)
           | (Inr None, sv) \<Rightarrow>
          (case newSession h (attachSpec msg name sv) (itf 2 sv) of
             (Inl e, sv) \<Rightarrow> (Inl e, sv)
           | (Inr ls, sv) \<Rightarrow>
          (case insertSessionOrExisting name ls (itf 3 sv) of
             ((_, True), sv) \<Rightarrow> (Inr (ls, True), sv)
           | ((existing, False), sv) \<Rightarrow> (Inr (the existing, False), closeSession ls sv)))))"

definition handleAttachNew ::
  "'t host \<Rightarrow> 't interference \<Rightarrow> attachMsg \<Rightarrow> string \<Rightarrow> 't server
     \<Rightarrow> (message option \<times> attachment option) \<times> 't server" where
  "handleAttachNew h itf msg clientRev sv =
     (case reserveSessionName h (attach_Name msg) sv of
        (Inl e, sv) \<Rightarrow> ((writeError (error_text (Wrap ''reserve session name'' e)), None), sv)
      | (Inr name, sv) \<Rightarrow>
     (case attachTarget h itf msg name (itf 0 sv) of
        (Inl e, sv) \<Rightarrow> ((writeError (error_text e), None), sv)
      | (Inr (ls, created), sv) \<Rightarrow>
     (case attachTo h name (ls_id ls) (clientSpec msg clientRev created) (itf 4 sv) of
        (Inl e, sv) \<Rightarrow>
          ((writeError (error_text e), None), if created then closeSession ls (removeSession name sv) else sv)
      | (Inr ac, sv) \<Rightarrow>
          ((None, Some \<lparr>at_name = name, at_id = ls_id ls, at_client = ac, at_readOnly = attach_ReadOnly msg\<rparr>), sv))))"

definition handleAttachRestore ::
  "'t host \<Rightarrow> 't interference \<Rightarrow> attachMsg \<Rightarrow> string \<Rightarrow> 't server
     \<Rightarrow> (message option \<times> attachment option) \<times> 't server" where
  "handleAttachRestore h itf msg clientRev sv =
     (let name = attach_Name msg
      in case prepareRestoreDeadSession name sv of
           (Inl e, sv) \<Rightarrow> ((writeError (error_text e), None), sv)
         | (Inr state, sv) \<Rightarrow>
        (case restoreSession h state (attachSpec msg name sv) (itf 0 sv) of
           (Inl e, sv) \<Rightarrow> ((writeError (error_text e), None), sv)
         | (Inr ls, sv) \<Rightarrow>
        (case insertSession name ls (itf 1 sv) of
           (False, sv) \<Rightarrow> ((writeError ''session already exists'', None), closeSession ls sv)
         | (True, sv) \<Rightarrow>
        (case commitRestoreDeadSession name (itf 2 sv) of
           (Inl e, sv) \<Rightarrow> ((writeError (error_text e), None), closeSession ls (removeSession name sv))
         | (Inr _, sv) \<Rightarrow>
        (case attachTo h name (ls_id ls) (clientSpec msg clientRev False) (itf 3 sv) of
           (Inl e, sv) \<Rightarrow>
             (case rollbackRestoreDeadSession name state e (closeSession ls (removeSession name sv)) of
                (err, sv) \<Rightarrow> ((writeError (error_text err), None), sv))
         | (Inr ac, sv) \<Rightarrow>
             ((None, Some \<lparr>at_name = name, at_id = ls_id ls, at_client = ac, at_readOnly = attach_ReadOnly msg\<rparr>), sv))))))"

definition handleAttach ::
  "'t host \<Rightarrow> 't interference \<Rightarrow> attachMsg \<Rightarrow> string \<Rightarrow> 't server
     \<Rightarrow> (message option \<times> attachment option) \<times> 't server" where
  "handleAttach h itf msg clientRev sv =
     (if attach_Restore msg then handleAttachRestore h itf msg clientRev sv else handleAttachNew h itf msg clientRev sv)"

section \<open>server_control.go\<close>

definition handleKick :: "'t host \<Rightarrow> kickMsg \<Rightarrow> 't server \<Rightarrow> message option \<times> 't server" where
  "handleKick h msg sv =
     (if kick_Name msg = [] \<or> kick_ClientID msg = [] then (writeError ''name and client ID required'', sv)
      else case liveSession (kick_Name msg) sv of
             None \<Rightarrow> (writeError ''session not found'', sv)
           | Some ls \<Rightarrow>
               (case onSess (kickClient (ho_em h) (kick_ClientID msg)) ls of
                  (ok, ls) \<Rightarrow> (if ok then writeOK else writeError ''client not found'', putSession (kick_Name msg) ls sv)))"

definition handleKill :: "killMsg \<Rightarrow> 't server \<Rightarrow> message option \<times> 't server" where
  "handleKill msg sv =
     (case liveSession (kill_Name msg) sv of
        None \<Rightarrow> (writeError ''session not found'', sv)
      | Some ls \<Rightarrow> (writeOK, putSession (kill_Name msg) (killSession ls) sv))"

definition handleSend :: "sendMsg \<Rightarrow> 't server \<Rightarrow> message option \<times> 't server" where
  "handleSend msg sv =
     (case liveSession (send_Name msg) sv of
        None \<Rightarrow> (writeError ''session not found'', sv)
      | Some ls \<Rightarrow>
          (case sendInput (send_Data msg) ls of
             (Some e, ls) \<Rightarrow> (writeError (error_text e), putSession (send_Name msg) ls sv)
           | (None, ls) \<Rightarrow> (writeOK, putSession (send_Name msg) ls sv)))"

definition handleSendKey :: "'t host \<Rightarrow> sendKeyMsg \<Rightarrow> 't server \<Rightarrow> message option \<times> 't server" where
  "handleSendKey h msg sv =
     (case liveSession (sendKey_Name msg) sv of
        None \<Rightarrow> (writeError ''session not found'', sv)
      | Some ls \<Rightarrow>
          (case encodeClientKey h (sendKey_Key msg) (sendKey_Mods msg) (se_term (ls_sess ls)) of
             Inl e \<Rightarrow> (writeError (error_text e), sv)
           | Inr data \<Rightarrow>
               if length data > 0
               then (case sendInput data ls of
                       (Some e, ls) \<Rightarrow> (writeError (error_text e), putSession (sendKey_Name msg) ls sv)
                     | (None, ls) \<Rightarrow> (writeOK, putSession (sendKey_Name msg) ls sv))
               else (writeOK, sv)))"

section \<open>server_inspect.go\<close>

definition sessionState_of :: "'t session \<Rightarrow> string" where
  "sessionState_of s = (if isRunning s then SessionStateRunning else SessionStateDead)"

definition sessionCWD :: "'t host \<Rightarrow> 't session \<Rightarrow> string result" where
  "sessionCWD h s =
     (case ho_cwd h (se_term s) of
        Inl e \<Rightarrow> Inl (Wrap (''lookup cwd for '' @ se_Name s) e)
      | Inr (cwd, ok) \<Rightarrow> Inr (if ok then cwd else []))"

text \<open>A failed lookup is logged and the empty string returned with the error is used.\<close>

definition cwdOrEmpty :: "string result \<Rightarrow> string" where
  "cwdOrEmpty r = (case r of Inl _ \<Rightarrow> [] | Inr cwd \<Rightarrow> cwd)"

definition liveRow :: "'t host \<Rightarrow> sessionClient list \<Rightarrow> 't tableEntry \<Rightarrow> sessionRow" where
  "liveRow h clients ls =
     (let s = ls_sess ls; (c, r) = sessionSize s
      in \<lparr>row_Name = se_Name s, row_State = sessionState_of s, row_Cols = c, row_Rows = r, row_PID = se_PID s,
          row_CreatedAt = ucast (ls_CreatedAt ls), row_SavedAt = 0, row_CWD = cwdOrEmpty (sessionCWD h s),
          row_Clients = clients\<rparr>)"

text \<open>The rows of the live sessions. The row is taken before the session is asked for its clients.\<close>

fun listEach ::
  "'t host \<Rightarrow> bool \<Rightarrow> (string \<times> 't tableEntry) list \<Rightarrow> sessionRow list \<times> (string \<times> 't tableEntry) list" where
  "listEach h clients [] = ([], [])"
| "listEach h clients ((name, ls) # rest) =
     (let (rws, rest) = listEach h clients rest
      in if clients
         then (case onSess (clientInfo (ho_em h)) ls of
                 (cs, ls') \<Rightarrow> (liveRow h cs ls # rws, (name, ls') # rest))
         else (liveRow h [] ls # rws, (name, ls) # rest))"

definition handleList :: "'t host \<Rightarrow> listMsg \<Rightarrow> 't server \<Rightarrow> message option \<times> 't server" where
  "handleList h msg sv =
     (case listEach h (list_IncludeClients msg) (sv_sessions sv) of
        (live, table) \<Rightarrow>
          (case deadSessionRows (sv\<lparr>sv_sessions := table\<rparr>) of
             (Inl e, sv) \<Rightarrow> (writeError (error_text (Wrap ''list dead sessions'' e)), sv)
           | (Inr dead, sv) \<Rightarrow> (Some (MSessions \<lparr>sessions_Sessions = live @ dead\<rparr>), sv)))"

definition handleDump :: "'t host \<Rightarrow> dumpMsg \<Rightarrow> 't server \<Rightarrow> message option \<times> 't server" where
  "handleDump h msg sv =
     (case liveSession (dump_Name msg) sv of
        Some ls \<Rightarrow>
          (case ho_dump h (terminalDumpFormat (dump_Format msg)) (se_term (ls_sess ls)) of
             Inl e \<Rightarrow> (writeError (error_text e), sv)
           | Inr dump \<Rightarrow> (Some (MDumpResponse \<lparr>dumpResponse_Data = dump_Data dump\<rparr>), sv))
      | None \<Rightarrow>
          (case dumpDeadSession h (dump_Name msg) (dump_Format msg) sv of
             (Inl e, sv) \<Rightarrow> (writeError (error_text (Wrap ''load dead session state'' e)), sv)
           | (Inr (Some data), sv) \<Rightarrow> (Some (MDumpResponse \<lparr>dumpResponse_Data = data\<rparr>), sv)
           | (Inr None, sv) \<Rightarrow> (writeError ''session not found'', sv)))"

definition handlePrune :: "'t server \<Rightarrow> message option \<times> 't server" where
  "handlePrune sv =
     (case pruneDeadSessions sv of
        (Inl e, sv) \<Rightarrow> (writeError (error_text e), sv)
      | (Inr count, sv) \<Rightarrow> (Some (MPruneResponse \<lparr>pruneResponse_Count = count\<rparr>), sv))"

definition countSessions :: "('t session \<Rightarrow> bool) \<Rightarrow> 't server \<Rightarrow> u32" where
  "countSessions P sv = foldl (\<lambda>n (name, ls). if P (ls_sess ls) then n + 1 else n) 0 (sv_sessions sv)"

definition statusSnapshot ::
  "'t host \<Rightarrow> string \<Rightarrow> 't server \<Rightarrow> (u32 \<times> u32 \<times> sessionStatus option) \<times> 't server" where
  "statusSnapshot h sessionName sv =
     (let running = countSessions isRunning sv; dead = countSessions (\<lambda>s. \<not> isRunning s) sv
      in case (if sessionName \<noteq> [] then liveSession sessionName sv else None) of
           None \<Rightarrow> ((running, dead, None), sv)
         | Some ls \<Rightarrow>
             let s = ls_sess ls; (c, r) = sessionSize s;
                 (clients, ls') = onSess (clientInfo (ho_em h)) ls
             in ((running, dead, Some \<lparr>ss_Name = se_Name s, ss_State = sessionState_of s, ss_Cols = c, ss_Rows = r,
                    ss_PID = se_PID s, ss_CWD = cwdOrEmpty (sessionCWD h s), ss_Clients = clients\<rparr>),
                 putSession sessionName ls' sv))"

text \<open>\<open>ho_uptime\<close> is the clock's time since the start in seconds.\<close>

definition handleStatus :: "'t host \<Rightarrow> statusMsg \<Rightarrow> 't server \<Rightarrow> message option \<times> 't server" where
  "handleStatus h msg sv =
     (case statusSnapshot h (status_Name msg) sv of
        ((running, dead, ss), sv) \<Rightarrow>
          (case deadSessionNames sv of
             (Inl e, sv) \<Rightarrow> (writeError (error_text (Wrap ''list dead sessions'' e)), sv)
           | (Inr names, sv) \<Rightarrow>
               (Some (MStatusResponse
                  \<lparr>statusResponse_Daemon = \<lparr>ds_PID = ho_pid h, ds_Uptime = of_int (min (max (ho_uptime h) 0) 0xFFFFFFFF),
                     ds_SocketPath = sv_socketPath sv, ds_RunningCount = running,
                     ds_DeadCount = dead + of_nat (length names), ds_Version = ho_version h\<rparr>,
                   statusResponse_Session = ss\<rparr>), sv)))"

end
