(* ===== verification/Server_Conn.thy ===== *)
theory Server_Conn
  imports Server_Handlers Ht_Config
begin

text \<open>
  \<open>internal/daemon/server.go\<close>: creating the server, the steps of \<open>Listen\<close> before its accept loop,
  a connection's life in \<open>handleConn\<close>, the end of a session (\<open>watchSession\<close>) and \<open>Shutdown\<close>.
  The results of system calls outside the file system model (flock, the listening socket, the
  peer's credentials) are parameters.
\<close>

section \<open>New and Listen\<close>

definition newServer ::
  "string list \<Rightarrow> nat \<Rightarrow> daemonConfig \<Rightarrow> string \<Rightarrow> fs \<Rightarrow> tmpfs \<Rightarrow> 't server result" where
  "newServer env uid cfg policy w tmp =
     (if dc_StatePersistence cfg \<and> dc_StatePersistenceInterval cfg \<le> 0
      then Inl (Errorf ''daemon: state_persistence_interval must be > 0 when state persistence is enabled'')
      else let sock = (if dc_SocketPath cfg \<noteq> [] then dc_SocketPath cfg else SocketPath env uid)
           in Inr \<lparr>sv_sessions = [], sv_persist = dc_StatePersistence cfg, sv_fs = w, sv_tmp = tmp,
                   sv_socketPath = sock, sv_defaultScrollback = dc_DefaultScrollback cfg, sv_resizePolicy = policy,
                   sv_autoExit = dc_AutoExit cfg, sv_ctxDone = False, sv_nextId = 0, sv_procs = [],
                   sv_pidPath = filepathJoin [filepathDir sock, ''hauntty.pid''],
                   sv_lockPath = filepathJoin [filepathDir sock, ''hauntty.lock''],
                   sv_lockHeld = False, sv_listening = False, sv_shutdownOnce = False\<rparr>)"

text \<open>The outcome of opening and locking the lock file and of \<open>net.Listen\<close>; \<open>lk_busy\<close>: another process holds it.\<close>

record listenEnv =
  lk_open :: "gerror option"
  lk_busy :: bool
  lk_flock :: "gerror option"
  lk_listen :: "gerror option"

definition acquireLock :: "listenEnv \<Rightarrow> 't server \<Rightarrow> unit result \<times> 't server" where
  "acquireLock le sv =
     (case lk_open le of
        Some e \<Rightarrow> (Inl (Wrap ''daemon: open lock file'' e), sv)
      | None \<Rightarrow>
          if lk_busy le then (Inl (Errorf ''daemon already running''), sv)
          else (case lk_flock le of
                  Some e \<Rightarrow> (Inl (Wrap ''daemon: acquire lock'' e), sv)
                | None \<Rightarrow> (Inr (), sv\<lparr>sv_lockHeld := True\<rparr>)))"

definition releaseLock :: "'t server \<Rightarrow> 't server" where
  "releaseLock sv = sv\<lparr>sv_lockHeld := False\<rparr>"

definition writePID :: "u32 \<Rightarrow> 't server \<Rightarrow> unit result \<times> 't server" where
  "writePID pid sv = withFs (osWriteFile (sv_pidPath sv) (bytes_of_string (string_of_nat (unat pid)))) sv"

text \<open>
  \<open>Listen\<close> up to the accept loop. The deferred release of the lock runs on every return. A
  listener that is closed unlinks its socket file.
\<close>

definition listenSetup :: "listenEnv \<Rightarrow> u32 \<Rightarrow> 't server \<Rightarrow> unit result \<times> 't server" where
  "listenSetup le pid sv =
     (let sv = sv\<lparr>sv_fs := cleanStaleTmp (sv_fs sv)\<rparr>
      in case withFs (osMkdirAll (filepathDir (sv_socketPath sv))) sv of
           (Inl e, sv) \<Rightarrow> (Inl (Wrap ''daemon: create socket dir'' e), sv)
         | (Inr _, sv) \<Rightarrow>
        (case acquireLock le sv of
           (Inl e, sv) \<Rightarrow> (Inl e, sv)
         | (Inr _, sv) \<Rightarrow>
        (case withFs (osRemove (sv_socketPath sv)) sv of (_, sv) \<Rightarrow>
        (case lk_listen le of
           Some e \<Rightarrow> (Inl (Wrap ''daemon: listen'' e), releaseLock sv)
         | None \<Rightarrow>
             let sv = sv\<lparr>sv_fs := emit [EvCreate (sv_socketPath sv)] (sv_fs sv), sv_listening := True\<rparr>
             in (case writePID pid sv of
                   (Inl e, sv) \<Rightarrow>
                     (Inl e, releaseLock (sv\<lparr>sv_fs := emit [EvRemove (sv_socketPath sv)] (sv_fs sv)\<rparr>))
                 | (Inr _, sv) \<Rightarrow> (Inr (), sv))))))"

section \<open>Connections\<close>

record connState =
  cn_rev :: string
  cn_attached :: "attachment option"
  cn_closed :: bool

text \<open>
  The checks before the first message: the peer's user, the handshake and the version reply
  (what is written, if anything, and whether the write works). \<open>None\<close>: the connection is closed.
\<close>

definition admitConn ::
  "nat result \<Rightarrow> nat \<Rightarrow> (u8 \<times> string) result \<Rightarrow> bool \<Rightarrow> string \<Rightarrow> (u8 \<times> string) option \<times> connState option" where
  "admitConn peerUID uid hello writes serverRev =
     (case peerUID of
        Inl e \<Rightarrow> (None, None)
      | Inr peer \<Rightarrow>
          if peer \<noteq> uid then (None, None)
          else (case hello of
                  Inl e \<Rightarrow> (None, None)
                | Inr (clientVer, clientRev) \<Rightarrow>
                    if clientVer \<noteq> ProtocolVersion then (Some (0, []), None)
                    else (Some (ProtocolVersion, serverRev),
                          if writes then Some \<lparr>cn_rev = clientRev, cn_attached = None, cn_closed = False\<rparr> else None)))"

text \<open>Calls through the attached session's pointer; a session no longer in the table has ended.\<close>

definition onAttached :: "('t tableEntry \<Rightarrow> 't tableEntry) \<Rightarrow> attachment \<Rightarrow> 't server \<Rightarrow> 't server" where
  "onAttached f at sv =
     (case sessionAt (at_name at) (at_id at) sv of
        None \<Rightarrow> sv
      | Some ls \<Rightarrow> putSession (at_name at) (f ls) sv)"

definition detachConn :: "'t host \<Rightarrow> attachment \<Rightarrow> 't server \<Rightarrow> 't server" where
  "detachConn h at sv =
     onAttached (\<lambda>ls. ls\<lparr>ls_sess := detachClient (ho_em h) (at_client at) (ls_sess ls)\<rparr>) at sv"

text \<open>A message in streaming mode: whether the connection stays open.\<close>

definition streamStep :: "'t host \<Rightarrow> attachment \<Rightarrow> message \<Rightarrow> 't server \<Rightarrow> bool \<times> 't server" where
  "streamStep h at msg sv =
     (case msg of
        MInput m \<Rightarrow>
          (True, if at_readOnly at then sv else onAttached (\<lambda>ls. snd (sendInput (input_Data m) ls)) at sv)
      | MResize m \<Rightarrow>
          (True, if at_readOnly at then sv
                 else onAttached (\<lambda>ls. ls\<lparr>ls_sess := resizeClient (ho_em h) (at_client at)
                        \<lparr>cols = resize_Cols m, rows = resize_Rows m, xpixel = resize_Xpixel m, ypixel = resize_Ypixel m\<rparr>
                        (ls_sess ls)\<rparr>) at sv)
      | _ \<Rightarrow> (False, detachConn h at sv))"

text \<open>A message in control mode: the reply, the attachment it makes, whether the connection stays open.\<close>

definition controlStep ::
  "'t host \<Rightarrow> 't interference \<Rightarrow> string \<Rightarrow> message \<Rightarrow> 't server
     \<Rightarrow> (message option \<times> attachment option \<times> bool) \<times> 't server" where
  "controlStep h itf clientRev msg sv =
     (let plain = (\<lambda>(reply, sv). ((reply, None, True), sv))
      in case msg of
           MCreate m \<Rightarrow> plain (handleCreate h itf m sv)
         | MAttach m \<Rightarrow> (case handleAttach h itf m clientRev sv of ((reply, at), sv) \<Rightarrow> ((reply, at, True), sv))
         | MList m \<Rightarrow> plain (handleList h m sv)
         | MKill m \<Rightarrow> plain (handleKill m sv)
         | MSend m \<Rightarrow> plain (handleSend m sv)
         | MSendKey m \<Rightarrow> plain (handleSendKey h m sv)
         | MDump m \<Rightarrow> plain (handleDump h m sv)
         | MPrune \<Rightarrow> plain (handlePrune sv)
         | MStatus m \<Rightarrow> plain (handleStatus h m sv)
         | MKick m \<Rightarrow> plain (handleKick h m sv)
         | _ \<Rightarrow> ((None, None, False), sv))"

definition connStep ::
  "'t host \<Rightarrow> 't interference \<Rightarrow> message \<Rightarrow> connState \<Rightarrow> 't server \<Rightarrow> (message option \<times> connState) \<times> 't server" where
  "connStep h itf msg cn sv =
     (case cn_attached cn of
        Some at \<Rightarrow>
          (case streamStep h at msg sv of
             (stays, sv) \<Rightarrow> ((None, cn\<lparr>cn_closed := \<not> stays\<rparr>), sv))
      | None \<Rightarrow>
          (case controlStep h itf (cn_rev cn) msg sv of
             ((reply, at, stays), sv) \<Rightarrow> ((reply, cn\<lparr>cn_attached := at, cn_closed := \<not> stays\<rparr>), sv)))"

text \<open>
  The loop over the messages read until the connection fails, then the final detach. \<open>itf 5\<close> is
  what other connections do while this one waits for its next message.
\<close>

fun runConn ::
  "'t host \<Rightarrow> (nat \<Rightarrow> 't interference) \<Rightarrow> message list \<Rightarrow> connState \<Rightarrow> 't server \<Rightarrow> message list \<times> 't server" where
  "runConn h itfs [] cn sv =
     ([], case cn_attached cn of Some at \<Rightarrow> detachConn h at sv | None \<Rightarrow> sv)"
| "runConn h itfs (msg # msgs) cn sv =
     (case connStep h (itfs (length msgs)) msg cn (itfs (length msgs) 5 sv) of
        ((reply, cn), sv) \<Rightarrow>
          if cn_closed cn then (case reply of Some r \<Rightarrow> [r] | None \<Rightarrow> [], sv)
          else (case runConn h itfs msgs cn sv of
                  (replies, sv) \<Rightarrow> ((case reply of Some r \<Rightarrow> [r] | None \<Rightarrow> []) @ replies, sv)))"

section \<open>The end of sessions and of the daemon\<close>

definition persistOne :: "'t host \<Rightarrow> 't server \<Rightarrow> string \<Rightarrow> 't tableEntry \<Rightarrow> fs \<Rightarrow> unit result \<times> fs" where
  "persistOne h sv name ls w =
     saveSession (stateDir (fs_env (sv_fs sv))) (ho_now h) (\<lambda>ls. ho_snapshot h (se_term (ls_sess ls)))
       (\<lambda>ls. sessionSize (ls_sess ls)) name ls w"

definition shutdown :: "'t host \<Rightarrow> 't server \<Rightarrow> 't server" where
  "shutdown h sv =
     (let sv = (if sv_persist sv
                then snd (withFs (saveAllWith (persistOne h sv) (sv_sessions sv)) sv)
                else sv);
          sv = releaseLock (sv\<lparr>sv_ctxDone := True\<rparr>);
          sv = (foldl (\<lambda>sv (name, ls). closeSession ls sv) sv (sv_sessions sv))\<lparr>sv_sessions := []\<rparr>
      in if sv_listening sv
         then snd (withFs (osRemove (sv_pidPath sv)) (snd (withFs (osRemove (sv_socketPath sv)) sv)))
         else sv)"

definition Shutdown :: "'t host \<Rightarrow> 't server \<Rightarrow> 't server" where
  "Shutdown h sv = (if sv_shutdownOnce sv then sv else shutdown h (sv\<lparr>sv_shutdownOnce := True\<rparr>))"

text \<open>What the goroutine of \<open>watchSession\<close> does once \<open>sess.done\<close> is closed.\<close>

definition sessionEnded :: "'t host \<Rightarrow> 't tableEntry \<Rightarrow> 't server \<Rightarrow> 't server" where
  "sessionEnded h ls sv =
     (let name = se_Name (ls_sess ls);
          sv = (if sv_persist sv \<and> \<not> sv_ctxDone sv then snd (withFs (persistOne h sv name ls) sv) else sv);
          sv = removeSession name sv
      in if sv_autoExit sv \<and> sv_sessions sv = [] then Shutdown h sv else sv)"

end
