(* ===== verification/Server_Inv.thy ===== *)
theory Server_Inv
  imports Server_Conn
begin

text \<open>
  The invariant of the session table and that every handler keeps it. \<open>orphans\<close> are the sessions
  that were started, not closed, and are not in the table: nobody can reach or end them any more.
\<close>

definition tableIds :: "'t server \<Rightarrow> nat set" where
  "tableIds sv = (ls_id \<circ> snd) ` set (sv_sessions sv)"

lemma tableIds_iff: "i \<in> tableIds sv \<longleftrightarrow> (\<exists>n ls. (n, ls) \<in> set (sv_sessions sv) \<and> ls_id ls = i)"
  by (force simp: tableIds_def)

definition orphans :: "'t server \<Rightarrow> nat set" where
  "orphans sv = set (sv_procs sv) - tableIds sv"

definition table_ok :: "'t server \<Rightarrow> bool" where
  "table_ok sv \<longleftrightarrow> distinct (map fst (sv_sessions sv)) \<and> distinct (map (ls_id \<circ> snd) (sv_sessions sv))
     \<and> (\<forall>(name, ls) \<in> set (sv_sessions sv). se_Name (ls_sess ls) = name)
     \<and> tableIds sv \<subseteq> set (sv_procs sv) \<and> distinct (sv_procs sv) \<and> (\<forall>i \<in> set (sv_procs sv). i < sv_nextId sv)"

text \<open>
  What a handler relies on while others run: they keep the invariant and the orphans, identities
  only grow, and they remove no session that was started since the handler began (identity \<open>n\<close>
  or later).
\<close>

definition rely :: "nat \<Rightarrow> 't interference \<Rightarrow> bool" where
  "rely n itf \<longleftrightarrow> (\<forall>k s. table_ok s \<longrightarrow> table_ok (itf k s) \<and> orphans (itf k s) = orphans s \<and> sv_nextId s \<le> sv_nextId (itf k s)
     \<and> (\<forall>name ls. liveSession name s = Some ls \<and> n \<le> ls_id ls \<longrightarrow>
          (\<exists>ls'. liveSession name (itf k s) = Some ls' \<and> ls_id ls' = ls_id ls)))"

section \<open>Equal tables\<close>

definition same_table :: "'t server \<Rightarrow> 't server \<Rightarrow> bool" where
  "same_table sv sv' \<longleftrightarrow> sv_sessions sv' = sv_sessions sv \<and> sv_procs sv' = sv_procs sv \<and> sv_nextId sv' = sv_nextId sv"

lemma same_table_refl [simp]: "same_table sv sv"
  by (simp add: same_table_def)

lemma same_table_trans: "same_table a b \<Longrightarrow> same_table b c \<Longrightarrow> same_table a c"
  by (simp add: same_table_def)

lemma fs_only_same_table: "fs_only sv sv' \<Longrightarrow> same_table sv sv'"
  by (auto simp: fs_only_def same_table_def)

lemma same_table_ok:
  assumes "same_table sv sv'"
  shows "table_ok sv' = table_ok sv" "orphans sv' = orphans sv" "liveSession name sv' = liveSession name sv"
    "sv_nextId sv' = sv_nextId sv" "tableIds sv' = tableIds sv" "set (sv_procs sv') = set (sv_procs sv)"
  using assms by (simp_all add: same_table_def table_ok_def orphans_def tableIds_def liveSession_def)

named_theorems fs_only_rules

lemma fs_only_withFs [fs_only_rules]: "withFs f sv = (r, sv') \<Longrightarrow> fs_only sv sv'"
  by (rule withFs_fs_only)

lemma fs_only_reserve: "reserveSessionName h name sv = (r, sv') \<Longrightarrow> fs_only sv sv'"
  by (auto simp: reserveSessionName_def Let_def split: if_splits prod.splits sum.splits intro: withFs_fs_only)

lemma fs_only_dead:
  "deadSessionNames sv = (r1, sv1) \<Longrightarrow> fs_only sv sv1"
  "readDeadSession name sv = (r2, sv1) \<Longrightarrow> fs_only sv sv1"
  "removeDeadSession name sv = (r3, sv1) \<Longrightarrow> fs_only sv sv1"
  "writeDeadSession name st sv = (r3, sv1) \<Longrightarrow> fs_only sv sv1"
  by (auto simp: deadSessionNames_def readDeadSession_def removeDeadSession_def writeDeadSession_def
      split: if_splits prod.splits sum.splits intro: withFs_fs_only)

lemma fs_only_deadRows: "deadRows names sv = (r, sv') \<Longrightarrow> fs_only sv sv'"
proof (induction names arbitrary: sv r)
  case (Cons n names)
  obtain q sv1 where rd: "readDeadSession n sv = (q, sv1)" by fastforce
  from fs_only_dead(2) [OF rd] have "fs_only sv sv1" .
  with Cons rd show ?case
    by (auto split: sum.splits option.splits prod.splits dest: fs_only_trans)
qed simp

lemma fs_only_pruneEach: "pruneEach names c sv = (r, sv') \<Longrightarrow> fs_only sv sv'"
proof (induction names arbitrary: c sv)
  case (Cons n names)
  obtain q sv1 where rd: "removeDeadSession n sv = (q, sv1)" by fastforce
  from fs_only_dead(3) [OF rd] have "fs_only sv sv1" .
  with Cons rd show ?case by (auto split: sum.splits dest: fs_only_trans)
qed simp

lemma fs_only_handlers:
  "deadSessionRows sv = (r1, sv1) \<Longrightarrow> fs_only sv sv1"
  "pruneDeadSessions sv = (r2, sv1) \<Longrightarrow> fs_only sv sv1"
  "dumpDeadSession h name fmt sv = (r3, sv1) \<Longrightarrow> fs_only sv sv1"
  "prepareCreateDeadSession name force sv = (r4, sv1) \<Longrightarrow> fs_only sv sv1"
  "prepareRestoreDeadSession name sv = (r5, sv1) \<Longrightarrow> fs_only sv sv1"
  "commitRestoreDeadSession name sv = (r4, sv1) \<Longrightarrow> fs_only sv sv1"
  "rollbackRestoreDeadSession name st err sv = (r6, sv1) \<Longrightarrow> fs_only sv sv1"
  by (auto simp: deadSessionRows_def pruneDeadSessions_def dumpDeadSession_def prepareCreateDeadSession_def
      prepareRestoreDeadSession_def commitRestoreDeadSession_def rollbackRestoreDeadSession_def
      split: if_splits prod.splits sum.splits option.splits
      dest: fs_only_dead fs_only_deadRows fs_only_pruneEach fs_only_trans)

section \<open>Table operations\<close>

text \<open>A session being started: a fresh identity, in no table, named as asked.\<close>

definition started :: "string \<Rightarrow> 't tableEntry \<Rightarrow> 't server \<Rightarrow> 't server \<Rightarrow> bool" where
  "started name ls sv sv' \<longleftrightarrow> sv_sessions sv' = sv_sessions sv \<and> sv_procs sv' = sv_nextId sv # sv_procs sv
     \<and> sv_nextId sv' = Suc (sv_nextId sv) \<and> ls_id ls = sv_nextId sv \<and> se_Name (ls_sess ls) = name"

lemma launchAndStart_result:
  assumes "launchAndStart h spec term sv = (r, sv')"
  shows "case r of Inl e \<Rightarrow> same_table sv sv' | Inr ls \<Rightarrow> started (spec_name spec) ls sv sv'"
  using assms
  by (auto simp: launchAndStart_def same_table_def started_def startSession_def setSize_def split: prod.splits sum.splits)

lemma newSession_result:
  assumes "newSession h spec sv = (r, sv')"
  shows "case r of Inl e \<Rightarrow> same_table sv sv' | Inr ls \<Rightarrow> started (spec_name spec) ls sv sv'"
  using assms launchAndStart_result [of h spec _ sv r sv'] by (auto simp: newSession_def split: sum.splits)

lemma restoreSession_result:
  assumes "restoreSession h st spec sv = (r, sv')"
  shows "case r of Inl e \<Rightarrow> same_table sv sv' | Inr ls \<Rightarrow> started (spec_name spec) ls sv sv'"
  using assms launchAndStart_result [of h spec _ sv r sv'] by (auto simp: restoreSession_def split: sum.splits)

lemma started_ok:
  assumes "started name ls sv sv'" and "table_ok sv"
  shows "table_ok sv'" and "orphans sv' = insert (ls_id ls) (orphans sv)" and "ls_id ls \<notin> set (sv_procs sv)"
    and "sv_nextId sv \<le> sv_nextId sv'"
proof -
  have fresh: "sv_nextId sv \<notin> set (sv_procs sv)" using assms(2) by (auto simp: table_ok_def)
  then show "ls_id ls \<notin> set (sv_procs sv)" using assms(1) by (simp add: started_def)
  show "table_ok sv'" using assms fresh by (auto simp: started_def table_ok_def tableIds_def less_Suc_eq)
  have "sv_nextId sv \<notin> tableIds sv" using fresh assms(2) by (auto simp: table_ok_def)
  then show "orphans sv' = insert (ls_id ls) (orphans sv)"
    using assms(1) by (auto simp: started_def orphans_def tableIds_def)
  show "sv_nextId sv \<le> sv_nextId sv'" using assms(1) by (simp add: started_def)
qed

lemma orphan_below: "table_ok sv \<Longrightarrow> i \<in> orphans sv \<Longrightarrow> i < sv_nextId sv"
  by (auto simp: orphans_def table_ok_def)

text \<open>Inserting an orphan under a free name puts it into the table.\<close>

lemma insert_ok:
  assumes "table_ok sv" and "liveSession name sv = None" and "ls_id ls \<in> orphans sv" and "se_Name (ls_sess ls) = name"
    and "sv' = sv\<lparr>sv_sessions := sv_sessions sv @ [(name, ls)]\<rparr>"
  shows "table_ok sv'" and "orphans sv' = orphans sv - {ls_id ls}" and "liveSession name sv' = Some ls"
proof -
  have free: "name \<notin> fst ` set (sv_sessions sv)"
    using assms(2) by (auto simp: liveSession_def dest: map_of_eq_None_iff [THEN iffD1])
  have new: "ls_id ls \<notin> (ls_id \<circ> snd) ` set (sv_sessions sv)" "ls_id ls \<in> set (sv_procs sv)"
    using assms(3) by (auto simp: orphans_def tableIds_def)
  show "table_ok sv'" using assms(1,4,5) free new by (auto simp: table_ok_def tableIds_def)
  show "orphans sv' = orphans sv - {ls_id ls}" using assms(5) by (auto simp: orphans_def tableIds_def)
  show "liveSession name sv' = Some ls" using free assms(5) by (auto simp: liveSession_def map_add_Some_iff map_of_eq_None_iff)
qed

lemma insertSessionOrExisting_cases:
  assumes "insertSessionOrExisting name ls sv = ((ex, ins), sv')"
  obtains "ins" "ex = None" "liveSession name sv = None" "sv' = sv\<lparr>sv_sessions := sv_sessions sv @ [(name, ls)]\<rparr>"
    | "\<not> ins" "sv' = sv" "\<exists>ls'. ex = Some ls' \<and> liveSession name sv = Some ls'"
  using assms by (auto simp: insertSessionOrExisting_def liveSession_def split: option.splits)

lemma closeSession_frame [simp]:
  "sv_sessions (closeSession ls sv) = sv_sessions sv" "sv_nextId (closeSession ls sv) = sv_nextId sv"
  "sv_fs (closeSession ls sv) = sv_fs sv" "sv_persist (closeSession ls sv) = sv_persist sv"
  "liveSession name (closeSession ls sv) = liveSession name sv" "sv_procs (closeSession ls sv) = remove1 (ls_id ls) (sv_procs sv)"
  by (simp_all add: closeSession_def liveSession_def)

text \<open>Closing an orphan.\<close>

lemma close_ok:
  assumes "table_ok sv" and "ls_id ls \<in> orphans sv"
  shows "table_ok (closeSession ls sv)" and "orphans (closeSession ls sv) = orphans sv - {ls_id ls}"
proof -
  have d: "set (remove1 (ls_id ls) (sv_procs sv)) = set (sv_procs sv) - {ls_id ls}"
    using assms(1) by (simp add: table_ok_def set_remove1_eq)
  have "ls_id ls \<notin> tableIds sv" using assms(2) by (simp add: orphans_def)
  moreover have t: "tableIds (closeSession ls sv) = tableIds sv" by (simp add: tableIds_def)
  ultimately show "table_ok (closeSession ls sv)"
    using assms(1) d by (auto simp: table_ok_def distinct_remove1)
  show "orphans (closeSession ls sv) = orphans sv - {ls_id ls}"
    using d by (auto simp: orphans_def t)
qed

text \<open>Removing a name makes its session an orphan.\<close>

lemma remove_ok:
  assumes "table_ok sv" and "liveSession name sv = Some ls"
  shows "table_ok (removeSession name sv)" and "orphans (removeSession name sv) = insert (ls_id ls) (orphans sv)"
    and "liveSession name (removeSession name sv) = None"
proof -
  have mem: "(name, ls) \<in> set (sv_sessions sv)" using assms(2) by (simp add: liveSession_def map_of_SomeD)
  have del: "AList.delete name (sv_sessions sv) = filter (\<lambda>(k, v). k \<noteq> name) (sv_sessions sv)"
    by (auto simp: AList.delete_eq intro: filter_cong)
  have dist: "distinct (map fst (sv_sessions sv))" "distinct (map (ls_id \<circ> snd) (sv_sessions sv))"
    using assms(1) by (simp_all add: table_ok_def)
  show "table_ok (removeSession name sv)"
    using assms(1) unfolding removeSession_def del
    by (auto simp: table_ok_def tableIds_def distinct_map_filter split_beta)
  have only: "ls' = ls" if "(name, ls') \<in> set (sv_sessions sv)" for ls'
    using that mem dist(1) by (meson eq_key_imp_eq_value)
  have other: "n = name" if "(n, ls') \<in> set (sv_sessions sv)" "ls_id ls' = ls_id ls" for n ls'
    using that mem dist(2) by (auto simp: distinct_map dest: inj_onD [where x = "(n, ls')" and y = "(name, ls)"])
  have "i \<in> tableIds (removeSession name sv) \<longleftrightarrow> i \<in> tableIds sv \<and> i \<noteq> ls_id ls" for i
  proof -
    have "i \<in> tableIds (removeSession name sv) \<longleftrightarrow> (\<exists>n l. (n, l) \<in> set (sv_sessions sv) \<and> n \<noteq> name \<and> ls_id l = i)"
      by (auto simp: tableIds_iff removeSession_def del)
    then show ?thesis using only other by (metis tableIds_iff)
  qed
  then have "tableIds (removeSession name sv) = tableIds sv - {ls_id ls}" by auto
  moreover have "ls_id ls \<in> tableIds sv" using mem tableIds_iff by blast
  then have "ls_id ls \<in> set (sv_procs sv)" using assms(1) by (auto simp: table_ok_def)
  ultimately show "orphans (removeSession name sv) = insert (ls_id ls) (orphans sv)"
    by (auto simp: orphans_def removeSession_def)
  show "liveSession name (removeSession name sv) = None" by (simp add: liveSession_def removeSession_def AList.delete_conv')
qed

text \<open>Writing a session back under its own name and identity.\<close>

lemma put_ok:
  assumes "table_ok sv" and "liveSession name sv = Some ls" and "ls_id ls' = ls_id ls"
    and "se_Name (ls_sess ls') = se_Name (ls_sess ls)"
  shows "table_ok (putSession name ls' sv)" and "orphans (putSession name ls' sv) = orphans sv"
    and "sv_nextId (putSession name ls' sv) = sv_nextId sv" and "liveSession name (putSession name ls' sv) = Some ls'"
proof -
  have mem: "(name, ls) \<in> set (sv_sessions sv)" using assms(2) by (simp add: liveSession_def map_of_SomeD)
  have dist: "distinct (map fst (sv_sessions sv))" using assms(1) by (simp add: table_ok_def)
  have upd: "AList.update name ls' xs = map (\<lambda>(k, v). (k, if k = name then ls' else v)) xs"
    if "distinct (map fst xs)" "name \<in> fst ` set xs" for xs
    using that
  proof (induction xs)
    case (Cons x xs)
    show ?case
    proof (cases "fst x = name")
      case True
      with Cons.prems have "name \<notin> fst ` set xs" by auto
      then have "map (\<lambda>(k, v). (k, if k = name then ls' else v)) xs = xs" by (induction xs) auto
      with True show ?thesis by (cases x) simp
    next
      case False
      with Cons show ?thesis by (cases x) auto
    qed
  qed simp
  let ?m = "map (\<lambda>(k, v). (k, if k = name then ls' else v)) (sv_sessions sv)"
  have eq: "sv_sessions (putSession name ls' sv) = ?m"
    using upd [OF dist] mem by (force simp: putSession_def)
  have val: "v = ls" if "(name, v) \<in> set (sv_sessions sv)" for v using that mem dist by (meson eq_key_imp_eq_value)
  have ids: "map (ls_id \<circ> snd) ?m = map (ls_id \<circ> snd) (sv_sessions sv)"
    using val assms(3) by (auto simp: split_beta)
  have tids: "tableIds (putSession name ls' sv) = tableIds sv"
    using arg_cong [OF ids, of set] unfolding tableIds_def eq by (simp only: list.set_map)
  have same: "sv_procs (putSession name ls' sv) = sv_procs sv" "sv_nextId (putSession name ls' sv) = sv_nextId sv"
    by (simp_all add: putSession_def)
  have old: "se_Name (ls_sess l) = n" if "(n, l) \<in> set (sv_sessions sv)" for n l
    using assms(1) that by (auto simp: table_ok_def)
  then have "se_Name (ls_sess ls') = name" using assms(4) mem by simp
  with old have names: "\<forall>(n, l) \<in> set ?m. se_Name (ls_sess l) = n" by auto
  have fsts: "map fst ?m = map fst (sv_sessions sv)" by (simp add: split_beta comp_def)
  show "table_ok (putSession name ls' sv)"
    using assms(1) names unfolding table_ok_def tids same eq fsts ids by blast
  show "orphans (putSession name ls' sv) = orphans sv" using tids same by (simp add: orphans_def)
  show "sv_nextId (putSession name ls' sv) = sv_nextId sv" by (rule same)
  show "liveSession name (putSession name ls' sv) = Some ls'" by (simp add: liveSession_def putSession_def AList.update_conv')
qed

section \<open>Requests keep a session's name\<close>

lemma name_simple [simp]:
  "se_Name (modClient r f s) = se_Name s" "se_Name (chanClose r s) = se_Name s" "se_Name (snd (chanSend r m s)) = se_Name s"
  "se_Name (setSize c w s) = se_Name s" "se_Name (settle s) = se_Name s" "se_Name (drainFeed em s) = se_Name s"
  "se_Name (dropClient r s) = se_Name s"
  by (simp_all add: modClient_def chanClose_def chanSend_def setSize_def settle_def drainFeed_def dropClient_def Let_def)

lemma name_resize [simp]:
  "se_Name (resize em sz s) = se_Name s" "se_Name (resizeTo em sz s) = se_Name s"
  "se_Name (arbitrateResize em s) = se_Name s" "se_Name (resizeForPending em sz s) = se_Name s"
  by (simp_all add: resize_def resizeTo_def arbitrateResize_def resizeForPending_def Let_def split_beta)

lemma name_notifyEach [simp]: "se_Name (notifyEach cs m s) = se_Name s"
  by (induction cs m s rule: notifyEach.induct) simp_all

lemma name_notify [simp]: "se_Name (notifyClientsChanged s) = se_Name s"
  by (simp add: notifyClientsChanged_def split_beta)

lemma name_finishEach [simp]: "se_Name (finishEach f cs s) = se_Name s"
  by (induction f cs s rule: finishEach.induct) simp_all

lemma name_chanSend_pair: "chanSend r m s = (b, s') \<Longrightarrow> se_Name s' = se_Name s"
  using name_simple(3) [of r m s] by simp

lemma name_queueOutput [simp]: "se_Name (snd (queueOutput cs d s)) = se_Name s"
proof (induction cs arbitrary: s)
  case (Cons c cs)
  obtain b s1 where "chanSend c (MOutput \<lparr>output_Data = d\<rparr>) s = (b, s1)" by fastforce
  with Cons.IH [of s1] Cons.IH [of s] name_chanSend_pair [OF this] show ?case by (cases b) (simp_all add: split_beta)
qed simp

lemma name_pruneLoop [simp]: "se_Name (snd (pruneLoop cs pn s)) = se_Name s"
  by (induction cs pn s rule: pruneLoop.induct) (auto simp: split_beta)

lemma name_loopTop [simp]: "se_Name (pruneAndNotify s) = se_Name s" "se_Name (loopTop s) = se_Name s"
  by (simp_all add: loopTop_def flushPending_def pruneAndNotify_def pruneFinishedClients_def split_beta split: option.split)

lemma name_handleAction [simp]: "se_Name (snd (handleAction em a s)) = se_Name s"
  by (cases a) (simp_all add: handleAction_def attachAction_def detachAction_def kickAction_def resizeAction_def
      clientInfoAction_def stopAction_def Let_def split_beta split: sum.split option.split)

lemma name_serve [simp]: "se_Name (snd (serve em a s)) = se_Name s"
  by (simp add: serve_def Let_def split_beta)

lemma name_serve_pair: "serve em a s = (r, s') \<Longrightarrow> se_Name s' = se_Name s"
  using name_serve [of em a s] by simp

lemma name_requests [simp]:
  "se_Name (snd (attach em d spec s)) = se_Name s" "se_Name (detachClient em r s) = se_Name s"
  "se_Name (snd (kickClient em cid s)) = se_Name s" "se_Name (resizeClient em r sz s) = se_Name s"
  "se_Name (snd (clientInfo em s)) = se_Name s"
  by (auto simp: attach_def detachClient_def kickClient_def resizeClient_def clientInfo_def
      split: prod.splits option.splits actionReply.splits dest: name_serve_pair)

text \<open>What a request or an input does to a table entry: nothing but its session state and PTY input.\<close>

lemma onSess_same:
  assumes "onSess f ls = (r, ls')" and "\<And>s. se_Name (snd (f s)) = se_Name s"
  shows "ls_id ls' = ls_id ls" "se_Name (ls_sess ls') = se_Name (ls_sess ls)" "ls_input ls' = ls_input ls"
    "ls_tempDir ls' = ls_tempDir ls"
  using assms by (auto simp: onSess_def split: prod.splits) (metis snd_conv)

lemma sendInput_same:
  assumes "sendInput d ls = (r, ls')"
  shows "ls_id ls' = ls_id ls" "ls_sess ls' = ls_sess ls"
  using assms by (auto simp: sendInput_def split: option.splits)

section \<open>Handlers keep the table\<close>

definition keeps :: "'t server \<Rightarrow> 't server \<Rightarrow> bool" where
  "keeps sv sv' \<longleftrightarrow> table_ok sv' \<and> orphans sv' = orphans sv \<and> sv_nextId sv \<le> sv_nextId sv'"

lemma keeps_trans: "keeps a b \<Longrightarrow> keeps b c \<Longrightarrow> keeps a c"
  by (auto simp: keeps_def)

lemma keeps_fs_only: "table_ok sv \<Longrightarrow> fs_only sv sv' \<Longrightarrow> keeps sv sv'"
  using same_table_ok [OF fs_only_same_table] by (fastforce simp: keeps_def)

lemma keeps_same_table: "table_ok sv \<Longrightarrow> same_table sv sv' \<Longrightarrow> keeps sv sv'"
  using same_table_ok [of sv sv'] by (simp add: keeps_def)

lemma keeps_rely: "rely n itf \<Longrightarrow> table_ok sv \<Longrightarrow> keeps sv (itf k sv)"
  by (simp add: rely_def keeps_def)

lemma keeps_put:
  assumes "table_ok sv" and "liveSession name sv = Some ls" and "ls_id ls' = ls_id ls"
    and "se_Name (ls_sess ls') = se_Name (ls_sess ls)"
  shows "keeps sv (putSession name ls' sv)"
  using put_ok [OF assms] by (simp add: keeps_def)

lemma keepsD: "keeps sv sv' \<Longrightarrow> table_ok sv'" "keeps sv sv' \<Longrightarrow> orphans sv' = orphans sv"
  "keeps sv sv' \<Longrightarrow> sv_nextId sv \<le> sv_nextId sv'"
  by (simp_all add: keeps_def)

text \<open>
  The pattern shared by create, attach and restore: a session is started, others run, and it is
  put into the table or closed when the name was taken meanwhile.
\<close>

lemma start_and_insert:
  assumes ok: "table_ok sv" and st: "started name ls sv sv1" and r: "rely n itf"
    and ins: "insertSessionOrExisting name ls (itf k sv1) = ((ex, b), sv2)"
  shows "b \<Longrightarrow> keeps sv sv2 \<and> liveSession name sv2 = Some ls"
    and "\<not> b \<Longrightarrow> keeps sv (closeSession ls sv2) \<and> (\<exists>ls'. ex = Some ls' \<and> liveSession name (closeSession ls sv2) = Some ls')"
proof -
  note s1 = started_ok [OF st ok]
  have own: "se_Name (ls_sess ls) = name" using st by (simp add: started_def)
  have k: "keeps sv1 (itf k sv1)" using keeps_rely [OF r s1(1)] .
  then have orph: "orphans (itf k sv1) = insert (ls_id ls) (orphans sv)" and ok1: "table_ok (itf k sv1)"
    and nx: "sv_nextId sv \<le> sv_nextId (itf k sv1)" using s1(2,4) by (auto simp: keeps_def)
  have notin: "ls_id ls \<notin> orphans sv" using s1(3) by (simp add: orphans_def)
  have mem: "ls_id ls \<in> orphans (itf k sv1)" using orph by simp
  show "keeps sv sv2 \<and> liveSession name sv2 = Some ls" if b
    using ins
  proof (cases rule: insertSessionOrExisting_cases)
    case 1
    from insert_ok [OF ok1 1(3) mem own 1(4)] show ?thesis using orph notin nx 1(4) by (auto simp: keeps_def)
  qed (use that in simp)
  show "keeps sv (closeSession ls sv2) \<and> (\<exists>ls'. ex = Some ls' \<and> liveSession name (closeSession ls sv2) = Some ls')" if "\<not> b"
    using ins
  proof (cases rule: insertSessionOrExisting_cases)
    case 2
    from close_ok [OF ok1 mem] show ?thesis using orph notin nx 2(2,3) by (auto simp: keeps_def)
  qed (use that in simp)
qed

text \<open>How a create request ends: one case per return of \<open>handleCreate\<close>.\<close>

lemma handleCreate_cases:
  assumes "handleCreate h itf msg sv = (reply, sv')"
  obtains (unnamed) e where "reserveSessionName h (create_Name msg) sv = (Inl e, sv')"
    | (exists) name sv0 where "reserveSessionName h (create_Name msg) sv = (Inr name, sv0)" "sv' = itf 0 sv0"
    | (saved) name sv0 e where "reserveSessionName h (create_Name msg) sv = (Inr name, sv0)"
        "prepareCreateDeadSession name (create_Force msg) (itf 1 (itf 0 sv0)) = (Inl e, sv')"
    | (unstarted) name sv0 u sv1 e where "reserveSessionName h (create_Name msg) sv = (Inr name, sv0)"
        "prepareCreateDeadSession name (create_Force msg) (itf 1 (itf 0 sv0)) = (Inr u, sv1)"
        "newSession h (createSpec msg name sv1) (itf 2 sv1) = (Inl e, sv')"
    | (added) name sv0 u sv1 ls sv2 ex b sv3 where "reserveSessionName h (create_Name msg) sv = (Inr name, sv0)"
        "prepareCreateDeadSession name (create_Force msg) (itf 1 (itf 0 sv0)) = (Inr u, sv1)"
        "newSession h (createSpec msg name sv1) (itf 2 sv1) = (Inr ls, sv2)"
        "insertSessionOrExisting name ls (itf 3 sv2) = ((ex, b), sv3)"
        "sv' = (if b then sv3 else closeSession ls sv3)"
  using assms unfolding handleCreate_def Let_def addSession_def
  by (auto split: prod.splits sum.splits bool.splits if_splits)

lemma reserved_keeps:
  assumes "reserveSessionName h name sv = (r, sv0)" and "table_ok sv" and "rely n itf"
  shows "keeps sv sv0" and "keeps sv (itf 0 sv0)"
proof -
  show k0: "keeps sv sv0" using keeps_fs_only [OF assms(2) fs_only_reserve [OF assms(1)]] .
  show "keeps sv (itf 0 sv0)" using keeps_trans [OF k0 keeps_rely [OF assms(3) keepsD(1) [OF k0]]] .
qed

lemma prepared_keeps:
  assumes "prepareCreateDeadSession name force (itf 1 sv0) = (r, sv1)" and "keeps sv sv0" and "rely n itf"
  shows "keeps sv sv1" and "keeps sv (itf 2 sv1)"
proof -
  have "keeps sv (itf 1 sv0)" using keeps_trans [OF assms(2) keeps_rely [OF assms(3) keepsD(1) [OF assms(2)]]] .
  then show k1: "keeps sv sv1" using keeps_trans keeps_fs_only [OF keepsD(1) fs_only_handlers(4) [OF assms(1)]] by blast
  show "keeps sv (itf 2 sv1)" using keeps_trans [OF k1 keeps_rely [OF assms(3) keepsD(1) [OF k1]]] .
qed

lemma handleCreate_keeps:
  assumes "handleCreate h itf msg sv = (reply, sv')" and "table_ok sv" and "rely n itf"
  shows "keeps sv sv'"
  using assms(1)
proof (cases rule: handleCreate_cases)
  case unnamed
  then show ?thesis using reserved_keeps(1) [OF _ assms(2,3)] by blast
next
  case exists
  then show ?thesis using reserved_keeps(2) [OF _ assms(2,3)] by blast
next
  case saved
  then show ?thesis using prepared_keeps(1) [OF _ reserved_keeps(2) [OF _ assms(2,3)] assms(3)] by blast
next
  case c: unstarted
  note k = prepared_keeps(2) [OF c(2) reserved_keeps(2) [OF c(1) assms(2,3)] assms(3)]
  show ?thesis
    using newSession_result [OF c(3)] keeps_trans [OF k keeps_same_table [OF keepsD(1) [OF k]]] by simp
next
  case c: (added name sv0 u sv1 ls sv2 ex b sv3)
  note k = prepared_keeps(2) [OF c(2) reserved_keeps(2) [OF c(1) assms(2,3)] assms(3)]
  have "started name ls (itf 2 sv1) sv2" using newSession_result [OF c(3)] by (simp add: createSpec_def)
  from start_and_insert [OF keepsD(1) [OF k] this assms(3) c(4)] keeps_trans [OF k] c(5) show ?thesis by auto
qed

lemma remove_and_close:
  assumes "table_ok sv" and "liveSession name sv = Some l" and "ls_id ls = ls_id l"
  shows "keeps sv (closeSession ls (removeSession name sv))"
proof -
  note r = remove_ok [OF assms(1,2)]
  have "ls_id l \<notin> orphans sv"
    using assms(2) map_of_SomeD by (fastforce simp: orphans_def tableIds_iff liveSession_def)
  moreover have "ls_id ls \<in> orphans (removeSession name sv)" using r(2) assms(3) by simp
  note close_ok [OF r(1) this]
  ultimately show ?thesis using r(2) assms(3) by (auto simp: keeps_def) (simp add: removeSession_def)
qed

lemma attachTo_keeps:
  assumes "attachTo h name i spec sv = (r, sv')" and "table_ok sv"
  shows "keeps sv sv'"
    and "liveSession name sv = Some ls \<Longrightarrow> ls_id ls = i \<Longrightarrow> \<exists>ls'. liveSession name sv' = Some ls' \<and> ls_id ls' = i"
proof -
  have c: "sv' = sv \<and> sessionAt name i sv = None
      \<or> (\<exists>l l'. liveSession name sv = Some l \<and> ls_id l = i \<and> sv' = putSession name l' sv
           \<and> onSess (attach (ho_em h) (sv_ctxDone sv) spec) l = (r, l'))"
    using assms(1) by (auto simp: attachTo_def sessionAt_def split: option.splits if_splits prod.splits)
  show "keeps sv sv'"
    using c keeps_put [OF assms(2)] onSess_same name_requests(1) keeps_same_table [OF assms(2) same_table_refl] by metis
  show "\<exists>ls'. liveSession name sv' = Some ls' \<and> ls_id ls' = i" if "liveSession name sv = Some ls" "ls_id ls = i"
  proof -
    from c that obtain l' where l': "onSess (attach (ho_em h) (sv_ctxDone sv) spec) ls = (r, l')" "sv' = putSession name l' sv"
      by (auto simp: sessionAt_def)
    note o = onSess_same [OF l'(1) name_requests(1)]
    from put_ok(4) [OF assms(2) that(1) o(1,2)] o(1) l'(2) that(2) show ?thesis by simp
  qed
qed

lemma rely_live:
  assumes "rely n itf" and "table_ok sv" and "liveSession name sv = Some ls" and "n \<le> ls_id ls"
  shows "\<exists>ls'. liveSession name (itf k sv) = Some ls' \<and> ls_id ls' = ls_id ls"
  using assms by (auto simp: rely_def)

text \<open>Attaching to a session just put into the table, and taking it out again when that fails.\<close>

lemma attach_or_remove:
  assumes "table_ok sv" and "liveSession name sv = Some ls" and "n \<le> ls_id ls" and "rely n itf"
    and "attachTo h name (ls_id ls) spec (itf k sv) = (r, sv1)"
  shows "keeps sv sv1" and "keeps sv (closeSession ls (removeSession name sv1))"
proof -
  have k: "keeps sv (itf k sv)" using keeps_rely [OF assms(4,1)] .
  obtain l where l: "liveSession name (itf k sv) = Some l" "ls_id l = ls_id ls"
    using rely_live [OF assms(4,1,2,3)] by blast
  note a = attachTo_keeps [OF assms(5) keepsD(1) [OF k]]
  show k1: "keeps sv sv1" using keeps_trans [OF k a(1)] .
  obtain l' where "liveSession name sv1 = Some l'" "ls_id l' = ls_id ls" using a(2) [OF l] by blast
  with remove_and_close [OF keepsD(1) [OF k1]] keeps_trans [OF k1] show "keeps sv (closeSession ls (removeSession name sv1))"
    by metis
qed

lemma attachTarget_keeps:
  assumes "attachTarget h itf msg name sv = (r, sv')" and "table_ok sv" and "rely n itf" and "n \<le> sv_nextId sv"
  shows "keeps sv sv'"
    and "r = Inr (ls, True) \<Longrightarrow> liveSession name sv' = Some ls \<and> n \<le> ls_id ls"
proof -
  obtain r1 sv1 where a1: "readDeadSession name (itf 1 sv) = (r1, sv1)" by fastforce
  have k1': "keeps sv (itf 1 sv)" using keeps_rely [OF assms(3,2)] .
  then have k1: "keeps sv sv1" using keeps_trans keeps_fs_only [OF keepsD(1) fs_only_dead(2) [OF a1]] by blast
  have k2: "keeps sv (itf 2 sv1)" using keeps_trans [OF k1 keeps_rely [OF assms(3) keepsD(1) [OF k1]]] .
  obtain r2 sv2 where a2: "newSession h (attachSpec msg name sv1) (itf 2 sv1) = (r2, sv2)" by fastforce
  note n2 = newSession_result [OF a2]
  have "keeps sv sv' \<and> (\<forall>ls. r = Inr (ls, True) \<longrightarrow> liveSession name sv' = Some ls \<and> n \<le> ls_id ls)"
  proof (cases "liveSession name sv = None \<and> r1 = Inr None")
    case False
    then show ?thesis using assms(1) a1 k1 keeps_same_table [OF assms(2) same_table_refl]
      by (auto simp: attachTarget_def split: option.splits sum.splits)
  next
    case True
    show ?thesis
    proof (cases r2)
      case (Inl e)
      then have "keeps sv sv2" using n2 keeps_trans [OF k2 keeps_same_table [OF keepsD(1) [OF k2]]] by simp
      with assms(1) True a1 a2 Inl show ?thesis by (auto simp: attachTarget_def)
    next
      case (Inr ls)
      then have st: "started name ls (itf 2 sv1) sv2" using n2 by (simp add: attachSpec_def)
      obtain ex b sv3 where ins: "insertSessionOrExisting name ls (itf 3 sv2) = ((ex, b), sv3)" by (metis prod.collapse)
      have "n \<le> ls_id ls" using st assms(4) keepsD(3) [OF k2] by (simp add: started_def)
      moreover have "r = (if b then Inr (ls, True) else Inr (the ex, False)) \<and> sv' = (if b then sv3 else closeSession ls sv3)"
        using assms(1) True a1 a2 Inr ins by (auto simp: attachTarget_def split: bool.splits)
      ultimately show ?thesis
        using start_and_insert [OF keepsD(1) [OF k2] st assms(3) ins] keeps_trans [OF k2] by auto
    qed
  qed
  then show "keeps sv sv'" "r = Inr (ls, True) \<Longrightarrow> liveSession name sv' = Some ls \<and> n \<le> ls_id ls" by auto
qed

lemma handleAttachNew_keeps:
  assumes "handleAttachNew h itf msg clientRev sv = (out, sv')" and "table_ok sv" and "rely n itf" and "n \<le> sv_nextId sv"
  shows "keeps sv sv'"
proof -
  obtain r0 sv0 where a0: "reserveSessionName h (attach_Name msg) sv = (r0, sv0)" by fastforce
  have k0: "keeps sv sv0" using keeps_fs_only [OF assms(2) fs_only_reserve [OF a0]] .
  show ?thesis
  proof (cases r0)
    case (Inl e)
    with assms(1) a0 k0 show ?thesis by (auto simp: handleAttachNew_def)
  next
    case name: (Inr name)
    have k1: "keeps sv (itf 0 sv0)" using keeps_trans [OF k0 keeps_rely [OF assms(3) keepsD(1) [OF k0]]] .
    obtain r1 sv1 where a1: "attachTarget h itf msg name (itf 0 sv0) = (r1, sv1)" by fastforce
    have "n \<le> sv_nextId (itf 0 sv0)" using assms(4) keepsD(3) [OF k1] by simp
    note t = attachTarget_keeps [OF a1 keepsD(1) [OF k1] assms(3) this]
    have k2: "keeps sv sv1" using keeps_trans [OF k1 t(1)] .
    show ?thesis
    proof (cases r1)
      case (Inl e)
      with assms(1) a0 name a1 k2 show ?thesis by (auto simp: handleAttachNew_def)
    next
      case (Inr p)
      obtain ls created where p: "p = (ls, created)" by fastforce
      obtain r2 sv2 where a2: "attachTo h name (ls_id ls) (clientSpec msg clientRev created) (itf 4 sv1) = (r2, sv2)" by fastforce
      have k2': "keeps sv (itf 4 sv1)" using keeps_trans [OF k2 keeps_rely [OF assms(3) keepsD(1) [OF k2]]] .
      have k3: "keeps sv sv2" using keeps_trans [OF k2' attachTo_keeps(1) [OF a2 keepsD(1) [OF k2']]] .
      have "keeps sv (closeSession ls (removeSession name sv2))" if created
        using attach_or_remove(2) [OF keepsD(1) [OF k2] _ _ assms(3) a2] t(2) Inr p that keeps_trans [OF k2] by auto
      then show ?thesis using assms(1) a0 name a1 Inr p a2 k3
        by (auto simp: handleAttachNew_def split: sum.splits if_splits)
    qed
  qed
qed

text \<open>How an attach with restore ends: one case per return of \<open>handleAttachRestore\<close>.\<close>

lemma handleAttachRestore_cases:
  assumes "handleAttachRestore h itf msg clientRev sv = ((reply, at), sv')"
  obtains (unsaved) e where "prepareRestoreDeadSession (attach_Name msg) sv = (Inl e, sv')" "at = None"
    | (unstarted) state sv0 e where "prepareRestoreDeadSession (attach_Name msg) sv = (Inr state, sv0)"
        "restoreSession h state (attachSpec msg (attach_Name msg) sv0) (itf 0 sv0) = (Inl e, sv')" "at = None"
    | (taken) state sv0 ls sv1 ex sv2 where "prepareRestoreDeadSession (attach_Name msg) sv = (Inr state, sv0)"
        "restoreSession h state (attachSpec msg (attach_Name msg) sv0) (itf 0 sv0) = (Inr ls, sv1)"
        "insertSessionOrExisting (attach_Name msg) ls (itf 1 sv1) = ((ex, False), sv2)"
        "sv' = closeSession ls sv2" "at = None"
    | (uncommitted) state sv0 ls sv1 ex sv2 e sv3 where "prepareRestoreDeadSession (attach_Name msg) sv = (Inr state, sv0)"
        "restoreSession h state (attachSpec msg (attach_Name msg) sv0) (itf 0 sv0) = (Inr ls, sv1)"
        "insertSessionOrExisting (attach_Name msg) ls (itf 1 sv1) = ((ex, True), sv2)"
        "commitRestoreDeadSession (attach_Name msg) (itf 2 sv2) = (Inl e, sv3)"
        "sv' = closeSession ls (removeSession (attach_Name msg) sv3)" "at = None"
    | (refused) state sv0 ls sv1 ex sv2 u sv3 e sv4 err where "prepareRestoreDeadSession (attach_Name msg) sv = (Inr state, sv0)"
        "restoreSession h state (attachSpec msg (attach_Name msg) sv0) (itf 0 sv0) = (Inr ls, sv1)"
        "insertSessionOrExisting (attach_Name msg) ls (itf 1 sv1) = ((ex, True), sv2)"
        "commitRestoreDeadSession (attach_Name msg) (itf 2 sv2) = (Inr u, sv3)"
        "attachTo h (attach_Name msg) (ls_id ls) (clientSpec msg clientRev False) (itf 3 sv3) = (Inl e, sv4)"
        "rollbackRestoreDeadSession (attach_Name msg) state e (closeSession ls (removeSession (attach_Name msg) sv4)) = (err, sv')"
        "reply = writeError (error_text err)" "at = None"
    | (attached) state sv0 ls sv1 ex sv2 u sv3 ac where "prepareRestoreDeadSession (attach_Name msg) sv = (Inr state, sv0)"
        "restoreSession h state (attachSpec msg (attach_Name msg) sv0) (itf 0 sv0) = (Inr ls, sv1)"
        "insertSessionOrExisting (attach_Name msg) ls (itf 1 sv1) = ((ex, True), sv2)"
        "commitRestoreDeadSession (attach_Name msg) (itf 2 sv2) = (Inr u, sv3)"
        "attachTo h (attach_Name msg) (ls_id ls) (clientSpec msg clientRev False) (itf 3 sv3) = (Inr ac, sv')" "at \<noteq> None"
  using assms unfolding handleAttachRestore_def Let_def insertSession_def
  by (auto split: prod.splits sum.splits bool.splits)

text \<open>The session restored is in the table, under its name and with its own process, when the saved state is removed.\<close>

lemma restore_inserted:
  assumes "prepareRestoreDeadSession name sv = (Inr state, sv0)"
    and "restoreSession h state (attachSpec msg name sv0) (itf 0 sv0) = (Inr ls, sv1)"
    and "insertSessionOrExisting name ls (itf 1 sv1) = ((ex, b), sv2)"
    and "table_ok sv" and "rely n itf" and "n \<le> sv_nextId sv"
  shows "\<not> b \<Longrightarrow> keeps sv (closeSession ls sv2)"
    and "b \<Longrightarrow> keeps sv sv2" and "b \<Longrightarrow> liveSession name sv2 = Some ls" and "n \<le> ls_id ls"
proof -
  have k0: "keeps sv sv0" using keeps_fs_only [OF assms(4) fs_only_handlers(5) [OF assms(1)]] .
  have k1: "keeps sv (itf 0 sv0)" using keeps_trans [OF k0 keeps_rely [OF assms(5) keepsD(1) [OF k0]]] .
  have st: "started name ls (itf 0 sv0) sv1" using restoreSession_result [OF assms(2)] by (simp add: attachSpec_def)
  note i = start_and_insert [OF keepsD(1) [OF k1] st assms(5,3)]
  show "\<not> b \<Longrightarrow> keeps sv (closeSession ls sv2)" using i(2) keeps_trans [OF k1] by auto
  show "b \<Longrightarrow> keeps sv sv2" "b \<Longrightarrow> liveSession name sv2 = Some ls" using i(1) keeps_trans [OF k1] by auto
  show "n \<le> ls_id ls" using st assms(6) keepsD(3) [OF k1] by (simp add: started_def)
qed

lemma restore_committed:
  assumes "commitRestoreDeadSession name (itf 2 sv2) = (r, sv3)"
    and "keeps sv sv2" and "liveSession name sv2 = Some ls" and "n \<le> ls_id ls" and "rely n itf"
  shows "keeps sv sv3" and "\<exists>l. liveSession name sv3 = Some l \<and> ls_id l = ls_id ls"
proof -
  note same = fs_only_same_table [OF fs_only_handlers(6) [OF assms(1)]]
  have k3: "keeps sv (itf 2 sv2)" using keeps_trans [OF assms(2) keeps_rely [OF assms(5) keepsD(1) [OF assms(2)]]] .
  show "keeps sv sv3" using keeps_trans [OF k3 keeps_same_table [OF keepsD(1) [OF k3] same]] .
  show "\<exists>l. liveSession name sv3 = Some l \<and> ls_id l = ls_id ls"
    using rely_live [OF assms(5) keepsD(1) [OF assms(2)] assms(3,4)] same_table_ok(3) [OF same] by auto
qed

lemma restore_attached:
  assumes "attachTo h name (ls_id ls) spec (itf 3 sv3) = (r, sv4)"
    and "keeps sv sv3" and "\<exists>l. liveSession name sv3 = Some l \<and> ls_id l = ls_id ls" and "n \<le> ls_id ls" and "rely n itf"
  shows "keeps sv sv4" and "\<exists>l. liveSession name sv4 = Some l \<and> ls_id l = ls_id ls"
proof -
  obtain l where l: "liveSession name sv3 = Some l" "ls_id l = ls_id ls" using assms(3) by blast
  have a: "attachTo h name (ls_id l) spec (itf 3 sv3) = (r, sv4)" using assms(1) l(2) by simp
  show "keeps sv sv4"
    using attach_or_remove(1) [OF keepsD(1) [OF assms(2)] l(1) _ assms(5) a] assms(4) l(2) keeps_trans [OF assms(2)] by simp
  show "\<exists>l. liveSession name sv4 = Some l \<and> ls_id l = ls_id ls"
    using rely_live [OF assms(5) keepsD(1) [OF assms(2)] l(1)] assms(4) l(2)
      attachTo_keeps(2) [OF assms(1) keepsD(1) [OF keeps_rely [OF assms(5) keepsD(1) [OF assms(2)]]]] by metis
qed

lemma restore_withdrawn:
  assumes "keeps sv sv1" and "\<exists>l. liveSession name sv1 = Some l \<and> ls_id l = ls_id ls"
  shows "keeps sv (closeSession ls (removeSession name sv1))"
  using assms keeps_trans [OF assms(1) remove_and_close [OF keepsD(1) [OF assms(1)]]] by auto

lemma handleAttachRestore_keeps:
  assumes "handleAttachRestore h itf msg clientRev sv = (out, sv')" and "table_ok sv" and "rely n itf" and "n \<le> sv_nextId sv"
  shows "keeps sv sv'"
proof -
  have run: "handleAttachRestore h itf msg clientRev sv = ((fst out, snd out), sv')" using assms(1) by simp
  note inserted = restore_inserted [OF _ _ _ assms(2-4)]
  from run show ?thesis
  proof (cases rule: handleAttachRestore_cases)
    case unsaved
    then show ?thesis using keeps_fs_only [OF assms(2) fs_only_handlers(5)] by blast
  next
    case (unstarted state sv0 e)
    have k0: "keeps sv sv0" using keeps_fs_only [OF assms(2) fs_only_handlers(5) [OF unstarted(1)]] .
    have k1: "keeps sv (itf 0 sv0)" using keeps_trans [OF k0 keeps_rely [OF assms(3) keepsD(1) [OF k0]]] .
    show ?thesis
      using restoreSession_result [OF unstarted(2)] keeps_trans [OF k1 keeps_same_table [OF keepsD(1) [OF k1]]] by simp
  next
    case taken
    then show ?thesis using inserted(1) [OF taken(1-3)] by simp
  next
    case c: uncommitted
    note i = inserted(2-4) [OF c(1-3)]
    show ?thesis
      using restore_withdrawn [OF restore_committed [OF c(4) i(1) [OF TrueI] i(2) [OF TrueI] i(3) assms(3)]] c(5) by simp
  next
    case c: (refused state sv0 ls sv1 ex sv2 u sv3 e sv4 err)
    note i = inserted(2-4) [OF c(1-3)]
    note m = restore_committed [OF c(4) i(1) [OF TrueI] i(2) [OF TrueI] i(3) assms(3)]
    have k: "keeps sv (closeSession ls (removeSession (attach_Name msg) sv4))"
      using restore_withdrawn [OF restore_attached [OF c(5) m i(3) assms(3)]] .
    show ?thesis using keeps_trans [OF k keeps_fs_only [OF keepsD(1) [OF k] fs_only_handlers(7) [OF c(6)]]] .
  next
    case c: attached
    note i = inserted(2-4) [OF c(1-3)]
    note m = restore_committed [OF c(4) i(1) [OF TrueI] i(2) [OF TrueI] i(3) assms(3)]
    show ?thesis using restore_attached(1) [OF c(5) m i(3) assms(3)] .
  qed
qed

lemma listEach_same:
  assumes "listEach h c xs = (rws, ys)"
  shows "map fst ys = map fst xs" "map (ls_id \<circ> snd) ys = map (ls_id \<circ> snd) xs"
    "map (se_Name \<circ> ls_sess \<circ> snd) ys = map (se_Name \<circ> ls_sess \<circ> snd) xs"
    "map row_Name rws = map (se_Name \<circ> ls_sess \<circ> snd) xs"
  using assms
proof (induction xs arbitrary: rws ys)
  case (Cons x xs)
  obtain name ls where x: "x = (name, ls)" by fastforce
  obtain rws' ys' where rest: "listEach h c xs = (rws', ys')" by fastforce
  obtain cs ls' where info: "onSess (clientInfo (ho_em h)) ls = (cs, ls')" by fastforce
  note o = onSess_same [OF info name_requests(5)]
  note ih = Cons.IH [OF rest]
  have row: "row_Name (liveRow h q ls) = se_Name (ls_sess ls)" for q by (simp add: liveRow_def Let_def split_beta)
  { case 1 then show ?case using ih(1) x rest info o by (auto split: if_splits) }
  { case 2 then show ?case using ih(2) x rest info o by (auto split: if_splits) }
  { case 3 then show ?case using ih(3) x rest info o by (auto split: if_splits) }
  { case 4 then show ?case using ih(4) x rest info o row by (auto split: if_splits) }
qed simp_all

lemma table_ok_sessions:
  assumes "table_ok sv" and "map fst ys = map fst (sv_sessions sv)"
    and "map (ls_id \<circ> snd) ys = map (ls_id \<circ> snd) (sv_sessions sv)"
    and "map (se_Name \<circ> ls_sess \<circ> snd) ys = map (se_Name \<circ> ls_sess \<circ> snd) (sv_sessions sv)"
  shows "keeps sv (sv\<lparr>sv_sessions := ys\<rparr>)"
proof -
  let ?sv = "sv\<lparr>sv_sessions := ys\<rparr>"
  have ids: "tableIds ?sv = tableIds sv" using arg_cong [OF assms(3), of set] by (simp add: tableIds_def)
  have named: "(\<forall>(n, l) \<in> set xs. se_Name (ls_sess l) = n) \<longleftrightarrow> map (se_Name \<circ> ls_sess \<circ> snd) xs = map fst xs"
    for xs :: "(string \<times> 'a tableEntry) list" by (induction xs) auto
  have "table_ok ?sv" using assms(1,2,3,4) ids unfolding table_ok_def named by simp
  with ids show ?thesis by (simp add: keeps_def orphans_def)
qed

lemma keeps_refl: "table_ok sv \<Longrightarrow> keeps sv sv"
  by (simp add: keeps_def)

lemma handlers_keep:
  assumes "table_ok sv"
  shows "handleKick h m1 sv = (r, sv') \<Longrightarrow> keeps sv sv'" "handleKill m2 sv = (r, sv') \<Longrightarrow> keeps sv sv'"
    "handleSend m3 sv = (r, sv') \<Longrightarrow> keeps sv sv'" "handleSendKey h m4 sv = (r, sv') \<Longrightarrow> keeps sv sv'"
    "handleDump h m5 sv = (r, sv') \<Longrightarrow> keeps sv sv'" "handlePrune sv = (r, sv') \<Longrightarrow> keeps sv sv'"
    "handleList h m6 sv = (r, sv') \<Longrightarrow> keeps sv sv'" "handleStatus h m7 sv = (r, sv') \<Longrightarrow> keeps sv sv'"
proof -
  note put = keeps_put [OF assms]
  note refl = keeps_refl [OF assms]
  show "keeps sv sv'" if "handleKick h m1 sv = (r, sv')"
    using that refl onSess_same(1,2) [OF _ name_requests(3)]
    by (auto simp: handleKick_def split: if_splits option.splits prod.splits intro!: put)
  show "keeps sv sv'" if "handleKill m2 sv = (r, sv')"
    using that refl by (auto simp: handleKill_def killSession_def split: option.splits intro!: put)
  show "keeps sv sv'" if "handleSend m3 sv = (r, sv')"
    using that refl by (auto simp: handleSend_def sendInput_def split: option.splits intro!: put)
  show "keeps sv sv'" if "handleSendKey h m4 sv = (r, sv')"
    using that refl by (auto simp: handleSendKey_def sendInput_def split: option.splits sum.splits if_splits intro!: put)
  show "keeps sv sv'" if "handleDump h m5 sv = (r, sv')"
    using that refl keeps_fs_only [OF assms fs_only_handlers(3)]
    by (auto simp: handleDump_def split: option.splits sum.splits prod.splits)
  show "keeps sv sv'" if "handlePrune sv = (r, sv')"
    using that keeps_fs_only [OF assms fs_only_handlers(2)]
    by (auto simp: handlePrune_def split: sum.splits prod.splits)
  show "keeps sv sv'" if run: "handleList h m6 sv = (r, sv')"
  proof -
    obtain rws ys where l: "listEach h (list_IncludeClients m6) (sv_sessions sv) = (rws, ys)" by fastforce
    have k: "keeps sv (sv\<lparr>sv_sessions := ys\<rparr>)" using table_ok_sessions [OF assms listEach_same(1-3) [OF l]] .
    obtain q sv1 where d: "deadSessionRows (sv\<lparr>sv_sessions := ys\<rparr>) = (q, sv1)" by fastforce
    have "sv' = sv1" using run l d by (auto simp: handleList_def split: sum.splits)
    with keeps_trans [OF k keeps_fs_only [OF keepsD(1) [OF k] fs_only_handlers(1) [OF d]]] show ?thesis by simp
  qed
  show "keeps sv sv'" if run: "handleStatus h m7 sv = (r, sv')"
  proof -
    obtain x sv1 where s: "statusSnapshot h (status_Name m7) sv = (x, sv1)" by fastforce
    have k: "keeps sv sv1"
      using s refl onSess_same(1,2) [OF _ name_requests(5)]
      by (auto simp: statusSnapshot_def Let_def split: option.splits if_splits prod.splits intro!: put)
    obtain q sv2 where d: "deadSessionNames sv1 = (q, sv2)" by fastforce
    have "sv' = sv2" using run s d by (auto simp: handleStatus_def split: sum.splits prod.splits)
    with keeps_trans [OF k keeps_fs_only [OF keepsD(1) [OF k] fs_only_dead(1) [OF d]]] show ?thesis by simp
  qed
qed

lemma onAttached_keeps:
  assumes "table_ok sv" and "\<And>ls. ls_id (f ls) = ls_id ls" and "\<And>ls. se_Name (ls_sess (f ls)) = se_Name (ls_sess ls)"
  shows "keeps sv (onAttached f at sv)"
  using keeps_put [OF assms(1)] keeps_refl [OF assms(1)] assms(2,3)
  by (auto simp: onAttached_def sessionAt_def split: option.splits if_splits)

lemma sendInput_snd [simp]: "ls_id (snd (sendInput d ls)) = ls_id ls" "ls_sess (snd (sendInput d ls)) = ls_sess ls"
  by (simp_all add: sendInput_def split: option.split)

lemma streamStep_keeps:
  assumes "table_ok sv" and "streamStep h at msg sv = (b, sv')"
  shows "keeps sv sv'"
  using assms(2) keeps_refl [OF assms(1)]
  by (auto simp: streamStep_def detachConn_def split: message.splits if_splits intro!: onAttached_keeps [OF assms(1)])

lemma connStep_keeps:
  assumes "connStep h itf msg cn sv = (out, sv')" and "table_ok sv" and "rely n itf" and "n \<le> sv_nextId sv"
  shows "keeps sv sv'"
proof (cases "cn_attached cn")
  case (Some at)
  with assms(1) show ?thesis using streamStep_keeps [OF assms(2)] by (auto simp: connStep_def split: prod.splits)
next
  case None
  obtain q sv1 where c: "controlStep h itf (cn_rev cn) msg sv = (q, sv1)" by fastforce
  with None assms(1) have "sv' = sv1" by (auto simp: connStep_def split: prod.splits)
  moreover have "keeps sv sv1"
    using c handlers_keep [OF assms(2)] handleCreate_keeps [OF _ assms(2,3)] keeps_refl [OF assms(2)]
      handleAttachNew_keeps [OF _ assms(2-4)] handleAttachRestore_keeps [OF _ assms(2-4)]
    by (cases msg) (auto simp: controlStep_def handleAttach_def split: prod.splits if_splits)
  ultimately show ?thesis by simp
qed

end
