(* ===== verification/Server_Props.thy ===== *)
theory Server_Props
  imports Server_Inv
begin

text \<open>
  What clients of the daemon can rely on: the table and the processes stay consistent, saved
  sessions are not lost, a read-only client cannot type, listings are exact.
\<close>

section \<open>What leaves the file system alone\<close>

lemma launch_fs:
  "launchAndStart h spec term sv = (r, sv') \<Longrightarrow> sv_fs sv' = sv_fs sv \<and> sv_persist sv' = sv_persist sv"
  by (auto simp: launchAndStart_def split: prod.splits sum.splits)

lemma start_fs:
  "newSession h spec sv = (r, sv') \<Longrightarrow> sv_fs sv' = sv_fs sv \<and> sv_persist sv' = sv_persist sv"
  "restoreSession h st spec sv = (r, sv') \<Longrightarrow> sv_fs sv' = sv_fs sv \<and> sv_persist sv' = sv_persist sv"
  by (auto simp: newSession_def restoreSession_def split: sum.splits dest: launch_fs)

lemma table_fs [simp]:
  "sv_fs (removeSession name sv) = sv_fs sv" "sv_fs (putSession name ls sv) = sv_fs sv"
  "sv_persist (removeSession name sv) = sv_persist sv" "sv_persist (putSession name ls sv) = sv_persist sv"
  by (simp_all add: removeSession_def putSession_def)

lemma insert_fs: "insertSessionOrExisting name ls sv = (q, sv') \<Longrightarrow> sv_fs sv' = sv_fs sv \<and> sv_persist sv' = sv_persist sv"
  by (auto simp: insertSessionOrExisting_def split: option.splits)

lemma attachTo_fs: "attachTo h name i spec sv = (r, sv') \<Longrightarrow> sv_fs sv' = sv_fs sv \<and> sv_persist sv' = sv_persist sv"
  by (auto simp: attachTo_def split: option.splits prod.splits)

text \<open>Interference that leaves the saved sessions alone.\<close>

definition keeps_saved :: "'t interference \<Rightarrow> bool" where
  "keeps_saved itf \<longleftrightarrow> (\<forall>k s. stored (sv_fs (itf k s)) = stored (sv_fs s) \<and> sv_persist (itf k s) = sv_persist s)"

lemma keeps_savedD: "keeps_saved itf \<Longrightarrow> stored (sv_fs (itf k s)) = stored (sv_fs s)"
  "keeps_saved itf \<Longrightarrow> sv_persist (itf k s) = sv_persist s"
  by (simp_all add: keeps_saved_def)

lemma prepareRestore_result:
  assumes "prepareRestoreDeadSession name sv = (r, sv')"
  shows "stored (sv_fs sv') = stored (sv_fs sv)" and "sv_persist sv' = sv_persist sv"
    and "r = Inr state \<Longrightarrow> sv_persist sv \<and> savedState sv name = Some (Inr state)"
proof -
  obtain q sv1 where rd: "readDeadSession name sv = (q, sv1)" by fastforce
  note res = readDeadSession_result [OF rd]
  show "stored (sv_fs sv') = stored (sv_fs sv)" "sv_persist sv' = sv_persist sv"
    "r = Inr state \<Longrightarrow> sv_persist sv \<and> savedState sv name = Some (Inr state)"
    using assms rd res fs_onlyD(2) [OF res(1)]
    by (auto simp: prepareRestoreDeadSession_def split: if_splits sum.splits option.splits)
qed

lemma savedState_cong: "stored (sv_fs a) m = stored (sv_fs b) m \<Longrightarrow> savedState a m = savedState b m"
  by (simp add: savedState_eq)

section \<open>Properties\<close>

text \<open>Up to the removal of the saved state, a restore leaves every saved session as it was.\<close>

lemma restore_stored:
  assumes "prepareRestoreDeadSession name sv = (Inr state, sv0)"
    and "restoreSession h state (attachSpec msg name sv0) (itf 0 sv0) = (r1, sv1)" and "keeps_saved itf"
  shows "sv_persist sv" and "savedState sv name = Some (Inr state)"
    and "stored (sv_fs sv1) = stored (sv_fs sv)" and "sv_persist sv1"
    and "insertSessionOrExisting name ls (itf 1 sv1) = (q, sv2) \<Longrightarrow>
      stored (sv_fs sv2) = stored (sv_fs sv) \<and> sv_persist sv2"
proof -
  note p = prepareRestore_result [OF assms(1)]
  show persist: "sv_persist sv" and "savedState sv name = Some (Inr state)" using p(3) by auto
  show f1: "stored (sv_fs sv1) = stored (sv_fs sv)" "sv_persist sv1"
    using start_fs(2) [OF assms(2)] keeps_savedD [OF assms(3)] p persist by auto
  show "insertSessionOrExisting name ls (itf 1 sv1) = (q, sv2) \<Longrightarrow>
      stored (sv_fs sv2) = stored (sv_fs sv) \<and> sv_persist sv2"
    using insert_fs [of name ls "itf 1 sv1"] keeps_savedD [OF assms(3)] f1 by (cases q) auto
qed

text \<open>The removal of the saved state takes that state alone, and only when it succeeds.\<close>

lemma commit_stored:
  assumes "commitRestoreDeadSession name (itf 2 sv2) = (r, sv3)" and "plain_name name" and "keeps_saved itf"
    and "stored (sv_fs sv2) = stored (sv_fs sv) \<and> sv_persist sv2" and "plain_name m"
  shows "stored (sv_fs sv3) m = (if is_ok r \<and> m = name then None else stored (sv_fs sv) m)" and "sv_persist sv3"
proof -
  obtain q sv4 where a: "removeDeadSession name (itf 2 sv2) = (q, sv4)" by fastforce
  note rm = removeDeadSession_result [OF a assms(2)]
  have out: "sv3 = sv4 \<and> is_ok r = is_ok q"
    using assms(1) a by (cases q) (auto simp: commitRestoreDeadSession_def)
  show "stored (sv_fs sv3) m = (if is_ok r \<and> m = name then None else stored (sv_fs sv) m)"
    using rm(2) [OF assms(5)] keeps_savedD [OF assms(3)] assms(4) out by simp
  show "sv_persist sv3" using fs_onlyD(2) [OF rm(1)] keeps_savedD(2) [OF assms(3)] assms(4) out by simp
qed

text \<open>Rolling back writes the state back, or says that it could not.\<close>

lemma rollback_stored:
  assumes "rollbackRestoreDeadSession name state e sv5 = (err, sv6)" and "plain_name name" and "sv_persist sv5"
    and "savedState sv name = Some (Inr state)" and "plain_name m"
    and "stored (sv_fs sv5) m = (if m = name then None else stored (sv_fs sv) m)"
  shows "savedState sv6 m = savedState sv m
    \<or> m = name \<and> (\<exists>e'. error_text err = error_text e @ ''; restore dead session state: '' @ e')"
proof -
  obtain w sv7 where a: "writeDeadSession name state sv5 = (w, sv7)" by fastforce
  note wr = writeDeadSession_result(2,3) [OF a assms(2,3)]
  have "savedState sv7 m = savedState sv m \<or> m = name \<and> \<not> is_ok w"
    using wr(1) [OF assms(5)] wr(2) assms(4,6) by (auto simp: savedState_eq unpackNode_def split: if_splits)
  with assms(1) a show ?thesis by (cases w) (auto simp: rollbackRestoreDeadSession_def)
qed

text \<open>
  C33. Restoring never loses a saved session. When the restore succeeds, the saved state of the
  restored name is gone and no other has changed. When it fails at any point (another client took
  the name, the process does not start, the state cannot be removed, the attach is refused), every
  saved session still decodes to what it did before, unless writing the state back failed, and
  then the reply says so.
\<close>

theorem restore_never_loses_state:
  assumes run: "handleAttachRestore h itf msg clientRev sv = ((reply, at), sv')"
    and keep: "keeps_saved itf" and name: "plain_name (attach_Name msg)" and m: "plain_name m"
  shows "(at \<noteq> None \<longrightarrow> savedState sv' m = (if m = attach_Name msg then None else savedState sv m))
    \<and> (at = None \<longrightarrow> savedState sv' m = savedState sv m
         \<or> m = attach_Name msg \<and> (\<exists>e e'. reply = writeError (e @ ''; restore dead session state: '' @ e')))"
  using run
proof (cases rule: handleAttachRestore_cases)
  case unsaved
  with prepareRestore_result(1) [OF unsaved(1)] show ?thesis by (auto intro: savedState_cong)
next
  case unstarted
  with restore_stored(3) [OF unstarted(1,2) keep] show ?thesis by (auto intro: savedState_cong)
next
  case taken
  with restore_stored(5) [OF taken(1,2) keep] show ?thesis by (auto intro: savedState_cong)
next
  case c: uncommitted
  note commit_stored [OF c(4) name keep restore_stored(5) [OF c(1,2) keep c(3)] m]
  with c(5,6) show ?thesis by (auto simp: savedState_eq)
next
  case c: (refused state sv0 ls sv1 ex sv2 u sv3 e sv4 err)
  note f3 = commit_stored [OF c(4) name keep restore_stored(5) [OF c(1,2) keep c(3)] m]
  note f4 = attachTo_fs [OF c(5)] keeps_savedD [OF keep] f3
  let ?sv5 = "closeSession ls (removeSession (attach_Name msg) sv4)"
  have "sv_persist ?sv5" and "stored (sv_fs ?sv5) m = (if m = attach_Name msg then None else stored (sv_fs sv) m)"
    using f4 by simp_all
  from rollback_stored [OF c(6) name this(1) restore_stored(2) [OF c(1,2) keep] m this(2)] c(7,8)
  show ?thesis by metis
next
  case c: attached
  note f3 = commit_stored [OF c(4) name keep restore_stored(5) [OF c(1,2) keep c(3)] m]
  with attachTo_fs [OF c(5)] keeps_savedD [OF keep] c(6) show ?thesis by (auto simp: savedState_eq)
qed

definition demo_attachMsg :: "string \<Rightarrow> bool \<Rightarrow> bool \<Rightarrow> attachMsg" where
  "demo_attachMsg name ro restore = \<lparr>attach_Name = name, attach_Command = [''/bin/sh''], attach_Env = [], attach_CWD = ''/'',
     attach_Cols = 80, attach_Rows = 24, attach_Xpixel = 0, attach_Ypixel = 0, attach_ReadOnly = ro,
     attach_Restore = restore, attach_Scrollback = 0\<rparr>"

definition no_interference :: "'t interference" where
  "no_interference k s = s"

lemma no_interference_ok: "keeps_saved no_interference" "rely n no_interference"
  by (simp_all add: keeps_saved_def rely_def no_interference_def)

definition saved_server :: "(byte list) server" where
  "saved_server = demo_server\<lparr>sv_fs := snd (writeState ''work'' \<lparr>st_Cols = 80, st_Rows = 24, st_SavedAt = 5, st_Snapshot = [1, 2]\<rparr>
     (sv_fs demo_server))\<rparr>"

text \<open>The size check of a state file compares binary numbers when it is evaluated.\<close>

lemma max_state_compare [code_unfold]: "maxStateSnapshotBytes < n \<longleftrightarrow> (134217728 :: int) < int n"
  by (simp add: maxStateSnapshotBytes_def)

theorem restore_never_loses_state_witness:
  "let run = handleAttachRestore demo_host no_interference (demo_attachMsg ''work'' False True) ''v1'' saved_server
   in snd (fst run) \<noteq> None \<and> savedState (snd run) ''work'' = None"
proof -
  let ?run = "handleAttachRestore demo_host no_interference (demo_attachMsg ''work'' False True) ''v1'' saved_server"
  have "snd (fst ?run) \<noteq> None" by code_simp
  moreover have "?run = ((fst (fst ?run), snd (fst ?run)), snd ?run)" by simp
  note restore_never_loses_state [OF this no_interference_ok(1), of "''work''"]
  ultimately show ?thesis by (simp add: demo_attachMsg_def plain_name_def Let_def)
qed

text \<open>
  C34. No process is lost and no session is duplicated. Whatever request a connection sends, in
  control or streaming mode, and whatever other connections do while the handler waits, the table
  keeps one entry per name and per session, each entry is a started session with that name, and
  the request leaves no session running outside the table: one that loses the race for its name,
  or whose client cannot be attached, is closed again.
\<close>

theorem request_keeps_sessions:
  assumes "connStep h itf msg cn sv = (out, sv')" and "table_ok sv" and "rely (sv_nextId sv) itf"
  shows "table_ok sv' \<and> orphans sv' = orphans sv"
  using connStep_keeps [OF assms order_refl] by (simp add: keeps_def)

text \<open>Another client that creates the same session while this handler starts its process.\<close>

definition racing :: "(byte list) interference" where
  "racing k s = (if k = 3 \<and> liveSession ''work'' s = None
     then snd (handleCreate demo_host no_interference \<lparr>create_Name = ''work'', create_Command = [''/bin/sh''], create_Env = [],
            create_CWD = ''/'', create_Scrollback = 0, create_Force = True\<rparr> s) else s)"

lemma handleCreate_grows:
  assumes "handleCreate h no_interference msg sv = (r, sv')"
  shows "\<exists>new. sv_sessions sv' = sv_sessions sv @ new"
proof -
  obtain r0 sv0 where a0: "reserveSessionName h (create_Name msg) sv = (r0, sv0)" by fastforce
  note s0 = fs_only_same_table [OF fs_only_reserve [OF a0], unfolded same_table_def]
  obtain r2 sv2 where a2: "prepareCreateDeadSession (projr r0) (create_Force msg) sv0 = (r2, sv2)" by fastforce
  note s2 = fs_only_same_table [OF fs_only_handlers(4) [OF a2], unfolded same_table_def]
  obtain r3 sv3 where a3: "newSession h (createSpec msg (projr r0) sv2) sv2 = (r3, sv3)" by fastforce
  have s3: "sv_sessions sv3 = sv_sessions sv2"
    using newSession_result [OF a3] by (auto simp: same_table_def started_def split: sum.splits)
  have s5: "\<exists>new. sv_sessions sv4 = sv_sessions sv3 @ new" if "addSession n ls sv3 = (b, sv4)" for n ls b sv4
    using that by (auto simp: addSession_def insertSessionOrExisting_def split: option.splits)
  show ?thesis
    using assms a0 a2 a3 s0 s2 s3 s5
    by (auto simp: handleCreate_def no_interference_def Let_def split: sum.splits if_splits prod.splits bool.splits)
qed

lemma racing_rely: "rely n racing"
proof -
  have "table_ok s \<longrightarrow> table_ok (racing k s) \<and> orphans (racing k s) = orphans s \<and> sv_nextId s \<le> sv_nextId (racing k s)" for k s
    using handleCreate_keeps [OF prod.collapse [symmetric] _ no_interference_ok(2)] keeps_refl
    by (auto simp: racing_def keeps_def)
  moreover have "liveSession name (racing k s) = Some ls" if "liveSession name s = Some ls" for name k s ls
  proof -
    have "\<exists>new. sv_sessions (racing k s) = sv_sessions s @ new"
      using handleCreate_grows [OF prod.collapse [symmetric]] unfolding racing_def by (cases "k = 3 \<and> liveSession ''work'' s = None") auto
    with that show ?thesis by (auto simp: liveSession_def)
  qed
  ultimately show ?thesis by (auto simp: rely_def)
qed

theorem request_keeps_sessions_witness:
  "let run = connStep demo_host racing (MAttach (demo_attachMsg ''work'' False False))
       \<lparr>cn_rev = ''v1'', cn_attached = None, cn_closed = False\<rparr> (demo_server\<lparr>sv_persist := False\<rparr>)
   in sv_nextId (snd run) = 2 \<and> length (sv_sessions (snd run)) = 1 \<and> orphans (snd run) = {}"
proof -
  let ?cn = "\<lparr>cn_rev = ''v1'', cn_attached = None, cn_closed = False\<rparr>"
  let ?sv = "demo_server\<lparr>sv_persist := False\<rparr>"
  let ?run = "connStep demo_host racing (MAttach (demo_attachMsg ''work'' False False)) ?cn ?sv"
  have "table_ok ?sv" and "orphans ?sv = {}" by (simp_all add: table_ok_def tableIds_def orphans_def demo_server_def)
  with request_keeps_sessions [of demo_host racing "MAttach (demo_attachMsg ''work'' False False)" ?cn ?sv, OF prod.collapse [symmetric] _ racing_rely]
  have "orphans (snd ?run) = {}" by simp
  moreover have "sv_nextId (snd ?run) = 2" by code_simp
  moreover have "length (sv_sessions (snd ?run)) = 1" by code_simp
  ultimately show ?thesis by (simp add: Let_def)
qed

lemma listDeadSessions_stored:
  assumes "listDeadSessions running w = (r, w')"
  shows "stored w' = stored w"
proof -
  obtain f w1 where nf: "nextFault w = (f, w1)" by fastforce
  have "fs_env w' = fs_env w \<and> fs_nodes w' = fs_nodes w"
    using assms nextFault_frame [OF nf]
    by (auto simp: listDeadSessions_def osReadDir_def nf Let_def split: option.splits if_splits prod.splits)
  then show ?thesis by (simp add: stored_def)
qed

lemma reserve_stored:
  assumes "reserveSessionName h name sv = (r, sv')"
  shows "stored (sv_fs sv') = stored (sv_fs sv) \<and> sv_persist sv' = sv_persist sv"
    and "name \<noteq> [] \<Longrightarrow> r = Inr name"
  using assms listDeadSessions_stored [of "liveSessionNames sv" "sv_fs sv"]
  by (auto simp: reserveSessionName_def withFs_def Let_def split: if_splits sum.splits prod.splits)

lemma prepareCreate_result:
  assumes "prepareCreateDeadSession name force sv = (r, sv')" and "plain_name m"
  shows "sv_persist sv' = sv_persist sv"
    and "\<not> force \<Longrightarrow> stored (sv_fs sv') m = stored (sv_fs sv) m
           \<and> (is_ok r \<and> m = name \<and> sv_persist sv \<longrightarrow> stored (sv_fs sv) m = None)"
    and "force \<Longrightarrow> plain_name name \<Longrightarrow> m \<noteq> name \<Longrightarrow> stored (sv_fs sv') m = stored (sv_fs sv) m"
proof -
  obtain q sv1 where rd: "readDeadSession name sv = (q, sv1)" by fastforce
  note res = readDeadSession_result [OF rd]
  obtain q2 sv2 where rm: "removeDeadSession name sv1 = (q2, sv2)" by fastforce
  show "sv_persist sv' = sv_persist sv"
    using fs_onlyD(2) [OF fs_only_handlers(4) [OF assms(1)]] .
  show "stored (sv_fs sv') m = stored (sv_fs sv) m \<and> (is_ok r \<and> m = name \<and> sv_persist sv \<longrightarrow> stored (sv_fs sv) m = None)"
    if "\<not> force"
    using assms(1) rd res(2,4) that
    by (auto simp: prepareCreateDeadSession_def savedState_eq split: sum.splits option.splits)
  show "stored (sv_fs sv') m = stored (sv_fs sv) m" if "force" "plain_name name" "m \<noteq> name"
    using assms(1) rd rm res(2) removeDeadSession_result(2) [OF rm that(2) assms(2)] that
    by (auto simp: prepareCreateDeadSession_def split: sum.splits)
qed



text \<open>The bytes written to the PTY of each live session.\<close>

definition inputs :: "'t server \<Rightarrow> string \<Rightarrow> byte list option" where
  "inputs sv name = map_option ls_input (liveSession name sv)"

lemma inputs_put:
  assumes "liveSession name sv = Some ls" and "ls_input ls' = ls_input ls"
  shows "inputs (putSession name ls' sv) = inputs sv"
  using assms by (auto simp: fun_eq_iff inputs_def liveSession_def putSession_def AList.update_conv')

lemma inputs_detach: "inputs (detachConn h at sv) = inputs sv"
  by (auto simp: detachConn_def onAttached_def sessionAt_def intro!: inputs_put split: option.splits)

text \<open>
  C36. A read-only client cannot type: once attached read-only, nothing a connection sends, for as
  long as it lives, adds a byte to the input of any session.
\<close>

theorem read_only_cannot_type:
  assumes "cn_attached cn = Some at" and "at_readOnly at" and "\<forall>k j s. inputs (itfs k j s) = inputs s"
  shows "inputs (snd (runConn h itfs msgs cn sv)) = inputs sv"
  using assms(1)
proof (induction msgs arbitrary: cn sv)
  case Nil
  then show ?case by (simp add: inputs_detach)
next
  case (Cons msg msgs)
  let ?sv = "itfs (length msgs) 5 sv"
  obtain b sv1 where st: "streamStep h at msg ?sv = (b, sv1)" by fastforce
  have "inputs sv1 = inputs sv"
    using st assms(2,3) by (auto simp: streamStep_def inputs_detach split: message.splits)
  moreover have "snd (runConn h itfs (msg # msgs) cn sv)
      = (if b then snd (runConn h itfs msgs (cn\<lparr>cn_closed := False\<rparr>) sv1) else sv1)"
    using Cons.prems st by (simp add: connStep_def split_beta)
  moreover have "inputs (snd (runConn h itfs msgs (cn\<lparr>cn_closed := False\<rparr>) sv1)) = inputs sv1"
    using Cons.IH Cons.prems by simp
  ultimately show ?case by simp
qed

theorem read_only_cannot_type_witness:
  "let sv = snd (handleAttach demo_host no_interference (demo_attachMsg ''work'' True False) ''v1'' (demo_server\<lparr>sv_persist := False\<rparr>))
   in inputs (snd (runConn demo_host (\<lambda>_. no_interference) [MInput \<lparr>input_Data = [3]\<rparr>]
        \<lparr>cn_rev = ''v1'', cn_attached = Some \<lparr>at_name = ''work'', at_id = 0, at_client = 0, at_readOnly = True\<rparr>, cn_closed = False\<rparr> sv)) ''work''
      = Some []"
proof -
  let ?sv = "snd (handleAttach demo_host no_interference (demo_attachMsg ''work'' True False) ''v1'' (demo_server\<lparr>sv_persist := False\<rparr>))"
  have "inputs ?sv ''work'' = Some []" by code_simp
  with read_only_cannot_type [of "\<lparr>cn_rev = ''v1'', cn_attached = Some \<lparr>at_name = ''work'', at_id = 0, at_client = 0, at_readOnly = True\<rparr>, cn_closed = False\<rparr>"
      _ "\<lambda>_. no_interference" demo_host "[MInput \<lparr>input_Data = [3]\<rparr>]" ?sv]
  show ?thesis by (simp add: no_interference_def Let_def)
qed

lemma deadRows_names:
  assumes "deadRows names sv = (Inr rws, sv')" and "sv_persist sv" and "\<forall>n \<in> set names. stored (sv_fs sv) n \<noteq> None"
  shows "map row_Name rws = names \<and> (\<forall>r \<in> set rws. row_State r = SessionStateDead)"
  using assms
proof (induction names arbitrary: sv rws)
  case (Cons n names)
  obtain q sv1 where rd: "readDeadSession n sv = (q, sv1)" by fastforce
  note res = readDeadSession_result [OF rd]
  have "q \<noteq> Inr None" using res(4) Cons.prems(2,3) by (auto simp: savedState_eq)
  then obtain st where q: "q = Inr (Some st)" using Cons.prems(1) rd by (cases q) (auto split: option.splits)
  obtain rws' where rest: "deadRows names sv1 = (Inr rws', sv')" and rws: "rws = deadRow n st # rws'"
    using Cons.prems(1) rd q by (auto split: sum.splits prod.splits)
  have "sv_persist sv1" using fs_onlyD(2) [OF res(1)] Cons.prems(2) by simp
  with Cons.IH [OF rest] res(2) Cons.prems(3) show ?case by (simp add: rws deadRow_def)
qed simp


definition list_server :: "(byte list) server" where
  "list_server = snd (handleCreate demo_host no_interference \<lparr>create_Name = ''shell'', create_Command = [''/bin/sh''], create_Env = [],
     create_CWD = ''/'', create_Scrollback = 0, create_Force = False\<rparr>
     (demo_server\<lparr>sv_fs := snd (writeState ''work'' demo_state (demo_disk\<lparr>fs_nodes := [(''/s/hauntty/sessions'', Dir)]\<rparr>))\<rparr>))"


section \<open>Status\<close>

lemma countSessions_length:
  "countSessions P sv = of_nat (length (filter (\<lambda>(n, ls). P (ls_sess ls)) (sv_sessions sv)))"
proof -
  have "foldl (\<lambda>n (name, ls). if P (ls_sess ls) then n + 1 else n) k xs
      = k + of_nat (length (filter (\<lambda>(n, ls). P (ls_sess ls)) xs))" for k :: u32 and xs :: "(string \<times> 'a tableEntry) list"
    by (induction xs arbitrary: k) auto
  then show ?thesis by (simp add: countSessions_def)
qed

lemma statusSnapshot_counts:
  "statusSnapshot h name sv = ((running, dead, ss), sv')
     \<Longrightarrow> running = countSessions isRunning sv \<and> dead = countSessions (\<lambda>s. \<not> isRunning s) sv"
  by (auto simp: statusSnapshot_def Let_def split: option.splits prod.splits if_splits)

text \<open>
  C38. The numbers of a status reply are within their 32 bits and do not wrap: the uptime saturates at
  zero and at the largest value, and with fewer than $2^{32}$ sessions the two counts are the
  numbers of running sessions and of ended or saved ones.
\<close>

theorem status_in_range:
  assumes run: "handleStatus h msg sv = (Some (MStatusResponse s), sv')"
    and names: "deadSessionNames (snd (statusSnapshot h (status_Name msg) sv)) = (Inr dead, sv2)"
    and small: "length (sv_sessions sv) + length dead < 2 ^ 32"
  shows "uint (ds_Uptime (statusResponse_Daemon s)) = min (max (ho_uptime h) 0) (2 ^ 32 - 1)
    \<and> unat (ds_RunningCount (statusResponse_Daemon s)) = length (filter (\<lambda>(n, ls). isRunning (ls_sess ls)) (sv_sessions sv))
    \<and> unat (ds_DeadCount (statusResponse_Daemon s))
        = length (filter (\<lambda>(n, ls). \<not> isRunning (ls_sess ls)) (sv_sessions sv)) + length dead"
proof -
  obtain running ended ss sv1 where snap: "statusSnapshot h (status_Name msg) sv = ((running, ended, ss), sv1)"
    by (metis prod.collapse)
  note counts = statusSnapshot_counts [OF snap]
  have s: "ds_Uptime (statusResponse_Daemon s) = of_int (min (max (ho_uptime h) 0) 0xFFFFFFFF)"
      "ds_RunningCount (statusResponse_Daemon s) = countSessions isRunning sv"
      "ds_DeadCount (statusResponse_Daemon s) = countSessions (\<lambda>s. \<not> isRunning s) sv + of_nat (length dead)"
    using run names snap counts by (auto simp: handleStatus_def)
  have le: "length (filter P (sv_sessions sv)) \<le> length (sv_sessions sv)" for P by simp
  have "uint (of_int (min (max (ho_uptime h) 0) 0xFFFFFFFF) :: u32) = min (max (ho_uptime h) 0) 0xFFFFFFFF"
    by (simp add: uint_word_of_int)
  moreover have "length (filter P (sv_sessions sv)) + length dead < 2 ^ LENGTH(32)" for P using small le [of P] by (simp del: length_filter_le)
  moreover have "length (filter P (sv_sessions sv)) < 2 ^ LENGTH(32)" for P using small le [of P] by (simp del: length_filter_le)
  ultimately show ?thesis unfolding s countSessions_length
    by (simp add: unat_of_nat_small flip: of_nat_add)
qed

theorem status_in_range_witness:
  "\<exists>s. fst (handleStatus (demo_host\<lparr>ho_uptime := 5000000000\<rparr>) \<lparr>status_Name = ''shell''\<rparr> list_server) = Some (MStatusResponse s)
     \<and> uint (ds_Uptime (statusResponse_Daemon s)) = 4294967295 \<and> unat (ds_RunningCount (statusResponse_Daemon s)) = 1"
proof -
  let ?h = "demo_host\<lparr>ho_uptime := 5000000000\<rparr>" and ?msg = "\<lparr>status_Name = ''shell''\<rparr>"
  let ?run = "handleStatus ?h ?msg list_server"
  have "case fst ?run of Some (MStatusResponse s) \<Rightarrow> True | _ \<Rightarrow> False" by code_simp
  then obtain s where s: "fst ?run = Some (MStatusResponse s)" by (auto split: option.splits message.splits)
  have dead: "fst (deadSessionNames (snd (statusSnapshot ?h ''shell'' list_server))) = Inr [''work'']" by code_simp
  have len: "length (sv_sessions list_server) = 1" by code_simp
  have running: "length (filter (\<lambda>(n, ls). isRunning (ls_sess ls)) (sv_sessions list_server)) = 1" by code_simp
  have "?run = (Some (MStatusResponse s), snd ?run)" using s by (metis prod.collapse)
  moreover have "deadSessionNames (snd (statusSnapshot ?h (status_Name ?msg) list_server))
      = (Inr [''work''], snd (deadSessionNames (snd (statusSnapshot ?h ''shell'' list_server))))"
    using dead by (metis prod.collapse statusMsg.select_convs(1))
  ultimately have "uint (ds_Uptime (statusResponse_Daemon s)) = min (max (ho_uptime ?h) 0) (2 ^ 32 - 1)
      \<and> unat (ds_RunningCount (statusResponse_Daemon s)) = 1"
    using status_in_range [of ?h ?msg list_server s] len running by simp
  with s show ?thesis by auto
qed

text \<open>
  A session that ends by itself is forgotten but not cleaned up: its watcher saves it and takes it
  out of the table without \<open>Session.close\<close>, so its PTY and terminal stay open (it becomes an
  orphan) and its temporary directory stays, while closing it would have removed both.
\<close>

theorem ended_session_not_closed:
  assumes "table_ok sv" and "liveSession name sv = Some ls" and "\<not> sv_autoExit sv" and "ls_tempDir ls \<noteq> []"
  shows "orphans (sessionEnded h ls sv) = insert (ls_id ls) (orphans sv)
    \<and> tmp_dirs (sv_tmp (sessionEnded h ls sv)) = tmp_dirs (sv_tmp sv)
    \<and> liveSession name (sessionEnded h ls sv) = None
    \<and> ls_id ls \<notin> orphans (closeSession ls (removeSession name sv))
    \<and> ls_tempDir ls \<notin> set (tmp_dirs (sv_tmp (closeSession ls (removeSession name sv))))"
proof -
  have named: "se_Name (ls_sess ls) = name"
    using assms(1,2) map_of_SomeD by (fastforce simp: table_ok_def liveSession_def)
  let ?sv = "if sv_persist sv \<and> \<not> sv_ctxDone sv then snd (withFs (persistOne h sv name ls) sv) else sv"
  have fs: "fs_only sv ?sv" using withFs_fs_only [of "persistOne h sv name ls" sv] by (auto simp: prod_eq_iff)
  note same = same_table_ok [OF fs_only_same_table [OF fs]]
  have tmp: "sv_tmp ?sv = sv_tmp sv" "sv_autoExit ?sv = sv_autoExit sv" using fs by (auto simp: fs_only_def)
  have end_eq: "sessionEnded h ls sv = removeSession name ?sv"
    using assms(3) tmp(2) named by (simp add: sessionEnded_def Let_def removeSession_def)
  have "table_ok ?sv" "liveSession name ?sv = Some ls" using same assms(1,2) by simp_all
  note r = remove_ok [OF this]
  have k: "keeps sv (closeSession ls (removeSession name sv))" using remove_and_close [OF assms(1,2)] by simp
  have "ls_id ls \<notin> orphans sv"
    using assms(2) map_of_SomeD by (fastforce simp: orphans_def tableIds_iff liveSession_def)
  with r same(2) tmp end_eq keepsD(2) [OF k] assms(4) show ?thesis
    by (simp add: removeSession_def closeSession_def removeAll_def)
qed

theorem ended_session_not_closed_witness:
  "\<exists>ls. liveSession ''shell'' list_server = Some ls
     \<and> orphans (sessionEnded demo_host (ls\<lparr>ls_tempDir := ''/tmp/x''\<rparr>) (putSession ''shell'' (ls\<lparr>ls_tempDir := ''/tmp/x''\<rparr>) list_server))
       = insert (ls_id ls) (orphans (putSession ''shell'' (ls\<lparr>ls_tempDir := ''/tmp/x''\<rparr>) list_server))"
proof -
  have "table_ok list_server" by code_simp
  have "liveSession ''shell'' list_server \<noteq> None" by code_simp
  then obtain ls where ls: "liveSession ''shell'' list_server = Some ls" by blast
  note put = put_ok [OF \<open>table_ok list_server\<close> ls, of "ls\<lparr>ls_tempDir := ''/tmp/x''\<rparr>"]
  have "\<not> sv_autoExit (putSession ''shell'' l list_server)" for l
    by (simp add: putSession_def) code_simp
  with ended_session_not_closed [OF put(1) put(4), of demo_host] ls show ?thesis by simp
qed

end
