(* ===== verification/Client_Requests.thy ===== *)
theory Client_Requests
  imports Wire_Conn Ht_Config
begin

text \<open>
  The client library: \<open>internal/client/client.go\<close>, \<open>errors.go\<close> and the decision of
  \<open>daemon_probe.go\<close>. A connection is the sink the client writes to and the bytes it will read;
  the generic \<open>request[T]\<close> takes the type assertion to \<open>T\<close> as a partial function.
\<close>

section \<open>Errors\<close>

datatype clientError =
    ClientError gerror
  | ServerError string string
  | ExitError int

type_synonym 'a outcome = "clientError + 'a"

fun clientErrorText :: "clientError \<Rightarrow> string" where
  "clientErrorText (ClientError e) = error_text e"
| "clientErrorText (ServerError op message) = op @ '': '' @ message"
| "clientErrorText (ExitError code) =
     ''exit with code '' @ (if code < 0 then ''-'' else []) @ string_of_nat (nat \<bar>code\<bar>)"

section \<open>Connecting\<close>

text \<open>\<open>Connect\<close> after the dial: the handshake and the version check; \<open>dial\<close> is its outcome.\<close>

definition Connect :: "string \<Rightarrow> conn result \<Rightarrow> conn outcome" where
  "Connect version dial =
     (case dial of
        Inl e \<Rightarrow> Inl (ClientError (Wrap ''connect to daemon'' e))
      | Inr c \<Rightarrow>
          (case Handshake ProtocolVersion version c of
             (Inl e, c) \<Rightarrow> Inl (ClientError (Wrap ''handshake'' e))
           | (Inr (accepted, serverRev), c) \<Rightarrow>
               if accepted \<noteq> ProtocolVersion
               then if serverRev \<noteq> [] \<and> serverRev \<noteq> version
                    then Inl (ClientError (Errorf (''revision mismatch: client='' @ version @ '' server='' @ serverRev
                           @ '' (restart the daemon)'')))
                    else Inl (ClientError (Errorf (''protocol version mismatch: server accepted ''
                           @ string_of_nat (unat accepted) @ '', expected '' @ string_of_nat (unat ProtocolVersion))))
               else Inr c))"

text \<open>
  \<open>DaemonUnavailable\<close>: the system error behind the \<open>net.OpError\<close>, if the failure is one;
  \<open>ProbeDaemon\<close> reports a running daemon, none, or another error.
\<close>

datatype sysErr = ENOENT | ECONNREFUSED | OtherSysErr

definition DaemonUnavailable :: "sysErr option \<Rightarrow> bool" where
  "DaemonUnavailable opErr = (case opErr of None \<Rightarrow> False | Some e \<Rightarrow> e = ENOENT \<or> e = ECONNREFUSED)"

definition ProbeDaemon :: "conn outcome \<Rightarrow> sysErr option \<Rightarrow> bool outcome" where
  "ProbeDaemon connected opErr =
     (case connected of
        Inl e \<Rightarrow> if DaemonUnavailable opErr then Inr False else Inl e
      | Inr c \<Rightarrow> Inr True)"

section \<open>Requests\<close>

definition request :: "(message \<Rightarrow> 'a option) \<Rightarrow> string \<Rightarrow> message \<Rightarrow> conn \<Rightarrow> 'a outcome \<times> conn" where
  "request asT op msg c =
     (case WriteMessage msg (c_sink c) of
        (Inl e, s) \<Rightarrow> (Inl (ClientError (Wrap (''send '' @ op) e)), c\<lparr>c_sink := s\<rparr>)
      | (Inr _, s) \<Rightarrow>
          (case ReadMessage (c_in c) of
             (Inl e, rest) \<Rightarrow>
               (Inl (ClientError (Wrap (''read '' @ op @ '' response'') e)), c\<lparr>c_sink := s, c_in := rest\<rparr>)
           | (Inr resp, rest) \<Rightarrow>
               ((case resp of
                   MError e \<Rightarrow> Inl (ServerError op (error_Message e))
                 | _ \<Rightarrow>
                     (case asT resp of
                        None \<Rightarrow> Inl (ClientError (Errorf (''unexpected response type: 0x'' @ hex02 (msgType resp))))
                      | Some v \<Rightarrow> Inr v)),
                c\<lparr>c_sink := s, c_in := rest\<rparr>)))"

definition asOK :: "message \<Rightarrow> unit option" where
  "asOK m = (case m of MOK \<Rightarrow> Some () | _ \<Rightarrow> None)"
definition asCreated :: "message \<Rightarrow> createdMsg option" where
  "asCreated m = (case m of MCreated v \<Rightarrow> Some v | _ \<Rightarrow> None)"
definition asAttached :: "message \<Rightarrow> attachedMsg option" where
  "asAttached m = (case m of MAttached v \<Rightarrow> Some v | _ \<Rightarrow> None)"
definition asSessions :: "message \<Rightarrow> sessionsMsg option" where
  "asSessions m = (case m of MSessions v \<Rightarrow> Some v | _ \<Rightarrow> None)"
definition asDumpResponse :: "message \<Rightarrow> dumpResponseMsg option" where
  "asDumpResponse m = (case m of MDumpResponse v \<Rightarrow> Some v | _ \<Rightarrow> None)"
definition asPruneResponse :: "message \<Rightarrow> pruneResponseMsg option" where
  "asPruneResponse m = (case m of MPruneResponse v \<Rightarrow> Some v | _ \<Rightarrow> None)"
definition asStatusResponse :: "message \<Rightarrow> statusResponseMsg option" where
  "asStatusResponse m = (case m of MStatusResponse v \<Rightarrow> Some v | _ \<Rightarrow> None)"

definition requestOK :: "string \<Rightarrow> message \<Rightarrow> conn \<Rightarrow> unit outcome \<times> conn" where
  "requestOK op msg c = request asOK op msg c"

section \<open>The client's own types\<close>

record clientOf =
  co_ClientID :: string
  co_ReadOnly :: bool
  co_Version :: string

record clientSession =
  cs_Name :: string
  cs_State :: string
  cs_Cols :: u16
  cs_Rows :: u16
  cs_CWD :: string
  cs_PID :: u32
  cs_CreatedAt :: u32
  cs_SavedAt :: u32
  cs_Clients :: "clientOf list"

record clientSessionStatus =
  ct_Name :: string
  ct_State :: string
  ct_Cols :: u16
  ct_Rows :: u16
  ct_PID :: u32
  ct_CWD :: string
  ct_Clients :: "clientOf list"

record clientStatus =
  cu_Daemon :: daemonStatus
  cu_Session :: "clientSessionStatus option"

record createdSession =
  cr_Name :: string
  cr_PID :: u32

record createSessionOpts =
  opt_Name :: string
  opt_Command :: "string list"
  opt_Env :: "string list"
  opt_CWD :: string
  opt_Scrollback :: u32
  opt_Force :: bool

definition sessionClientsFromProtocol :: "sessionClient list \<Rightarrow> clientOf list" where
  "sessionClientsFromProtocol =
     map (\<lambda>c. \<lparr>co_ClientID = sc_ClientID c, co_ReadOnly = sc_ReadOnly c, co_Version = sc_Version c\<rparr>)"

definition sessionsFromProtocol :: "sessionRow list \<Rightarrow> clientSession list" where
  "sessionsFromProtocol =
     map (\<lambda>s. \<lparr>cs_Name = row_Name s, cs_State = row_State s, cs_Cols = row_Cols s, cs_Rows = row_Rows s,
       cs_CWD = row_CWD s, cs_PID = row_PID s, cs_CreatedAt = row_CreatedAt s, cs_SavedAt = row_SavedAt s,
       cs_Clients = sessionClientsFromProtocol (row_Clients s)\<rparr>)"

definition statusFromProtocol :: "statusResponseMsg \<Rightarrow> clientStatus" where
  "statusFromProtocol resp =
     \<lparr>cu_Daemon = \<lparr>ds_PID = ds_PID (statusResponse_Daemon resp), ds_Uptime = ds_Uptime (statusResponse_Daemon resp),
        ds_SocketPath = ds_SocketPath (statusResponse_Daemon resp),
        ds_RunningCount = ds_RunningCount (statusResponse_Daemon resp),
        ds_DeadCount = ds_DeadCount (statusResponse_Daemon resp), ds_Version = ds_Version (statusResponse_Daemon resp)\<rparr>,
      cu_Session = map_option (\<lambda>s. \<lparr>ct_Name = ss_Name s, ct_State = ss_State s, ct_Cols = ss_Cols s, ct_Rows = ss_Rows s,
        ct_PID = ss_PID s, ct_CWD = ss_CWD s, ct_Clients = sessionClientsFromProtocol (ss_Clients s)\<rparr>)
        (statusResponse_Session resp)\<rparr>"

section \<open>The client's operations\<close>

definition mapOutcome :: "('a \<Rightarrow> 'b) \<Rightarrow> 'a outcome \<times> conn \<Rightarrow> 'b outcome \<times> conn" where
  "mapOutcome f = (\<lambda>(r, c). (map_sum id f r, c))"

definition createRequest :: "createSessionOpts \<Rightarrow> message" where
  "createRequest opts = MCreate \<lparr>create_Name = opt_Name opts, create_Command = opt_Command opts, create_Env = opt_Env opts,
     create_CWD = opt_CWD opts, create_Scrollback = opt_Scrollback opts, create_Force = opt_Force opts\<rparr>"

definition CreateSession :: "createSessionOpts \<Rightarrow> conn \<Rightarrow> createdSession outcome \<times> conn" where
  "CreateSession opts c =
     mapOutcome (\<lambda>v. \<lparr>cr_Name = created_Name v, cr_PID = created_PID v\<rparr>) (request asCreated ''create'' (createRequest opts) c)"

definition clientAttach :: "attachMsg \<Rightarrow> conn \<Rightarrow> attachedMsg outcome \<times> conn" where
  "clientAttach req c = request asAttached ''attach'' (MAttach req) c"

definition ListSessions :: "bool \<Rightarrow> conn \<Rightarrow> clientSession list outcome \<times> conn" where
  "ListSessions includeClients c =
     mapOutcome (\<lambda>v. sessionsFromProtocol (sessions_Sessions v))
       (request asSessions ''list'' (MList \<lparr>list_IncludeClients = includeClients\<rparr>) c)"

definition clientKill :: "string \<Rightarrow> conn \<Rightarrow> unit outcome \<times> conn" where
  "clientKill name c = requestOK ''kill'' (MKill \<lparr>kill_Name = name\<rparr>) c"

definition clientSend :: "string \<Rightarrow> byte list \<Rightarrow> conn \<Rightarrow> unit outcome \<times> conn" where
  "clientSend name data c = requestOK ''send'' (MSend \<lparr>send_Name = name, send_Data = data\<rparr>) c"

definition clientSendKey :: "string \<Rightarrow> u32 \<Rightarrow> u32 \<Rightarrow> conn \<Rightarrow> unit outcome \<times> conn" where
  "clientSendKey name keyCode mods c =
     requestOK ''send key'' (MSendKey \<lparr>sendKey_Name = name, sendKey_Key = keyCode, sendKey_Mods = mods\<rparr>) c"

definition clientDump :: "string \<Rightarrow> u8 \<Rightarrow> conn \<Rightarrow> byte list outcome \<times> conn" where
  "clientDump name format c =
     mapOutcome dumpResponse_Data (request asDumpResponse ''dump'' (MDump \<lparr>dump_Name = name, dump_Format = format\<rparr>) c)"

definition clientPrune :: "conn \<Rightarrow> u32 outcome \<times> conn" where
  "clientPrune c = mapOutcome pruneResponse_Count (request asPruneResponse ''prune'' MPrune c)"

definition clientStatusOf :: "string \<Rightarrow> conn \<Rightarrow> clientStatus outcome \<times> conn" where
  "clientStatusOf name c =
     mapOutcome statusFromProtocol (request asStatusResponse ''status'' (MStatus \<lparr>status_Name = name\<rparr>) c)"

definition clientKick :: "string \<Rightarrow> string \<Rightarrow> conn \<Rightarrow> unit outcome \<times> conn" where
  "clientKick name cid c = requestOK ''kick'' (MKick \<lparr>kick_Name = name, kick_ClientID = cid\<rparr>) c"

definition clientDetach :: "conn \<Rightarrow> unit result \<times> conn" where
  "clientDetach c = (case WriteMessage MDetach (c_sink c) of (r, s) \<Rightarrow> (r, c\<lparr>c_sink := s\<rparr>))"

section \<open>Lemmas\<close>

text \<open>A request whose write works and whose reply is a whole message.\<close>

lemma request_reply:
  assumes "wire_ok msg" and "sink_room (c_sink c) = None" and "wire_ok reply" and "c_in c = wire_bytes reply @ rest"
  shows "fst (request asT op msg c) =
      (case reply of MError e \<Rightarrow> Inl (ServerError op (error_Message e))
       | _ \<Rightarrow> (case asT reply of None \<Rightarrow> Inl (ClientError (Errorf (''unexpected response type: 0x'' @ hex02 (msgType reply))))
               | Some v \<Rightarrow> Inr v))"
    and "c_in (snd (request asT op msg c)) = rest"
    and "sink_out (c_sink (snd (request asT op msg c))) = sink_out (c_sink c) @ wire_bytes msg"
proof -
  have w: "WriteMessage msg (c_sink c) = (Inr (), (c_sink c)\<lparr>sink_out := sink_out (c_sink c) @ wire_bytes msg\<rparr>)"
    using assms(1,2) by (simp add: wire_ok_def WriteMessage_run sput_def)
  have r: "ReadMessage (c_in c) = (Inr reply, rest)" using ReadMessage_wire [OF assms(3)] assms(4) by simp
  show "fst (request asT op msg c) =
      (case reply of MError e \<Rightarrow> Inl (ServerError op (error_Message e))
       | _ \<Rightarrow> (case asT reply of None \<Rightarrow> Inl (ClientError (Errorf (''unexpected response type: 0x'' @ hex02 (msgType reply))))
               | Some v \<Rightarrow> Inr v))"
    using w r by (simp add: request_def)
  show "c_in (snd (request asT op msg c)) = rest" using w r by (simp add: request_def)
  show "sink_out (c_sink (snd (request asT op msg c))) = sink_out (c_sink c) @ wire_bytes msg"
    using w r by (simp add: request_def)
qed

lemma mapOutcome_simps [simp]:
  "fst (mapOutcome f x) = map_sum id f (fst x)" "snd (mapOutcome f x) = snd x"
  by (simp_all add: mapOutcome_def split_beta)

end
