(* ===== verification/Client_Attach.thy ===== *)
theory Client_Attach
  imports Client_Requests Terminal_Keys
begin

text \<open>
  The interactive client: \<open>internal/client/attach.go\<close>. The host terminal is what was written to
  standard output and standard error and whether the terminal is in raw mode; reads of standard
  input and of the connection are scripts, and so are the turns of the timed loops of \<open>drainStdin\<close> and
  \<open>readCursorRow\<close>; \<open>report\<close> is the bytes \<open>readCursorRow\<close> got hold of.
\<close>

record hostTerm =
  ht_out :: "byte list"
  ht_err :: string
  ht_raw :: bool
  ht_broken :: "gerror option"

definition esc :: "string \<Rightarrow> byte list" where
  "esc s = 0x1b # bytes_of_string s"

text \<open>\<open>os.Stdout.Write\<close>; it fails when standard output is broken.\<close>

definition stdoutWrite :: "byte list \<Rightarrow> hostTerm \<Rightarrow> unit result \<times> hostTerm" where
  "stdoutWrite data ht =
     (case ht_broken ht of
        Some e \<Rightarrow> (Inl e, ht)
      | None \<Rightarrow> (Inr (), ht\<lparr>ht_out := ht_out ht @ data\<rparr>))"

definition stderrPrint :: "string \<Rightarrow> hostTerm \<Rightarrow> hostTerm" where
  "stderrPrint s ht = ht\<lparr>ht_err := ht_err ht @ s\<rparr>"

section \<open>The detach key\<close>

fun bytesIndex :: "'a list \<Rightarrow> 'a list \<Rightarrow> nat option" where
  "bytesIndex [] sep = (if sep = [] then Some 0 else None)"
| "bytesIndex (x # xs) sep = (if take (length sep) (x # xs) = sep then Some 0 else map_option Suc (bytesIndex xs sep))"

definition findDetach :: "byte list \<Rightarrow> detachKey \<Rightarrow> nat option" where
  "findDetach data dk =
     (case (if dk_hasRaw dk then indexByte data (dk_rawByte dk) else None) of
        Some i \<Rightarrow> Some i
      | None \<Rightarrow> bytesIndex data (dk_csiSeq dk))"

section \<open>The attach request\<close>

record attachMetadata =
  am_Cols :: u16
  am_Rows :: u16
  am_Xpixel :: u16
  am_Ypixel :: u16
  am_Env :: "string list"
  am_CWD :: string

record attachOpts =
  ao_Name :: string
  ao_Command :: "string list"
  ao_DetachKey :: detachKey
  ao_Metadata :: "attachMetadata result option"
  ao_ReadOnly :: bool
  ao_Restore :: bool

definition attachRequestFromOpts :: "attachOpts \<Rightarrow> attachMsg result" where
  "attachRequestFromOpts opts =
     (case ao_Metadata opts of
        None \<Rightarrow> Inl (Errorf ''attach metadata function is required'')
      | Some (Inl e) \<Rightarrow> Inl e
      | Some (Inr md) \<Rightarrow>
          Inr \<lparr>attach_Name = ao_Name opts, attach_Command = ao_Command opts, attach_Env = am_Env md, attach_CWD = am_CWD md,
               attach_Cols = am_Cols md, attach_Rows = am_Rows md, attach_Xpixel = am_Xpixel md, attach_Ypixel = am_Ypixel md,
               attach_ReadOnly = ao_ReadOnly opts, attach_Restore = ao_Restore opts, attach_Scrollback = 0\<rparr>)"

section \<open>What is written to the host terminal\<close>

definition writeAttachStatus :: "attachedMsg \<Rightarrow> bool \<Rightarrow> hostTerm \<Rightarrow> hostTerm" where
  "writeAttachStatus attached readOnly =
     (let session = '' session '' @ quoted (attached_Name attached) @ '' (pid '' @ string_of_nat (unat (attached_PID attached))
            @ '')'' @ [CHR 0x0A]
      in stderrPrint (if attached_Created attached then ''[hauntty] created'' @ session
           else if readOnly then ''[hauntty] attached read-only to'' @ session
           else ''[hauntty] attached to'' @ session))"

definition pushKittyKeyboard :: "hostTerm \<Rightarrow> unit result \<times> hostTerm" where
  "pushKittyKeyboard ht =
     (case stdoutWrite (esc ''[>0u'') ht of
        (Inl e, ht) \<Rightarrow> (Inl (Wrap ''push kitty keyboard'' e), ht)
      | (Inr _, ht) \<Rightarrow> (Inr (), ht))"

text \<open>The parse of the cursor report in \<open>readCursorRow\<close>; \<open>None\<close> stands for the fallback.\<close>

definition lastIndexByte :: "'a list \<Rightarrow> 'a \<Rightarrow> nat option" where
  "lastIndexByte s c = map_option (\<lambda>i. length s - 1 - i) (indexByte (rev s) c)"

fun parseDigits :: "byte list \<Rightarrow> 64 word \<Rightarrow> int option" where
  "parseDigits [] row = Some (sint row)"
| "parseDigits (b # bs) row = (if b < 48 \<or> b > 57 then None else parseDigits bs (row * 10 + ucast (b - 48)))"

text \<open>
  Its reading loop: one entry for each turn before the deadline, \<open>None\<close> when the select times out,
  else what is there to read (nothing on an error). The buffer has 32 bytes; a report ends with R.
\<close>

fun cursorReport :: "byte list option list \<Rightarrow> byte list \<Rightarrow> byte list" where
  "cursorReport [] buf = buf"
| "cursorReport (turn # turns) buf =
     (if length buf < 32
      then (case turn of
              None \<Rightarrow> buf
            | Some data \<Rightarrow>
                let got = take (32 - length buf) data
                in if got \<noteq> [] \<and> last got = 82 then buf @ got else cursorReport turns (buf @ got))
      else buf)"

definition readCursorRow :: "byte list \<Rightarrow> int \<Rightarrow> int" where
  "readCursorRow resp fallback =
     (case lastIndexByte resp 91 of
        None \<Rightarrow> fallback
      | Some start \<Rightarrow>
          (case cutAt 59 (drop (start + 1) resp) of
             (before, _, ok) \<Rightarrow>
               if \<not> ok then fallback
               else (case parseDigits before 0 of
                       None \<Rightarrow> fallback
                     | Some row \<Rightarrow> if row \<le> 0 then fallback else row)))"

definition clearRow :: "nat \<Rightarrow> byte list" where
  "clearRow row = esc (''['' @ string_of_nat row @ '';1H'') @ esc ''[2K''"

definition outIgnoring :: "byte list \<Rightarrow> hostTerm \<Rightarrow> hostTerm" where
  "outIgnoring data ht = snd (stdoutWrite data ht)"

text \<open>\<open>report\<close>: the bytes of the cursor report, or \<open>None\<close> when raw mode cannot be set for the query.\<close>

definition writeReattachScreenDump ::
  "byte list option \<Rightarrow> u16 \<Rightarrow> attachedMsg \<Rightarrow> hostTerm \<Rightarrow> unit result \<times> hostTerm" where
  "writeReattachScreenDump report rws attached ht =
     (if attached_Created attached \<or> length (attached_ScreenDump attached) = 0 then (Inr (), ht)
      else let (cursorRow, ht) =
                 (case report of
                    None \<Rightarrow> (uint rws, ht)
                  | Some resp \<Rightarrow> (readCursorRow resp (uint rws), outIgnoring (esc ''[6n'') ht));
               ht = outIgnoring (esc ''[999;1H'' @ replicate (nat cursorRow) 10) ht;
               ht = outIgnoring (concat (map clearRow [1..<Suc (unat rws)]) @ esc ''[H'') ht
           in case stdoutWrite (attached_ScreenDump attached) ht of
                (Inl e, ht) \<Rightarrow> (Inl (Wrap ''write state dump'' e), ht)
              | (Inr _, ht) \<Rightarrow> (Inr (), ht))"

definition writeCreatedCommandDump :: "attachedMsg \<Rightarrow> string list \<Rightarrow> hostTerm \<Rightarrow> unit result \<times> hostTerm" where
  "writeCreatedCommandDump attached command ht =
     (if \<not> attached_Created attached \<or> length command = 0 \<or> length (attached_ScreenDump attached) = 0 then (Inr (), ht)
      else (case stdoutWrite (attached_ScreenDump attached) ht of
              (Inl e, ht) \<Rightarrow> (Inl (Wrap ''write state dump'' e), ht)
            | (Inr _, ht) \<Rightarrow> (Inr (), ht)))"

definition termRestore :: "hostTerm \<Rightarrow> hostTerm" where
  "termRestore ht = ht\<lparr>ht_raw := False\<rparr>"

definition resetSequence :: "byte list" where
  "resetSequence = esc ''[?1047;1;1000;1002;1003;1006;1004;2004;2048;2026l'' @ esc ''[?25h'' @ esc ''[<u'' @ esc ''[0m'' @ esc ''[J''"

definition restoreHostTerminal :: "string \<Rightarrow> hostTerm \<Rightarrow> hostTerm" where
  "restoreHostTerminal message ht =
     (let ht = termRestore (outIgnoring resetSequence ht)
      in if message \<noteq> [] then stderrPrint message ht else ht)"

text \<open>
  \<open>drainStdin\<close> on the pending bytes of standard input: one entry for each turn before the deadline,
  whether the select reports input; each read drops up to 256 bytes.
\<close>

fun drainStdin :: "bool list \<Rightarrow> byte list \<Rightarrow> byte list" where
  "drainStdin [] pending = pending"
| "drainStdin (ready # turns) pending = (if ready then drainStdin turns (drop 256 pending) else pending)"

section \<open>Forwarding input\<close>

text \<open>
  The goroutine of \<open>forwardHostResize\<close>: for every SIGWINCH the size of the terminal, if it can be read,
  and whether the message could be written; the messages it writes.
\<close>

fun forwardHostResize :: "((u16 \<times> u16 \<times> u16 \<times> u16) result \<times> bool) list \<Rightarrow> message list" where
  "forwardHostResize [] = []"
| "forwardHostResize ((Inl e, written) # sigs) = forwardHostResize sigs"
| "forwardHostResize ((Inr (c, r, xp, yp), written) # sigs) =
     MResize \<lparr>resize_Cols = c, resize_Rows = r, resize_Xpixel = xp, resize_Ypixel = yp\<rparr>
       # (if written then forwardHostResize sigs else [])"

text \<open>
  The goroutine of \<open>forwardHostInput\<close> over the reads of standard input (at most 4096 bytes each):
  the messages written to the connection, as long as writing works, and whether it detached.
\<close>

fun forwardHostInput :: "detachKey \<Rightarrow> bool \<Rightarrow> byte list list \<Rightarrow> message list \<times> bool" where
  "forwardHostInput dk readOnly [] = ([], False)"
| "forwardHostInput dk readOnly (data # reads) =
     (if data = [] then forwardHostInput dk readOnly reads
      else case findDetach data dk of
             Some i \<Rightarrow>
               ((if \<not> readOnly \<and> i > 0 then [MInput \<lparr>input_Data = take i data\<rparr>] else []) @ [MDetach], True)
           | None \<Rightarrow>
               (case forwardHostInput dk readOnly reads of
                  (msgs, detached) \<Rightarrow>
                    ((if \<not> readOnly then [MInput \<lparr>input_Data = data\<rparr>] else []) @ msgs, detached)))"

section \<open>The session on screen\<close>

definition handleAttachMessage :: "message \<Rightarrow> hostTerm \<Rightarrow> unit outcome \<times> hostTerm" where
  "handleAttachMessage msg ht =
     (case msg of
        MOutput m \<Rightarrow> (Inr (), outIgnoring (output_Data m) ht)
      | MExited m \<Rightarrow>
          (Inl (ExitError (sint (exited_ExitCode m))), restoreHostTerminal (''[hauntty] session exited'' @ [CHR 0x0A]) ht)
      | MError m \<Rightarrow>
          (Inl (ExitError 1), stderrPrint (''[hauntty] error: '' @ error_Message m @ [CHR 0x0A]) (termRestore ht))
      | _ \<Rightarrow> (Inr (), ht))"

definition isConnClosed :: "gerror \<Rightarrow> bool" where
  "isConnClosed e \<longleftrightarrow> errors_Is e ErrClosed"

text \<open>The read loop of \<open>RunAttach\<close>; the script of reads ends with the one that fails.\<close>

fun attachLoop :: "message result list \<Rightarrow> hostTerm \<Rightarrow> unit outcome \<times> hostTerm" where
  "attachLoop [] ht = (Inr (), restoreHostTerminal (''[hauntty] detached'' @ [CHR 0x0A]) ht)"
| "attachLoop (Inl e # reads) ht =
     (if e = EOF \<or> isConnClosed e
      then (Inr (), restoreHostTerminal (''[hauntty] detached'' @ [CHR 0x0A]) ht)
      else (Inl (ClientError (Wrap ''read message'' e)), termRestore ht))"
| "attachLoop (Inr msg # reads) ht =
     (case handleAttachMessage msg ht of
        (Inl e, ht) \<Rightarrow> (Inl e, ht)
      | (Inr _, ht) \<Rightarrow> attachLoop reads ht)"

text \<open>
  \<open>RunAttach\<close>: \<open>attached\<close> is the outcome of the attach request, \<open>report\<close> the answer to the cursor
  query, \<open>rawErr\<close> the failure of \<open>term.MakeRaw\<close>. The deferred restore runs on every later return.
\<close>

definition RunAttach ::
  "attachOpts \<Rightarrow> (attachMsg \<Rightarrow> attachedMsg outcome) \<Rightarrow> byte list option \<Rightarrow> gerror option \<Rightarrow> message result list
     \<Rightarrow> hostTerm \<Rightarrow> unit outcome \<times> hostTerm" where
  "RunAttach opts attachReq report rawErr reads ht =
     (case attachRequestFromOpts opts of
        Inl e \<Rightarrow> (Inl (ClientError e), ht)
      | Inr req \<Rightarrow>
     (case attachReq req of
        Inl e \<Rightarrow> (Inl e, ht)
      | Inr attached \<Rightarrow>
     (case pushKittyKeyboard (writeAttachStatus attached (ao_ReadOnly opts) ht) of
        (Inl e, ht) \<Rightarrow> (Inl (ClientError e), ht)
      | (Inr _, ht) \<Rightarrow>
     (case writeReattachScreenDump report (attach_Rows req) attached ht of
        (Inl e, ht) \<Rightarrow> (Inl (ClientError e), ht)
      | (Inr _, ht) \<Rightarrow>
     (case rawErr of
        Some e \<Rightarrow> (Inl (ClientError (Wrap ''set raw mode'' e)), ht)
      | None \<Rightarrow>
     (case writeCreatedCommandDump attached (ao_Command opts) (ht\<lparr>ht_raw := True\<rparr>) of
        (Inl e, ht) \<Rightarrow> (Inl (ClientError e), termRestore ht)
      | (Inr _, ht) \<Rightarrow>
     (case attachLoop reads ht of (r, ht) \<Rightarrow> (r, termRestore ht))))))))"

section \<open>Lemmas\<close>

text \<open>The cursor report fits its buffer, and the row scrolled to is positive unless the terminal has no rows.\<close>

lemma cursorReport_bounded: "length buf \<le> 32 \<Longrightarrow> length (cursorReport turns buf) \<le> 32"
  by (induction turns buf rule: cursorReport.induct) (auto simp: Let_def split: option.split)

lemma readCursorRow_positive: "fallback > 0 \<Longrightarrow> readCursorRow resp fallback > 0"
  by (auto simp: readCursorRow_def split: option.split prod.split)

fun inputsOf :: "message list \<Rightarrow> byte list" where
  "inputsOf [] = []"
| "inputsOf (MInput m # ms) = input_Data m @ inputsOf ms"
| "inputsOf (_ # ms) = inputsOf ms"

lemma inputsOf_append [simp]: "inputsOf (a @ b) = inputsOf a @ inputsOf b"
  by (induction a rule: inputsOf.induct) auto

definition hasDetach :: "detachKey \<Rightarrow> byte list \<Rightarrow> bool" where
  "hasDetach dk data \<longleftrightarrow> data \<noteq> [] \<and> findDetach data dk \<noteq> None"

lemma findDetach_None_raw: "findDetach data dk = None \<Longrightarrow> dk_hasRaw dk \<Longrightarrow> dk_rawByte dk \<notin> set data"
  by (auto simp: findDetach_def indexByte_None split: option.splits)

lemma findDetach_Some_raw: "findDetach data dk = Some i \<Longrightarrow> dk_hasRaw dk \<Longrightarrow> dk_rawByte dk \<notin> set (take i data)"
  by (auto simp: findDetach_def split: option.splits dest: indexByte_SomeD in_set_takeD simp: indexByte_None)

text \<open>Everything about the forwarder at once: the split at the first read that holds the key.\<close>

lemma forward_split:
  assumes "forwardHostInput dk False reads = (msgs, detached)"
  shows "\<not> detached \<Longrightarrow> inputsOf msgs = concat reads \<and> MDetach \<notin> set msgs \<and> (\<forall>d \<in> set reads. \<not> hasDetach dk d)"
    and "detached \<Longrightarrow> \<exists>before data after i. reads = before @ data # after \<and> findDetach data dk = Some i
           \<and> (\<forall>d \<in> set before. \<not> hasDetach dk d) \<and> inputsOf msgs = concat before @ take i data \<and> last msgs = MDetach \<and> msgs \<noteq> []"
  using assms
proof (induction reads arbitrary: msgs detached)
  case (Cons d reads)
  obtain ms dt where rest: "forwardHostInput dk False reads = (ms, dt)" by fastforce
  consider (empty) "d = []" | (key) i where "d \<noteq> []" "findDetach d dk = Some i" | (plain) "d \<noteq> []" "findDetach d dk = None"
    by (cases "d = []"; cases "findDetach d dk") auto
  note cs = this
  { case 1
    from cs show ?case
    proof cases
      case plain
      with 1 rest Cons.IH(1) [OF _ rest] show ?thesis by (auto simp: hasDetach_def)
    qed (use 1 rest Cons.IH(1) [OF _ rest] in \<open>auto simp: hasDetach_def\<close>) }
  { case 2
    from cs show ?case
    proof cases
      case key
      with 2 show ?thesis by (intro exI [of _ "[]"] exI [of _ d] exI [of _ reads] exI [of _ i]) auto
    next
      case empty
      with 2 rest Cons.IH(2) [OF _ rest] obtain before data after i where
        "reads = before @ data # after" "findDetach data dk = Some i" "\<forall>d \<in> set before. \<not> hasDetach dk d"
        "inputsOf msgs = concat before @ take i data" "last msgs = MDetach" "msgs \<noteq> []" by auto
      with empty show ?thesis
        by (intro exI [of _ "[] # before"] exI [of _ data] exI [of _ after] exI [of _ i]) (auto simp: hasDetach_def)
    next
      case plain
      with 2 rest Cons.IH(2) [OF _ rest] obtain before data after i where
        b: "reads = before @ data # after" "findDetach data dk = Some i" "\<forall>d \<in> set before. \<not> hasDetach dk d"
        "inputsOf ms = concat before @ take i data" "last ms = MDetach" "ms \<noteq> []" by auto
      moreover have "msgs = MInput \<lparr>input_Data = d\<rparr> # ms" using 2 plain rest by simp
      ultimately show ?thesis using plain
        by (intro exI [of _ "d # before"] exI [of _ data] exI [of _ after] exI [of _ i]) (auto simp: hasDetach_def)
    qed }
qed simp_all

lemma forward_read_only: "forwardHostInput dk True reads = (msgs, detached) \<Longrightarrow> inputsOf msgs = []"
  by (induction reads arbitrary: msgs detached) (auto split: if_splits option.splits prod.splits)

lemma forward_raw_key:
  assumes "forwardHostInput dk readOnly reads = (msgs, detached)" and "dk_hasRaw dk"
  shows "dk_rawByte dk \<notin> set (inputsOf msgs)"
  using assms(1)
proof (induction reads arbitrary: msgs detached)
  case (Cons d reads)
  then show ?case using findDetach_None_raw [OF _ assms(2), of d] findDetach_Some_raw [OF _ assms(2), of d]
    by (auto split: if_splits option.splits prod.splits)
qed simp

lemma raw_frame [simp]:
  "ht_raw (stderrPrint s ht) = ht_raw ht" "ht_raw (outIgnoring d ht) = ht_raw ht" "\<not> ht_raw (termRestore ht)"
  by (simp_all add: stderrPrint_def outIgnoring_def stdoutWrite_def termRestore_def split: option.split)

lemma stdoutWrite_raw: "stdoutWrite d ht = (r, ht') \<Longrightarrow> ht_raw ht' = ht_raw ht"
  by (auto simp: stdoutWrite_def split: option.splits)

lemma broken_frame [simp]:
  "ht_broken (stderrPrint s ht) = ht_broken ht" "ht_broken (outIgnoring d ht) = ht_broken ht"
  "ht_broken (termRestore ht) = ht_broken ht" "ht_out (termRestore ht) = ht_out ht" "ht_out (stderrPrint s ht) = ht_out ht"
  by (simp_all add: stderrPrint_def outIgnoring_def stdoutWrite_def termRestore_def split: option.split)

lemma restoreHostTerminal_out:
  "ht_broken ht = None \<Longrightarrow> ht_out (restoreHostTerminal m ht) = ht_out ht @ resetSequence"
  by (simp add: restoreHostTerminal_def Let_def outIgnoring_def stdoutWrite_def)

lemma handleAttachMessage_broken: "handleAttachMessage m ht = (r, ht') \<Longrightarrow> ht_broken ht' = ht_broken ht"
  by (auto simp: handleAttachMessage_def restoreHostTerminal_def Let_def split: message.splits)

lemma attachLoop_resets:
  "attachLoop reads ht = (r, ht') \<Longrightarrow> ht_broken ht = None \<Longrightarrow> r = Inr () \<Longrightarrow> \<exists>out. ht_out ht' = out @ resetSequence"
proof (induction reads ht rule: attachLoop.induct)
  case (3 msg reads ht)
  then show ?case using handleAttachMessage_broken by (auto split: prod.splits sum.splits)
qed (auto simp: restoreHostTerminal_out split: if_splits)

definition same_mode :: "hostTerm \<Rightarrow> hostTerm \<Rightarrow> bool" where
  "same_mode ht ht' \<longleftrightarrow> ht_raw ht' = ht_raw ht \<and> ht_broken ht' = ht_broken ht"

lemma stdoutWrite_mode: "stdoutWrite d ht = (r, ht') \<Longrightarrow> same_mode ht ht'"
  by (auto simp: stdoutWrite_def same_mode_def split: option.splits)

lemma before_raw_mode:
  "same_mode ht (writeAttachStatus a ro ht)"
  "pushKittyKeyboard ht = (r, ht') \<Longrightarrow> same_mode ht ht'"
  "writeReattachScreenDump rep rws a ht = (r, ht') \<Longrightarrow> same_mode ht ht'"
  "writeCreatedCommandDump a cmd ht = (r, ht') \<Longrightarrow> same_mode ht ht'"
proof -
  show "same_mode ht (writeAttachStatus a ro ht)" by (simp add: writeAttachStatus_def same_mode_def Let_def)
  show "same_mode ht ht'" if "pushKittyKeyboard ht = (r, ht')"
    using that by (auto simp: pushKittyKeyboard_def split: prod.splits sum.splits dest: stdoutWrite_mode)
  show "same_mode ht ht'" if "writeCreatedCommandDump a cmd ht = (r, ht')"
    using that by (auto simp: writeCreatedCommandDump_def same_mode_def split: prod.splits sum.splits if_splits
        dest!: stdoutWrite_mode)
  show "same_mode ht ht'" if "writeReattachScreenDump rep rws a ht = (r, ht')"
    using that by (auto simp: writeReattachScreenDump_def same_mode_def Let_def split: prod.splits sum.splits if_splits option.splits
        dest!: stdoutWrite_mode)
qed

section \<open>Properties\<close>

text \<open>
  What the user types reaches the session unchanged up to the detach key and nothing after it:
  without a detach, the \<open>Input\<close> messages carry exactly the bytes read; with one, the bytes before
  the key in the first read that holds it, followed by \<open>Detach\<close>. A detach key that is a single
  byte is never forwarded, and a read-only client sends no input at all.
\<close>

theorem typed_input_forwarded:
  assumes "forwardHostInput dk readOnly reads = (msgs, detached)"
  shows "(readOnly \<longrightarrow> inputsOf msgs = [])
    \<and> (\<not> readOnly \<and> \<not> detached \<longrightarrow> inputsOf msgs = concat reads \<and> (\<forall>d \<in> set reads. \<not> hasDetach dk d))
    \<and> (\<not> readOnly \<and> detached \<longrightarrow> (\<exists>before data after i. reads = before @ data # after \<and> findDetach data dk = Some i
         \<and> (\<forall>d \<in> set before. \<not> hasDetach dk d) \<and> inputsOf msgs = concat before @ take i data \<and> last msgs = MDetach))
    \<and> (dk_hasRaw dk \<longrightarrow> dk_rawByte dk \<notin> set (inputsOf msgs))"
proof (intro conjI impI)
  show "inputsOf msgs = []" if readOnly using forward_read_only assms that by simp
  show "dk_rawByte dk \<notin> set (inputsOf msgs)" if "dk_hasRaw dk" using forward_raw_key [OF assms that] .
qed (use assms forward_split [of dk reads msgs detached] in \<open>auto; blast\<close>)+

theorem typed_input_forwarded_witness:
  "\<exists>msgs. forwardHostInput \<lparr>dk_rawByte = 0x1d, dk_hasRaw = True, dk_csiSeq = [0x1b, 0x5b]\<rparr> False [[97, 98], [99, 0x1d, 100]] = (msgs, True)
     \<and> inputsOf msgs = [97, 98, 99] \<and> 0x1d \<notin> set (inputsOf msgs)"
proof -
  let ?dk = "\<lparr>dk_rawByte = 0x1d, dk_hasRaw = True, dk_csiSeq = [0x1b, 0x5b]\<rparr> :: detachKey"
  have run: "forwardHostInput ?dk False [[97, 98], [99, 0x1d, 100]]
      = ([MInput \<lparr>input_Data = [97, 98]\<rparr>, MInput \<lparr>input_Data = [99]\<rparr>, MDetach], True)" by code_simp
  from typed_input_forwarded [OF this] run show ?thesis by auto
qed


definition demo_opts :: attachOpts where
  "demo_opts = \<lparr>ao_Name = ''work'', ao_Command = [],
     ao_DetachKey = \<lparr>dk_rawByte = 0x1d, dk_hasRaw = True, dk_csiSeq = [0x1b, 0x5b]\<rparr>,
     ao_Metadata = Some (Inr \<lparr>am_Cols = 80, am_Rows = 2, am_Xpixel = 0, am_Ypixel = 0, am_Env = [], am_CWD = ''/''\<rparr>),
     ao_ReadOnly = False, ao_Restore = False\<rparr>"

definition demo_attached :: attachedMsg where
  "demo_attached = \<lparr>attached_Name = ''work'', attached_PID = 42, attached_ClientID = ''1'', attached_Cols = 80, attached_Rows = 2,
     attached_ScreenDump = [104, 105], attached_CursorRow = 0, attached_CursorCol = 2, attached_AltScreen = False,
     attached_Created = False\<rparr>"


end
