(* ===== verification/Ghostty_Runtime.thy ===== *)
theory Ghostty_Runtime
  imports Ht_Prelude "HOL-Library.Multiset"
begin

text \<open>
  \<open>libghostty/wasm.go\<close> and \<open>result.go\<close>: how the Go bindings talk to the WebAssembly module. The
  generated module is a parameter \<open>X\<close>: \<open>X name args\<close> is the exported function of that name on the
  module's memory and inner state. The runtime also keeps a ledger, which does not exist in the
  code: what the bindings have obtained from the module and not given back, and whether they ever
  gave back what they did not hold. Nothing is assumed of the module.

  A Go function that can fail or panic is a function on the state that returns a \<open>goRes\<close>; a panic
  unwinds like an error, running the deferred calls, but is not caught by error handling. The
  locale \<open>ledger\<close> is the calculus in which resource use is stated and proved: \<open>uses I op Q E\<close> says
  that \<open>op\<close>, given the resources \<open>I\<close>, leaves \<open>Q\<close> when it returns and \<open>E\<close> when it fails, touches no
  others and frees nothing twice, unless a memory range of the module was invalid.
\<close>

section \<open>Go functions with errors, panics and defer\<close>

datatype 'a goRes = is_Ret: Ret 'a | Err gerror | Panics gerror

type_synonym ('s, 'a) go = "'s \<Rightarrow> 'a goRes \<times> 's"

definition gret :: "'a \<Rightarrow> ('s, 'a) go" where
  "gret a s = (Ret a, s)"

definition gfail :: "gerror \<Rightarrow> ('s, 'a) go" where
  "gfail e s = (Err e, s)"

definition gpanic :: "gerror \<Rightarrow> ('s, 'a) go" where
  "gpanic e s = (Panics e, s)"

definition gbind :: "('s, 'a) go \<Rightarrow> ('a \<Rightarrow> ('s, 'b) go) \<Rightarrow> ('s, 'b) go" where
  "gbind f k s =
     (case f s of
        (Ret a, s) \<Rightarrow> k a s
      | (Err e, s) \<Rightarrow> (Err e, s)
      | (Panics e, s) \<Rightarrow> (Panics e, s))"

text \<open>\<open>defer cleanup()\<close> followed by the rest of the function.\<close>

definition gdefer :: "('s, unit) go \<Rightarrow> ('s, 'a) go \<Rightarrow> ('s, 'a) go" where
  "gdefer cleanup f s = (case f s of (r, s) \<Rightarrow> (r, snd (cleanup s)))"

text \<open>\<open>if err != nil { cleanup(); return nil, err }\<close>: an error is handled, a panic is not.\<close>

definition gonerr :: "('s, 'a) go \<Rightarrow> ('s, unit) go \<Rightarrow> ('s, 'a) go" where
  "gonerr f cleanup s = (case f s of (Err e, s) \<Rightarrow> (Err e, snd (cleanup s)) | (r, s) \<Rightarrow> (r, s))"

text \<open>A deferred cleanup that is disarmed when the function is about to return its result.\<close>

definition gunless :: "('s, unit) go \<Rightarrow> ('s, 'a) go \<Rightarrow> ('s, 'a) go" where
  "gunless cleanup f s = (case f s of (Ret a, s) \<Rightarrow> (Ret a, s) | (r, s) \<Rightarrow> (r, snd (cleanup s)))"

text \<open>\<open>fmt.Errorf("ctx: %w", err)\<close> on the way out; and a call that turns an error into a panic.\<close>

definition gwrap :: "string \<Rightarrow> ('s, 'a) go \<Rightarrow> ('s, 'a) go" where
  "gwrap ctx f s = (case f s of (Err e, s) \<Rightarrow> (Err (Wrap ctx e), s) | (r, s) \<Rightarrow> (r, s))"

definition gmust :: "('s, 'a) go \<Rightarrow> ('s, 'a) go" where
  "gmust f s = (case f s of (Err e, s) \<Rightarrow> (Panics e, s) | (r, s) \<Rightarrow> (r, s))"

text \<open>
  A function whose receiver or local variable is a struct it changes has the pair of the struct
  and the runtime as its state. \<open>onRt\<close> is a call that leaves the struct alone, \<open>gscope\<close> a local
  struct with a deferred \<open>Close\<close>.
\<close>

definition onRt :: "('s, 'a) go \<Rightarrow> ('o \<times> 's, 'a) go" where
  "onRt f os = (case f (snd os) of (r, s) \<Rightarrow> (r, (fst os, s)))"

definition gscope :: "'o \<Rightarrow> ('o \<times> 's, unit) go \<Rightarrow> ('o \<times> 's, 'a) go \<Rightarrow> ('s, 'a) go" where
  "gscope obj close body s = (case body (obj, s) of (r, os) \<Rightarrow> (r, snd (snd (close os))))"

definition getObj :: "('o \<times> 's, 'o) go" where
  "getObj os = (Ret (fst os), os)"

definition setObj :: "'o \<Rightarrow> ('o \<times> 's, unit) go" where
  "setObj obj os = (Ret (), (obj, snd os))"

text \<open>A method called on a struct that is not used afterwards.\<close>

definition onLocal :: "'o \<Rightarrow> ('o \<times> 's, 'a) go \<Rightarrow> ('s, 'a) go" where
  "onLocal obj f s = (case f (obj, s) of (r, os) \<Rightarrow> (r, snd os))"

section \<open>The module and the runtime\<close>

record 'm module =
  md_mem :: "byte list"
  md_state :: 'm

type_synonym 'm exports = "string \<Rightarrow> u32 list \<Rightarrow> 'm module \<Rightarrow> u32 \<times> 'm module"

datatype resource =
    RBuf u32 u32
  | ROpaque u32
  | ROut u32 u32
  | RTerminal u32
  | RDecoder u32
  | RFormatter u32
  | RKeyEncoder u32
  | RKeyEvent u32

record 'm wasmRuntime =
  rt_mod :: "'m module"
  rt_live :: "resource multiset"
  rt_bad :: bool

definition acquire :: "resource \<Rightarrow> ('m wasmRuntime, unit) go" where
  "acquire r rt = (Ret (), rt\<lparr>rt_live := add_mset r (rt_live rt)\<rparr>)"

definition release :: "resource \<Rightarrow> ('m wasmRuntime, unit) go" where
  "release r rt =
     (Ret (), if r \<in># rt_live rt then rt\<lparr>rt_live := rt_live rt - {#r#}\<rparr> else rt\<lparr>rt_bad := True\<rparr>)"

definition xcall :: "'m exports \<Rightarrow> string \<Rightarrow> u32 list \<Rightarrow> ('m wasmRuntime, u32) go" where
  "xcall X name args rt = (case X name args (rt_mod rt) of (r, md) \<Rightarrow> (Ret r, rt\<lparr>rt_mod := md\<rparr>))"

section \<open>Results\<close>

definition ResultSuccess :: u32 where "ResultSuccess = 0"
definition ResultOutOfMemory :: u32 where "ResultOutOfMemory = -1"
definition ResultInvalidValue :: u32 where "ResultInvalidValue = -2"
definition ResultOutOfSpace :: u32 where "ResultOutOfSpace = -3"
definition ResultNoValue :: u32 where "ResultNoValue = -4"
definition ResultIOError :: u32 where "ResultIOError = -5"
definition ResultLimitExceeded :: u32 where "ResultLimitExceeded = -6"

definition string_of_int :: "int \<Rightarrow> string" where
  "string_of_int i = (if i < 0 then CHR ''-'' # string_of_nat (nat (- i)) else string_of_nat (nat i))"

definition ghosttyError :: "u32 \<Rightarrow> gerror" where
  "ghosttyError r = Errorf
     (if r = ResultOutOfMemory then ''ghostty: out of memory''
      else if r = ResultInvalidValue then ''ghostty: invalid value''
      else if r = ResultOutOfSpace then ''ghostty: out of space''
      else if r = ResultNoValue then ''ghostty: no value''
      else if r = ResultIOError then ''ghostty: I/O error''
      else if r = ResultLimitExceeded then ''ghostty: limit exceeded''
      else ''ghostty: result='' @ string_of_int (sint r))"

definition resultError :: "u32 \<Rightarrow> ('s, unit) go" where
  "resultError result = (if result = ResultSuccess then gret () else gfail (ghosttyError result))"

section \<open>Memory\<close>

definition rangeError :: gerror where
  "rangeError = Errorf ''libghostty: invalid wasm memory range''"

definition alloc :: "'m exports \<Rightarrow> u32 \<Rightarrow> ('m wasmRuntime, u32) go" where
  "alloc X len =
     (if len = 0 then gret 0
      else gbind (xcall X ''ghostty_wasm_alloc'' [len]) (\<lambda>ptr.
        if ptr = 0 then gfail (ghosttyError ResultOutOfMemory)
        else gbind (acquire (RBuf ptr len)) (\<lambda>_. gret ptr)))"

definition wfree :: "'m exports \<Rightarrow> u32 \<Rightarrow> u32 \<Rightarrow> ('m wasmRuntime, unit) go" where
  "wfree X ptr len =
     (if ptr \<noteq> 0
      then gbind (xcall X ''ghostty_wasm_free'' [ptr, len]) (\<lambda>_. release (RBuf ptr len))
      else gret ())"

text \<open>
  \<open>opaque\<close>: the constructor writes a handle into a slot, from which it is taken; \<open>kind\<close> says in the
  ledger what the handle is.
\<close>

definition opaque :: "'m exports \<Rightarrow> (u32 \<Rightarrow> resource) \<Rightarrow> (u32 \<Rightarrow> ('m wasmRuntime, u32) go) \<Rightarrow> ('m wasmRuntime, u32) go" where
  "opaque X kind constructor =
     gbind (xcall X ''ghostty_wasm_alloc_opaque'' []) (\<lambda>slot.
       if slot = 0 then gfail (ghosttyError ResultOutOfMemory)
       else gbind (acquire (ROpaque slot)) (\<lambda>_.
         gdefer (gbind (xcall X ''ghostty_wasm_free_opaque'' [slot]) (\<lambda>_. release (ROpaque slot)))
           (gbind (constructor slot) (\<lambda>result.
            gbind (resultError result) (\<lambda>_.
            gbind (xcall X ''ghostty_wasm_take_opaque'' [slot]) (\<lambda>ptr.
              if ptr = 0 then gfail (ghosttyError ResultOutOfMemory)
              else gbind (acquire (kind ptr)) (\<lambda>_. gret ptr)))))))"

text \<open>
  \<open>bytes\<close> returns a slice of the module's memory. Reading through it is \<open>bytes\<close> here, writing
  through it \<open>put\<close>, which overwrites the range.
\<close>

definition bytes :: "u32 \<Rightarrow> u32 \<Rightarrow> ('m wasmRuntime, byte list) go" where
  "bytes ptr len rt =
     (let mem = md_mem (rt_mod rt)
      in if unat ptr + unat len > length mem then (Err rangeError, rt)
         else (Ret (take (unat len) (drop (unat ptr) mem)), rt))"

definition put :: "u32 \<Rightarrow> byte list \<Rightarrow> ('m wasmRuntime, unit) go" where
  "put ptr data rt =
     (let mem = md_mem (rt_mod rt); n = unat (of_nat (length data) :: u32)
      in if unat ptr + n > length mem then (Err rangeError, rt)
         else (Ret (), rt\<lparr>rt_mod := (rt_mod rt)\<lparr>md_mem :=
                 take (unat ptr) mem @ take n data @ drop (unat ptr + n) mem\<rparr>\<rparr>))"

definition le16 :: "u16 \<Rightarrow> byte list" where
  "le16 v = [ucast v, ucast (drop_bit 8 v)]"

definition le32 :: "u32 \<Rightarrow> byte list" where
  "le32 v = [ucast v, ucast (drop_bit 8 v), ucast (drop_bit 16 v), ucast (drop_bit 24 v)]"

definition fromLe16 :: "byte list \<Rightarrow> u16" where
  "fromLe16 b = ucast (b ! 0) OR push_bit 8 (ucast (b ! 1))"

definition fromLe32 :: "byte list \<Rightarrow> u32" where
  "fromLe32 b = ucast (b ! 0) OR push_bit 8 (ucast (b ! 1)) OR push_bit 16 (ucast (b ! 2)) OR push_bit 24 (ucast (b ! 3))"

definition boolByte :: "bool \<Rightarrow> byte" where
  "boolByte value = (if value then 1 else 0)"

text \<open>A buffer for the duration of the rest of the function: \<open>alloc\<close>, then \<open>defer free\<close>.\<close>

definition withBuf :: "'m exports \<Rightarrow> u32 \<Rightarrow> (u32 \<Rightarrow> ('m wasmRuntime, 'a) go) \<Rightarrow> ('m wasmRuntime, 'a) go" where
  "withBuf X len f = gbind (alloc X len) (\<lambda>ptr. gdefer (wfree X ptr len) (f ptr))"

definition value32 :: "'m exports \<Rightarrow> u32 \<Rightarrow> (u32 \<Rightarrow> ('m wasmRuntime, u32) go) \<Rightarrow> ('m wasmRuntime, unit) go" where
  "value32 X val call =
     withBuf X 4 (\<lambda>ptr. gbind (put ptr (le32 val)) (\<lambda>_. gbind (call ptr) resultError))"

text \<open>Go's \<open>uint\<close> has 64 bits.\<close>

definition wasmUint :: "u64 \<Rightarrow> ('s, u32) go" where
  "wasmUint val = (if uint val > 0xFFFFFFFF then gfail (ghosttyError ResultLimitExceeded) else gret (ucast val))"

definition wasmLength :: "nat \<Rightarrow> ('s, u32) go" where
  "wasmLength n = (if int n > 0xFFFFFFFF then gfail (ghosttyError ResultLimitExceeded) else gret (of_nat n))"

section \<open>The calculus of resources\<close>

definition ranged :: "'a goRes \<Rightarrow> bool" where
  "ranged r = (case r of Ret _ \<Rightarrow> False | Err e \<Rightarrow> errors_Is e rangeError | Panics e \<Rightarrow> errors_Is e rangeError)"

lemma ranged_simps [simp]:
  "\<not> ranged (Ret a)" "ranged (Err e) = errors_Is e rangeError" "ranged (Panics e) = errors_Is e rangeError"
  by (simp_all add: ranged_def)

text \<open>Functions that do not panic.\<close>

definition calm :: "('s, 'a) go \<Rightarrow> bool" where
  "calm f \<longleftrightarrow> (\<forall>s e. fst (f s) \<noteq> Panics e)"

named_theorems calm_rules \<open>functions that do not panic\<close>

lemma calm_basic [calm_rules]: "calm (gret a)" "calm (gfail e)" "calm (resultError r)" "calm (wasmUint v)" "calm (wasmLength n)"
    "calm (acquire x1)" "calm (release x1)" "calm (xcall X x2 args)" "calm (bytes p l)" "calm (put p d)"
  by (simp_all add: calm_def gret_def gfail_def resultError_def wasmUint_def wasmLength_def acquire_def release_def xcall_def
      bytes_def put_def Let_def split: prod.split)

lemma calm_bind [calm_rules]: "calm f \<Longrightarrow> (\<And>a. calm (k a)) \<Longrightarrow> calm (gbind f k)"
  unfolding calm_def gbind_def by (auto split: prod.split goRes.split) (metis fst_conv)+

lemma calm_more [calm_rules]: "calm f \<Longrightarrow> calm (gdefer c f)" "calm f \<Longrightarrow> calm (gonerr f c)" "calm f \<Longrightarrow> calm (gwrap x f)"
    "(b \<Longrightarrow> calm f) \<Longrightarrow> (\<not> b \<Longrightarrow> calm g) \<Longrightarrow> calm (if b then f else g)"
  unfolding calm_def gdefer_def gonerr_def gwrap_def by (auto split: prod.split goRes.split) (metis fst_conv)+

named_theorems uses_rules \<open>resource use of the operations of the bindings\<close>

locale ledger =
  fixes live :: "'s \<Rightarrow> resource multiset" and bad :: "'s \<Rightarrow> bool"
begin

definition uses :: "('s \<Rightarrow> resource multiset) \<Rightarrow> ('s, 'a) go \<Rightarrow> ('a \<Rightarrow> 's \<Rightarrow> resource multiset) \<Rightarrow> ('s \<Rightarrow> resource multiset) \<Rightarrow> bool" where
  "uses I f Q E \<longleftrightarrow>
     (\<forall>s F r s'. f s = (r, s') \<longrightarrow> \<not> bad s \<longrightarrow> live s = I s + F \<longrightarrow>
        ranged r \<or> \<not> bad s' \<and> live s' = (case r of Ret a \<Rightarrow> Q a s' | _ \<Rightarrow> E s') + F)"

lemma usesI:
  assumes "\<And>s F r s'. f s = (r, s') \<Longrightarrow> \<not> bad s \<Longrightarrow> live s = I s + F \<Longrightarrow> \<not> ranged r
    \<Longrightarrow> \<not> bad s' \<and> live s' = (case r of Ret a \<Rightarrow> Q a s' | _ \<Rightarrow> E s') + F"
  shows "uses I f Q E"
  using assms unfolding uses_def by blast

lemma usesD:
  assumes "uses I f Q E" and "f s = (r, s')" and "\<not> bad s" and "live s = I s + F" and "\<not> ranged r"
  shows "\<not> bad s'" and "live s' = (case r of Ret a \<Rightarrow> Q a s' | _ \<Rightarrow> E s') + F"
  using assms unfolding uses_def by blast+

lemma uses_ret: "uses (Q a) (gret a) Q E"
  by (rule usesI) (auto simp: gret_def)

lemma uses_fail: "uses E (gfail e) Q E"
  by (rule usesI) (auto simp: gfail_def)

lemma uses_panic: "uses E (gpanic e) Q E"
  by (rule usesI) (auto simp: gpanic_def)

lemma uses_bind:
  assumes "uses I f Q E" and "\<And>s a s'. f s = (Ret a, s') \<Longrightarrow> uses (Q a) (k a) R E"
  shows "uses I (gbind f k) R E"
proof (rule usesI)
  fix s F r s' assume run: "gbind f k s = (r, s')" and s: "\<not> bad s" "live s = I s + F" and nr: "\<not> ranged r"
  obtain q t where q: "f s = (q, t)" by fastforce
  show "\<not> bad s' \<and> live s' = (case r of Ret a \<Rightarrow> R a s' | _ \<Rightarrow> E s') + F"
  proof (cases q)
    case (Ret a)
    with q run have "k a t = (r, s')" by (simp add: gbind_def)
    with usesD [OF assms(1) q s] Ret usesD [OF assms(2) [of s a t] _ _ _ nr] q show ?thesis by simp
  next
    case (Err e)
    with q run nr have "r = Err e" "s' = t" "\<not> ranged q" by (auto simp: gbind_def)
    with usesD [OF assms(1) q s] Err show ?thesis by simp
  next
    case (Panics e)
    with q run nr have "r = Panics e" "s' = t" "\<not> ranged q" by (auto simp: gbind_def)
    with usesD [OF assms(1) q s] Panics show ?thesis by simp
  qed
qed

lemma uses_frame: "uses I f Q E \<Longrightarrow> uses (\<lambda>s. I s + J) f (\<lambda>a s. Q a s + J) (\<lambda>s. E s + J)"
proof (rule usesI)
  fix s F r s' assume u: "uses I f Q E" and run: "f s = (r, s')" "\<not> bad s" and l: "live s = I s + J + F" and nr: "\<not> ranged r"
  from l have "live s = I s + (J + F)" by (simp add: add.assoc)
  from usesD [OF u run this nr] show "\<not> bad s' \<and> live s' = (case r of Ret a \<Rightarrow> Q a s' + J | _ \<Rightarrow> E s' + J) + F"
    by (cases r) (simp_all add: ac_simps)
qed

text \<open>With fixed resources, and the special case of an operation that has no net effect.\<close>

definition takes :: "resource multiset \<Rightarrow> ('s, 'a) go \<Rightarrow> ('a \<Rightarrow> resource multiset) \<Rightarrow> resource multiset \<Rightarrow> bool" where
  "takes I f Q E \<longleftrightarrow> uses (\<lambda>_. I) f (\<lambda>a _. Q a) (\<lambda>_. E)"

definition keeps :: "('s, 'a) go \<Rightarrow> bool" where
  "keeps f \<longleftrightarrow> takes {#} f (\<lambda>_. {#}) {#}"

definition frees :: "resource multiset \<Rightarrow> ('s, unit) go \<Rightarrow> bool" where
  "frees R f \<longleftrightarrow> (\<forall>s F. \<not> bad s \<longrightarrow> live s = R + F \<longrightarrow> \<not> bad (snd (f s)) \<and> live (snd (f s)) = F)"

lemma takes_ret: "Q a = I \<Longrightarrow> takes I (gret a) Q E"
  unfolding takes_def using uses_ret [of "\<lambda>a _. Q a" a] by simp

lemma takes_fail: "E = I \<Longrightarrow> takes I (gfail e) Q E"
  unfolding takes_def by (simp add: uses_fail)

lemma takes_panic: "E = I \<Longrightarrow> takes I (gpanic e) Q E"
  unfolding takes_def by (simp add: uses_panic)

lemma takes_bind: "takes I f Q E \<Longrightarrow> (\<And>a. takes (Q a) (k a) R E) \<Longrightarrow> takes I (gbind f k) R E"
  unfolding takes_def by (rule uses_bind)

lemma takes_bind_ret:
  "takes I f Q E \<Longrightarrow> (\<And>s a s'. f s = (Ret a, s') \<Longrightarrow> takes (Q a) (k a) R E) \<Longrightarrow> takes I (gbind f k) R E"
  unfolding takes_def by (rule uses_bind)

lemma takes_frame: "takes I f Q E \<Longrightarrow> takes (I + J) f (\<lambda>a. Q a + J) (E + J)"
  unfolding takes_def by (rule uses_frame)

lemma keeps_takes: "keeps f \<Longrightarrow> takes I f (\<lambda>_. I) I"
  unfolding keeps_def using takes_frame [of "{#}" f "\<lambda>_. {#}" "{#}" I] by simp

lemma takes_after: "keeps f \<Longrightarrow> (\<And>a. takes I (k a) R I) \<Longrightarrow> takes I (gbind f k) R I"
  by (rule takes_bind [OF keeps_takes])

lemma keeps_ret [uses_rules]: "keeps (gret a)"
  and keeps_fail [uses_rules]: "keeps (gfail e)"
  and keeps_panic [uses_rules]: "keeps (gpanic e)"
  by (simp_all add: keeps_def takes_ret takes_fail takes_panic)

lemma keeps_bind [uses_rules]: "keeps f \<Longrightarrow> (\<And>a. keeps (k a)) \<Longrightarrow> keeps (gbind f k)"
  unfolding keeps_def by (rule takes_bind)

lemma keeps_if [uses_rules]: "(b \<Longrightarrow> keeps f) \<Longrightarrow> (\<not> b \<Longrightarrow> keeps g) \<Longrightarrow> keeps (if b then f else g)"
  by simp

lemma takes_defer:
  assumes "takes I f (\<lambda>a. R + Q a) (R + E)" and "frees R cleanup"
  shows "takes I (gdefer cleanup f) Q E"
  unfolding takes_def
proof (rule usesI)
  fix s F r s' assume run: "gdefer cleanup f s = (r, s')" and s: "\<not> bad s" "live s = I + F" and nr: "\<not> ranged r"
  obtain t where t: "f s = (r, t)" "s' = snd (cleanup t)" using run by (auto simp: gdefer_def split: prod.splits)
  from usesD [OF assms(1) [unfolded takes_def] t(1) s nr]
  have "\<not> bad t" "live t = R + ((case r of Ret a \<Rightarrow> Q a | _ \<Rightarrow> E) + F)"
    by (cases r; simp add: add.assoc)+
  with assms(2) t(2) show "\<not> bad s' \<and> live s' = (case r of Ret a \<Rightarrow> Q a | _ \<Rightarrow> E) + F" unfolding frees_def by blast
qed

lemma takes_unless:
  assumes "takes I f Q (R + E)" and "frees R cleanup"
  shows "takes I (gunless cleanup f) Q E"
  unfolding takes_def
proof (rule usesI)
  fix s F r s' assume run: "gunless cleanup f s = (r, s')" and s: "\<not> bad s" "live s = I + F" and nr: "\<not> ranged r"
  obtain t where t: "f s = (r, t)" using run by (auto simp: gunless_def split: prod.splits goRes.splits)
  note u = usesD [OF assms(1) [unfolded takes_def] t s nr]
  show "\<not> bad s' \<and> live s' = (case r of Ret a \<Rightarrow> Q a | _ \<Rightarrow> E) + F"
  proof (cases "\<exists>a. r = Ret a")
    case True
    with run t u show ?thesis by (auto simp: gunless_def)
  next
    case False
    with run t have s': "s' = snd (cleanup t)" by (auto simp: gunless_def split: goRes.splits)
    from False u have "\<not> bad t" "live t = R + (E + F)" by (cases r; simp add: add.assoc)+
    with assms(2) s' False show ?thesis unfolding frees_def by (cases r) (auto simp del: union_assoc)
  qed
qed

lemma takes_onerr:
  assumes "takes I f Q (R + E)" and "frees R cleanup" and "calm f"
  shows "takes I (gonerr f cleanup) Q E"
proof -
  have "gonerr f cleanup = gunless cleanup f"
  proof
    fix s show "gonerr f cleanup s = gunless cleanup f s"
      using assms(3) unfolding calm_def gonerr_def gunless_def by (cases "f s") (metis (no_types, lifting) fst_conv goRes.exhaust goRes.simps(10-12) case_prod_conv)
  qed
  with takes_unless [OF assms(1,2)] show ?thesis by simp
qed

lemma takes_wrap: "takes I f Q E \<Longrightarrow> takes I (gwrap ctx f) Q E"
proof -
  assume t: "takes I f Q E"
  show ?thesis unfolding takes_def
  proof (rule usesI)
    fix s F r s' assume run: "gwrap ctx f s = (r, s')" and s: "\<not> bad s" "live s = I + F" and nr: "\<not> ranged r"
    obtain q where q: "f s = (q, s')" "\<not> ranged q" "is_Ret q = is_Ret r" "is_Ret q \<Longrightarrow> r = q"
      using run nr by (auto simp: gwrap_def split: prod.splits goRes.splits)
    from usesD [OF t [unfolded takes_def] q(1) s q(2)] q(3,4)
    show "\<not> bad s' \<and> live s' = (case r of Ret a \<Rightarrow> Q a | _ \<Rightarrow> E) + F" by (cases r; cases q; simp)
  qed
qed

lemma keeps_wrap [uses_rules]: "keeps f \<Longrightarrow> keeps (gwrap ctx f)"
  unfolding keeps_def by (rule takes_wrap)

lemma keeps_must: "keeps f \<Longrightarrow> keeps (gmust f)"
proof -
  assume t: "keeps f"
  show ?thesis unfolding keeps_def takes_def
  proof (rule usesI)
    fix s F r s' assume run: "gmust f s = (r, s')" and s: "\<not> bad s" "live s = {#} + F" and nr: "\<not> ranged r"
    obtain q where q: "f s = (q, s')" "\<not> ranged q"
      using run nr by (auto simp: gmust_def split: prod.splits goRes.splits)
    from usesD [OF t [unfolded keeps_def takes_def] q(1) s q(2)]
    show "\<not> bad s' \<and> live s' = (case r of Ret a \<Rightarrow> {#} | _ \<Rightarrow> {#}) + F" by (cases r; cases q; simp)
  qed
qed

end

interpretation rtl: ledger "rt_live :: 'm wasmRuntime \<Rightarrow> resource multiset" rt_bad .

section \<open>Resource use of the runtime\<close>

definition buf :: "u32 \<Rightarrow> u32 \<Rightarrow> resource multiset" where
  "buf ptr len = (if ptr = 0 then {#} else {#RBuf ptr len#})"

definition handle :: "(u32 \<Rightarrow> resource) \<Rightarrow> u32 \<Rightarrow> resource multiset" where
  "handle kind ptr = (if ptr = 0 then {#} else {#kind ptr#})"

lemma handle_0 [simp]: "handle kind 0 = {#}"
  by (simp add: handle_def)

lemma buf_0 [simp]: "buf 0 len = {#}"
  by (simp add: buf_def)

lemma keeps_xcall [uses_rules]: "rtl.keeps (xcall X x args)"
  unfolding rtl.keeps_def rtl.takes_def by (rule rtl.usesI) (auto simp: xcall_def split: prod.splits)

lemma keeps_resultError [uses_rules]: "rtl.keeps (resultError r)"
  by (simp add: resultError_def rtl.keeps_ret rtl.keeps_fail)

lemma keeps_wasm [uses_rules]: "rtl.keeps (wasmUint v)" "rtl.keeps (wasmLength n)"
  by (simp_all add: wasmUint_def wasmLength_def rtl.keeps_ret rtl.keeps_fail)

lemma keeps_bytes [uses_rules]: "rtl.keeps (bytes p l)"
  unfolding rtl.keeps_def rtl.takes_def by (rule rtl.usesI) (auto simp: bytes_def Let_def split: if_splits)

lemma keeps_mem_put [uses_rules]: "rtl.keeps (put p d)"
  unfolding rtl.keeps_def rtl.takes_def by (rule rtl.usesI) (auto simp: put_def Let_def split: if_splits)

lemma takes_acquire: "Q () = add_mset r I \<Longrightarrow> rtl.takes I (acquire r) Q E"
  unfolding rtl.takes_def by (rule rtl.usesI) (auto simp: acquire_def)

lemma frees_none: "rtl.frees {#} (gret ())"
  by (simp add: rtl.frees_def gret_def)

text \<open>Functions that always return.\<close>

definition total :: "('s, 'a) go \<Rightarrow> bool" where
  "total f \<longleftrightarrow> (\<forall>s. is_Ret (fst (f s)))"

lemma frees_bind:
  assumes "rtl.frees R f" and "total f" and "rtl.frees S g"
  shows "rtl.frees (R + S) (gbind f (\<lambda>_. g))"
  unfolding rtl.frees_def
proof (intro allI impI)
  fix s :: "'a wasmRuntime" and F assume s: "\<not> rt_bad s" "rt_live s = R + S + F"
  obtain t where t: "f s = (Ret (), t)" using assms(2) unfolding total_def by (metis (full_types) is_Ret_def old.unit.exhaust prod.collapse)
  from s have "rt_live s = R + (S + F)" by (simp add: add.assoc)
  with assms(1) s(1) have "\<not> rt_bad (snd (f s)) \<and> rt_live (snd (f s)) = S + F" unfolding rtl.frees_def by blast
  with t assms(3) show "\<not> rt_bad (snd (gbind f (\<lambda>_. g) s)) \<and> rt_live (snd (gbind f (\<lambda>_. g) s)) = F"
    by (simp add: gbind_def rtl.frees_def)
qed

lemma total_basic: "total (gret a)" "total (release r)" "total (xcall X x args)"
  by (simp_all add: total_def gret_def release_def xcall_def split: prod.split)

lemma total_bind: "total f \<Longrightarrow> (\<And>a. total (k a)) \<Longrightarrow> total (gbind f k)"
  unfolding total_def gbind_def by (auto split: prod.split goRes.split) (metis fst_conv goRes.disc(2,3))+

lemma total_wfree: "total (wfree X p n)"
  unfolding wfree_def by (auto intro!: total_basic total_bind)

lemma frees_release: "rtl.frees {#r#} (release r)"
  by (simp add: rtl.frees_def release_def)

lemma frees_call: "rtl.frees R f \<Longrightarrow> rtl.frees R (gbind (xcall X x args) (\<lambda>_. f))"
  by (auto simp: rtl.frees_def gbind_def xcall_def split: prod.split)

lemma frees_wfree: "rtl.frees (buf p n) (wfree X p n)"
  by (auto simp: wfree_def buf_def frees_call [OF frees_release]) (simp add: rtl.frees_def gret_def)

lemma takes_alloc: "rtl.takes {#} (alloc X n) (\<lambda>p. buf p n) {#}"
  unfolding alloc_def
  by (auto intro!: rtl.takes_after uses_rules rtl.takes_ret rtl.takes_fail rtl.takes_bind [OF takes_acquire, OF refl] simp: buf_def)

lemma calm_alloc [calm_rules]: "calm (alloc X n)"
  unfolding alloc_def by (intro calm_rules)

lemma takes_withBuf:
  assumes "\<And>p. rtl.takes (buf p n + I) (f p) (\<lambda>a. buf p n + Q a) (buf p n + I)"
  shows "rtl.takes I (withBuf X n f) Q I"
proof -
  have "rtl.takes I (alloc X n) (\<lambda>p. buf p n + I) I" using rtl.takes_frame [OF takes_alloc, where J = I] by simp
  from rtl.takes_bind [OF this rtl.takes_defer [OF assms frees_wfree]] show ?thesis unfolding withBuf_def .
qed

lemma keeps_withBuf [uses_rules]: "(\<And>p. rtl.keeps (f p)) \<Longrightarrow> rtl.keeps (withBuf X n f)"
  using takes_withBuf [of n "{#}" f "\<lambda>_. {#}" X] rtl.keeps_takes unfolding rtl.keeps_def by auto

lemma calm_withBuf [calm_rules]: "(\<And>p. calm (f p)) \<Longrightarrow> calm (withBuf X n f)"
  unfolding withBuf_def by (intro calm_rules)

lemma keeps_value32 [uses_rules]: "(\<And>p. rtl.keeps (call p)) \<Longrightarrow> rtl.keeps (value32 X v call)"
  unfolding value32_def by (intro uses_rules)

lemma calm_value32 [calm_rules]: "(\<And>p. calm (call p)) \<Longrightarrow> calm (value32 X v call)"
  unfolding value32_def by (intro calm_rules)

lemma takes_opaque:
  assumes "\<And>slot. rtl.keeps (constructor slot)"
  shows "rtl.takes {#} (opaque X kind constructor) (handle kind) {#}"
proof -
  have "rtl.takes ({#ROpaque slot#}) (gbind (constructor slot) (\<lambda>result. gbind (resultError result) (\<lambda>_.
      gbind (xcall X x args) (\<lambda>ptr. if ptr = 0 then gfail (ghosttyError ResultOutOfMemory)
        else gbind (acquire (kind ptr)) (\<lambda>_. gret ptr)))))
      (\<lambda>p. {#ROpaque slot#} + handle kind p) ({#ROpaque slot#} + {#})" for slot x args
    by (auto simp: handle_def intro!: rtl.takes_after uses_rules assms rtl.takes_fail rtl.takes_ret rtl.takes_bind [OF takes_acquire, OF refl])
  from rtl.takes_defer [OF this frees_call [OF frees_release]] show ?thesis
    unfolding opaque_def
    by (auto intro!: rtl.takes_after uses_rules rtl.takes_fail rtl.takes_bind [OF takes_acquire, OF refl])
qed

lemma opaque_nonnull: "opaque X kind constructor s = (Ret p, s') \<Longrightarrow> p \<noteq> 0"
  by (auto simp: opaque_def gbind_def gdefer_def gret_def gfail_def split: prod.splits goRes.splits if_splits)

lemma takes_opaque_bind:
  assumes "\<And>slot. rtl.keeps (constructor slot)" and "\<And>p. p \<noteq> 0 \<Longrightarrow> rtl.takes (handle kind p + I) (k p) Q I"
  shows "rtl.takes I (gbind (opaque X kind constructor) k) Q I"
  using rtl.takes_frame [OF takes_opaque [OF assms(1)], where J = I]
  by (auto intro!: rtl.takes_bind_ret assms(2) dest: opaque_nonnull)

lemma calm_opaque [calm_rules]: "(\<And>slot. calm (constructor slot)) \<Longrightarrow> calm (opaque X kind constructor)"
  unfolding opaque_def by (intro calm_rules)

section \<open>Methods that change their struct\<close>

text \<open>
  \<open>onStruct o I f G Q\<close>: called on the struct \<open>o\<close> with the resources \<open>I\<close>, \<open>f\<close> leaves \<open>Q a o'\<close> when it
  returns \<open>a\<close> and what the struct then owns, \<open>G o'\<close>, when it fails.
\<close>

definition onStruct :: "'o \<Rightarrow> resource multiset \<Rightarrow> ('o \<times> 'm wasmRuntime, 'a) go \<Rightarrow> ('o \<Rightarrow> resource multiset)
    \<Rightarrow> ('a \<Rightarrow> 'o \<Rightarrow> resource multiset) \<Rightarrow> bool" where
  "onStruct obj I f G Q \<longleftrightarrow>
     (\<forall>s F r obj' s'. f (obj, s) = (r, (obj', s')) \<longrightarrow> \<not> rt_bad s \<longrightarrow> rt_live s = I + F \<longrightarrow>
        ranged r \<or> \<not> rt_bad s' \<and> rt_live s' = (case r of Ret a \<Rightarrow> Q a obj' | _ \<Rightarrow> G obj') + F)"

named_theorems method_rules \<open>resource use of methods\<close>

lemma method_get [method_rules]: "onStruct obj I (k obj) G Q \<Longrightarrow> onStruct obj I (gbind getObj k) G Q"
  by (simp add: onStruct_def gbind_def getObj_def)

lemma method_set [method_rules]: "onStruct obj' I (k ()) G Q \<Longrightarrow> onStruct obj I (gbind (setObj obj') k) G Q"
  by (simp add: onStruct_def gbind_def setObj_def)

lemma gbind_assoc: "gbind (gbind f g) k = gbind f (\<lambda>a. gbind (g a) k)"
  by (rule ext) (simp add: gbind_def split: prod.split goRes.split)

lemma method_after_ret [method_rules]: "onStruct obj I (k a) G Q \<Longrightarrow> onStruct obj I (gbind (gret a) k) G Q"
  by (simp add: onStruct_def gbind_def gret_def)

lemma method_ret: "Q a obj = I \<Longrightarrow> onStruct obj I (gret a) G Q"
  by (auto simp: onStruct_def gret_def)

lemma method_setObj: "Q () obj' = I \<Longrightarrow> onStruct obj I (setObj obj') G Q"
  by (auto simp: onStruct_def setObj_def)

lemma method_bind:
  assumes "rtl.takes I f P (G obj)" and "\<And>a. onStruct obj (P a) (k a) G Q"
  shows "onStruct obj I (gbind (onRt f) k) G Q"
  unfolding onStruct_def
proof (intro allI impI)
  fix s F r obj' s' assume run: "gbind (onRt f) k (obj, s) = (r, (obj', s'))" and s: "\<not> rt_bad s" "rt_live s = I + F"
  obtain q t where q: "f s = (q, t)" by fastforce
  note u = rtl.usesD [OF assms(1) [unfolded rtl.takes_def] q s]
  show "ranged r \<or> \<not> rt_bad s' \<and> rt_live s' = (case r of Ret a \<Rightarrow> Q a obj' | _ \<Rightarrow> G obj') + F"
  proof (cases q)
    case (Ret a)
    with run q have "k a (obj, t) = (r, (obj', s'))" by (simp add: gbind_def onRt_def)
    with u Ret assms(2) [of a] show ?thesis by (simp add: onStruct_def)
  next
    case (Err e)
    with run q u show ?thesis by (auto simp: gbind_def onRt_def)
  next
    case (Panics e)
    with run q u show ?thesis by (auto simp: gbind_def onRt_def)
  qed
qed

lemma gbind_gret: "gbind f gret = f"
  by (rule ext) (simp add: gbind_def gret_def split: prod.split goRes.split)

lemma method_onRt: "rtl.takes I f (\<lambda>a. Q a obj) (G obj) \<Longrightarrow> onStruct obj I (onRt f) G Q"
  using method_bind [of I f "\<lambda>a. Q a obj" G obj gret Q] by (simp add: gbind_gret method_ret)

lemma method_keeps: "rtl.keeps f \<Longrightarrow> (\<And>a. onStruct obj (G obj) (k a) G Q) \<Longrightarrow> onStruct obj (G obj) (gbind (onRt f) k) G Q"
  by (rule method_bind [OF rtl.keeps_takes])

text \<open>A local struct with a deferred \<open>Close\<close>.\<close>

lemma takes_scope:
  assumes "onStruct obj I body G (\<lambda>a obj'. G obj' + Q a)" and "\<And>obj'. rtl.frees (G obj') (onLocal obj' close)"
  shows "rtl.takes I (gscope obj close body) Q {#}"
  unfolding rtl.takes_def
proof (rule rtl.usesI)
  fix s F r s' assume run: "gscope obj close body s = (r, s')" and s: "\<not> rt_bad s" "rt_live s = I + F" and nr: "\<not> ranged r"
  obtain obj' t where t: "body (obj, s) = (r, (obj', t))" "s' = snd (onLocal obj' close t)"
    using run by (auto simp: gscope_def onLocal_def split: prod.splits)
  from assms(1) t(1) s nr have "\<not> rt_bad t" "rt_live t = G obj' + ((case r of Ret a \<Rightarrow> Q a | _ \<Rightarrow> {#}) + F)"
    unfolding onStruct_def by (cases r; fastforce simp: add.assoc)+
  with assms(2) [of obj'] t(2) show "\<not> rt_bad s' \<and> rt_live s' = (case r of Ret a \<Rightarrow> Q a | _ \<Rightarrow> {#}) + F"
    unfolding rtl.frees_def by blast
qed

end
