(* ===== verification/Ghostty_Terminal.thy ===== *)
theory Ghostty_Terminal
  imports Ghostty_Runtime
begin

text \<open>
  The bindings \<open>libghostty/terminal.go\<close>, \<open>terminal_data.go\<close>, \<open>grid_ref.go\<close>, \<open>snapshot.go\<close>,
  \<open>formatter.go\<close>, \<open>key_encoder.go\<close> and the methods of \<open>key_event.go\<close>, over the runtime of
  \<open>Ghostty_Runtime\<close>. Every exported function of the module is called with the arguments of the
  source; a struct handed to the module is the byte layout the source writes. The runtime's mutex
  makes every method one atomic step, so methods are sequential functions.
\<close>

section \<open>Terminals\<close>

record terminal =
  tm_ptr :: u32
  tm_feedPtr :: u32

record terminalConfig =
  tc_Cols :: u16
  tc_Rows :: u16
  tc_MaxScrollbackLines :: "u64 option"
  tc_ContinuationMaxBytes :: "u64 option"

type_synonym terminalOption = "terminalConfig \<Rightarrow> terminalConfig"

definition WithSize :: "u16 \<Rightarrow> u16 \<Rightarrow> terminalOption" where
  "WithSize c r cfg = cfg\<lparr>tc_Cols := c, tc_Rows := r\<rparr>"

definition WithMaxScrollbackLines :: "u64 \<Rightarrow> terminalOption" where
  "WithMaxScrollbackLines lines cfg = cfg\<lparr>tc_MaxScrollbackLines := Some lines\<rparr>"

definition WithContinuationMaxBytes :: "u64 \<Rightarrow> terminalOption" where
  "WithContinuationMaxBytes limit cfg = cfg\<lparr>tc_ContinuationMaxBytes := Some limit\<rparr>"

definition terminalOptionScrollbackMaxLines :: u32 where "terminalOptionScrollbackMaxLines = 28"
definition terminalOptionContinuationMaxBytes :: u32 where "terminalOptionContinuationMaxBytes = 31"
definition feedBufferSize :: u32 where "feedBufferSize = 64 * 1024"

definition terminalFree :: "'m exports \<Rightarrow> u32 \<Rightarrow> ('m wasmRuntime, unit) go" where
  "terminalFree X ptr = gbind (xcall X ''ghostty_terminal_free'' [ptr]) (\<lambda>_. release (RTerminal ptr))"

definition wrapTerminalLocked :: "'m exports \<Rightarrow> u32 \<Rightarrow> ('m wasmRuntime, terminal) go" where
  "wrapTerminalLocked X ptr =
     gbind (alloc X feedBufferSize) (\<lambda>feedPtr. gret \<lparr>tm_ptr = ptr, tm_feedPtr = feedPtr\<rparr>)"

definition closeLocked :: "'m exports \<Rightarrow> (terminal \<times> 'm wasmRuntime, unit) go" where
  "closeLocked X =
     gbind getObj (\<lambda>t.
     gbind (if tm_ptr t \<noteq> 0
            then gbind (onRt (terminalFree X (tm_ptr t))) (\<lambda>_. setObj (t\<lparr>tm_ptr := 0\<rparr>))
            else gret ()) (\<lambda>_.
     gbind getObj (\<lambda>t.
     gbind (onRt (wfree X (tm_feedPtr t) feedBufferSize)) (\<lambda>_. setObj (t\<lparr>tm_feedPtr := 0\<rparr>)))))"

definition setContinuationMaxBytesLocked :: "'m exports \<Rightarrow> terminal \<Rightarrow> u64 \<Rightarrow> ('m wasmRuntime, unit) go" where
  "setContinuationMaxBytesLocked X t limit =
     gbind (wasmUint limit) (\<lambda>val.
     value32 X val (\<lambda>ptr. xcall X ''ghostty_terminal_set'' [tm_ptr t, terminalOptionContinuationMaxBytes, ptr]))"

definition setScrollbackMaxLinesLocked :: "'m exports \<Rightarrow> terminal \<Rightarrow> u64 option \<Rightarrow> ('m wasmRuntime, unit) go" where
  "setScrollbackMaxLinesLocked X t limit =
     (case limit of
        None \<Rightarrow> gbind (xcall X ''ghostty_terminal_set'' [tm_ptr t, terminalOptionScrollbackMaxLines, 0]) resultError
      | Some limit \<Rightarrow>
          gbind (wasmUint limit) (\<lambda>val.
          value32 X val (\<lambda>ptr. xcall X ''ghostty_terminal_set'' [tm_ptr t, terminalOptionScrollbackMaxLines, ptr])))"

definition NewTerminal :: "'m exports \<Rightarrow> terminalOption list \<Rightarrow> ('m wasmRuntime, terminal) go" where
  "NewTerminal X opts =
     (let cfg = fold (\<lambda>opt cfg. opt cfg) opts
            \<lparr>tc_Cols = 0, tc_Rows = 0, tc_MaxScrollbackLines = None, tc_ContinuationMaxBytes = None\<rparr>
      in gbind (opaque X RTerminal (\<lambda>slot.
             xcall X ''ghostty_terminal_new'' [0, slot, ucast (tc_Cols cfg), ucast (tc_Rows cfg)])) (\<lambda>ptr.
         gbind (gonerr (wrapTerminalLocked X ptr) (terminalFree X ptr)) (\<lambda>t.
         gbind (case tc_MaxScrollbackLines cfg of
                  None \<Rightarrow> gret ()
                | Some lines \<Rightarrow> gonerr (setScrollbackMaxLinesLocked X t (Some lines)) (onLocal t (closeLocked X))) (\<lambda>_.
         gbind (case tc_ContinuationMaxBytes cfg of
                  None \<Rightarrow> gret ()
                | Some limit \<Rightarrow> gonerr (setContinuationMaxBytesLocked X t limit) (onLocal t (closeLocked X))) (\<lambda>_.
         gret t)))))"

definition terminalReset :: "'m exports \<Rightarrow> terminal \<Rightarrow> ('m wasmRuntime, unit) go" where
  "terminalReset X t = gbind (xcall X ''ghostty_terminal_reset'' [tm_ptr t]) (\<lambda>_. gret ())"

definition terminalResize :: "'m exports \<Rightarrow> terminal \<Rightarrow> u16 \<Rightarrow> u16 \<Rightarrow> u32 \<Rightarrow> u32 \<Rightarrow> ('m wasmRuntime, unit) go" where
  "terminalResize X t c r cellWidthPx cellHeightPx =
     gbind (xcall X ''ghostty_terminal_resize'' [tm_ptr t, ucast c, ucast r, cellWidthPx, cellHeightPx]) resultError"

text \<open>\<open>VTWrite\<close> hands the data over in pieces of the feed buffer's size.\<close>

function VTWrite :: "'m exports \<Rightarrow> terminal \<Rightarrow> byte list \<Rightarrow> ('m wasmRuntime, unit) go" where
  "VTWrite X t data =
     (if data = [] then gret ()
      else let n = nat (min (int (length data)) (uint feedBufferSize))
           in gbind (gmust (put (tm_feedPtr t) (take n data))) (\<lambda>_.
              gbind (xcall X ''ghostty_terminal_vt_write'' [tm_ptr t, tm_feedPtr t, of_nat n]) (\<lambda>_.
              VTWrite X t (drop n data))))"
  by pat_completeness auto

termination
proof (relation "measure (\<lambda>(X, t, data). length data)")
  show "wf (measure (\<lambda>(X, t, data). length data))" by simp
next
  fix X t and data :: "byte list" and x xa xb assume "data \<noteq> []" and "x = nat (min (int (length data)) (uint feedBufferSize))"
  moreover have "0 < uint feedBufferSize" by (simp add: feedBufferSize_def)
  ultimately show "((X, t, drop x data), (X, t, data)) \<in> measure (\<lambda>(X, t, data). length data)" by simp
qed

declare VTWrite.simps [simp del]

section \<open>Terminal data\<close>

definition terminalDataCols :: u32 where "terminalDataCols = 1"
definition terminalDataRows :: u32 where "terminalDataRows = 2"
definition terminalDataCursorX :: u32 where "terminalDataCursorX = 3"
definition terminalDataCursorY :: u32 where "terminalDataCursorY = 4"
definition terminalDataActiveScreen :: u32 where "terminalDataActiveScreen = 6"
definition terminalDataPwd :: u32 where "terminalDataPwd = 13"
definition terminalDataVTGround :: u32 where "terminalDataVTGround = 38"

definition ScreenAlternate :: u32 where "ScreenAlternate = 1"

definition terminalGet :: "'m exports \<Rightarrow> terminal \<Rightarrow> u32 \<Rightarrow> u32 \<Rightarrow> ('m wasmRuntime, byte list) go" where
  "terminalGet X t data width =
     withBuf X width (\<lambda>ptr.
       gbind (xcall X ''ghostty_terminal_get'' [tm_ptr t, data, ptr]) (\<lambda>result.
       gbind (resultError result) (\<lambda>_. bytes ptr width)))"

definition getUint16 :: "'m exports \<Rightarrow> terminal \<Rightarrow> u32 \<Rightarrow> ('m wasmRuntime, u16) go" where
  "getUint16 X t data = gbind (terminalGet X t data 2) (\<lambda>b. gret (fromLe16 b))"

definition getUint32Locked :: "'m exports \<Rightarrow> terminal \<Rightarrow> u32 \<Rightarrow> ('m wasmRuntime, u32) go" where
  "getUint32Locked X t data = gbind (terminalGet X t data 4) (\<lambda>b. gret (fromLe32 b))"

definition terminalCols :: "'m exports \<Rightarrow> terminal \<Rightarrow> ('m wasmRuntime, u16) go" where
  "terminalCols X t = getUint16 X t terminalDataCols"

definition terminalRows :: "'m exports \<Rightarrow> terminal \<Rightarrow> ('m wasmRuntime, u16) go" where
  "terminalRows X t = getUint16 X t terminalDataRows"

definition CursorX :: "'m exports \<Rightarrow> terminal \<Rightarrow> ('m wasmRuntime, u16) go" where
  "CursorX X t = getUint16 X t terminalDataCursorX"

definition CursorY :: "'m exports \<Rightarrow> terminal \<Rightarrow> ('m wasmRuntime, u16) go" where
  "CursorY X t = getUint16 X t terminalDataCursorY"

definition ActiveScreen :: "'m exports \<Rightarrow> terminal \<Rightarrow> ('m wasmRuntime, u32) go" where
  "ActiveScreen X t = getUint32Locked X t terminalDataActiveScreen"

definition Pwd :: "'m exports \<Rightarrow> terminal \<Rightarrow> ('m wasmRuntime, string) go" where
  "Pwd X t =
     withBuf X 8 (\<lambda>ptr.
       gbind (xcall X ''ghostty_terminal_get'' [tm_ptr t, terminalDataPwd, ptr]) (\<lambda>result.
         if result = ResultNoValue then gret []
         else gbind (resultError result) (\<lambda>_.
              gbind (bytes ptr 8) (\<lambda>val.
              gbind (bytes (fromLe32 val) (fromLe32 (drop 4 val))) (\<lambda>data.
              gret (string_of_bytes data))))))"

definition VTGround :: "'m exports \<Rightarrow> terminal \<Rightarrow> ('m wasmRuntime, bool) go" where
  "VTGround X t = gbind (terminalGet X t terminalDataVTGround 1) (\<lambda>b. gret (b ! 0 \<noteq> 0))"

section \<open>Grid references\<close>

definition PointTagActive :: u32 where "PointTagActive = 0"
definition pointSize :: u32 where "pointSize = 24"
definition gridRefSize :: u32 where "gridRefSize = 12"

record point =
  pt_Tag :: u32
  pt_X :: u16
  pt_Y :: u32

definition pointBytes :: "point \<Rightarrow> byte list" where
  "pointBytes p = le32 (pt_Tag p) @ replicate 4 0 @ le16 (pt_X p) @ replicate 2 0 @ le32 (pt_Y p) @ replicate 8 0"

definition GridRef :: "'m exports \<Rightarrow> terminal \<Rightarrow> point \<Rightarrow> ('m wasmRuntime, byte list) go" where
  "GridRef X t pt =
     withBuf X pointSize (\<lambda>pointPtr.
       gbind (put pointPtr (pointBytes pt)) (\<lambda>_.
       withBuf X gridRefSize (\<lambda>refPtr.
         gbind (put refPtr (le32 gridRefSize @ replicate 8 0)) (\<lambda>_.
         gbind (xcall X ''ghostty_terminal_grid_ref'' [tm_ptr t, pointPtr, refPtr]) (\<lambda>result.
         gbind (resultError result) (\<lambda>_. bytes refPtr gridRefSize))))))"

section \<open>Snapshots\<close>

text \<open>The module allocated the output and wrote its address and length to \<open>slot\<close>.\<close>

definition takeOutput :: "'m exports \<Rightarrow> u32 \<Rightarrow> u32 \<Rightarrow> ('m wasmRuntime, byte list) go" where
  "takeOutput X slot result =
     gbind (resultError result) (\<lambda>_.
     gbind (bytes slot 8) (\<lambda>output.
       let ptr = fromLe32 output; len = fromLe32 (drop 4 output)
       in gbind (acquire (ROut ptr len)) (\<lambda>_.
          gdefer (gbind (xcall X ''ghostty_free'' [0, ptr, len]) (\<lambda>_. release (ROut ptr len))) (bytes ptr len))))"

definition Snapshot :: "'m exports \<Rightarrow> terminal \<Rightarrow> ('m wasmRuntime, byte list) go" where
  "Snapshot X t =
     withBuf X 8 (\<lambda>outputSlot.
       gbind (xcall X ''ghostty_snapshot_encode_alloc'' [tm_ptr t, 0, outputSlot, outputSlot + 4]) (takeOutput X outputSlot))"

record snapshotDecoder =
  sd_ptr :: u32
  sd_sourcePtr :: u32
  sd_sourceLen :: u32

definition newSnapshotDecoderBytes :: "'m exports \<Rightarrow> byte list \<Rightarrow> ('m wasmRuntime, snapshotDecoder) go" where
  "newSnapshotDecoderBytes X data =
     gbind (wasmLength (length data)) (\<lambda>len.
     gbind (alloc X len) (\<lambda>sourcePtr.
     gbind (gonerr (put sourcePtr data) (wfree X sourcePtr len)) (\<lambda>_.
     gbind (gonerr (opaque X RDecoder (\<lambda>slot. xcall X ''ghostty_snapshot_decoder_new_buf'' [0, slot, sourcePtr, len]))
              (wfree X sourcePtr len)) (\<lambda>ptr.
     gret \<lparr>sd_ptr = ptr, sd_sourcePtr = sourcePtr, sd_sourceLen = len\<rparr>))))"

definition releaseSourceLocked :: "'m exports \<Rightarrow> (snapshotDecoder \<times> 'm wasmRuntime, unit) go" where
  "releaseSourceLocked X =
     gbind getObj (\<lambda>d.
     gbind (onRt (wfree X (sd_sourcePtr d) (sd_sourceLen d))) (\<lambda>_. setObj (d\<lparr>sd_sourcePtr := 0, sd_sourceLen := 0\<rparr>)))"

definition closeDecoder :: "'m exports \<Rightarrow> (snapshotDecoder \<times> 'm wasmRuntime, unit) go" where
  "closeDecoder X =
     gbind getObj (\<lambda>d.
     gbind (if sd_ptr d \<noteq> 0
            then gbind (onRt (gbind (xcall X ''ghostty_snapshot_decoder_free'' [sd_ptr d]) (\<lambda>_. release (RDecoder (sd_ptr d)))))
                   (\<lambda>_. setObj (d\<lparr>sd_ptr := 0\<rparr>))
            else gret ()) (\<lambda>_.
     releaseSourceLocked X))"

definition SetMaxContinuationBytes :: "'m exports \<Rightarrow> u64 \<Rightarrow> (snapshotDecoder \<times> 'm wasmRuntime, unit) go" where
  "SetMaxContinuationBytes X limit =
     gbind getObj (\<lambda>d.
     onRt (gbind (wasmUint limit) (\<lambda>val.
       value32 X val (\<lambda>ptr. xcall X ''ghostty_snapshot_decoder_set'' [sd_ptr d, 0, ptr]))))"

definition SetRetainContinuation :: "'m exports \<Rightarrow> bool \<Rightarrow> (snapshotDecoder \<times> 'm wasmRuntime, unit) go" where
  "SetRetainContinuation X retain =
     gbind getObj (\<lambda>d.
     onRt (withBuf X 1 (\<lambda>ptr.
       gbind (put ptr [boolByte retain]) (\<lambda>_.
       gbind (xcall X ''ghostty_snapshot_decoder_set'' [sd_ptr d, 1, ptr]) resultError))))"

definition Decode :: "'m exports \<Rightarrow> (snapshotDecoder \<times> 'm wasmRuntime, terminal) go" where
  "Decode X =
     gbind getObj (\<lambda>d.
     gbind (onRt (opaque X RTerminal (\<lambda>slot. xcall X ''ghostty_snapshot_decoder_decode'' [sd_ptr d, slot]))) (\<lambda>ptr.
     gbind (onRt (gonerr (wrapTerminalLocked X ptr) (terminalFree X ptr))) (\<lambda>t.
     gbind (releaseSourceLocked X) (\<lambda>_. gret t))))"

section \<open>Resource use\<close>

definition own_terminal :: "terminal \<Rightarrow> resource multiset" where
  "own_terminal t = handle RTerminal (tm_ptr t) + buf (tm_feedPtr t) feedBufferSize"

definition own_decoder :: "snapshotDecoder \<Rightarrow> resource multiset" where
  "own_decoder d = handle RDecoder (sd_ptr d) + buf (sd_sourcePtr d) (sd_sourceLen d)"

lemma frees_handle:
  "rtl.frees (handle kind p) (if p \<noteq> 0 then gbind (xcall X x args) (\<lambda>_. release (kind p)) else gret ())"
  by (simp add: handle_def frees_none frees_call frees_release)

lemma onLocal_bind_get: "onLocal obj (gbind getObj k) = onLocal obj (k obj)"
  by (rule ext) (simp add: onLocal_def gbind_def getObj_def)

lemma onLocal_closeLocked:
  "onLocal t (closeLocked X) = gbind (if tm_ptr t \<noteq> 0 then gbind (xcall X ''ghostty_terminal_free'' [tm_ptr t]) (\<lambda>_. release (RTerminal (tm_ptr t)))
       else gret ()) (\<lambda>_. wfree X (tm_feedPtr t) feedBufferSize)"
  by (rule ext) (simp add: onLocal_def closeLocked_def gbind_def getObj_def setObj_def onRt_def terminalFree_def gret_def xcall_def
      release_def wfree_def split: prod.split)

lemma total_handle: "total (if p \<noteq> 0 then gbind (xcall X x args) (\<lambda>_. release r) else gret ())"
  by (auto intro!: total_basic total_bind)

lemma frees_closeLocked: "rtl.frees (own_terminal t) (onLocal t (closeLocked X))"
  unfolding onLocal_closeLocked own_terminal_def by (rule frees_bind [OF frees_handle total_handle frees_wfree])

lemma onLocal_closeDecoder:
  "onLocal d (closeDecoder X) = gbind (if sd_ptr d \<noteq> 0 then gbind (xcall X ''ghostty_snapshot_decoder_free'' [sd_ptr d]) (\<lambda>_. release (RDecoder (sd_ptr d)))
       else gret ()) (\<lambda>_. wfree X (sd_sourcePtr d) (sd_sourceLen d))"
  by (rule ext) (simp add: onLocal_def closeDecoder_def releaseSourceLocked_def gbind_def getObj_def setObj_def onRt_def gret_def xcall_def
      release_def wfree_def split: prod.split)

lemma frees_closeDecoder: "rtl.frees (own_decoder d) (onLocal d (closeDecoder X))"
  unfolding onLocal_closeDecoder own_decoder_def by (rule frees_bind [OF frees_handle total_handle frees_wfree])

lemma calm_terminal [calm_rules]: "calm (wrapTerminalLocked X p)" "calm (setContinuationMaxBytesLocked X t limit)"
    "calm (setScrollbackMaxLinesLocked X t lim)"
  unfolding wrapTerminalLocked_def setContinuationMaxBytesLocked_def setScrollbackMaxLinesLocked_def
  by (cases lim; auto intro!: calm_rules)+

lemma keeps_set [uses_rules]: "rtl.keeps (setContinuationMaxBytesLocked X t limit)" "rtl.keeps (setScrollbackMaxLinesLocked X t lim)"
  unfolding setContinuationMaxBytesLocked_def setScrollbackMaxLinesLocked_def
  by (cases lim; auto intro!: uses_rules)+

lemma frees_terminalFree: "p \<noteq> 0 \<Longrightarrow> rtl.frees (handle RTerminal p) (terminalFree X p)"
  by (simp add: terminalFree_def handle_def frees_call frees_release)

lemma takes_wrapped:
  assumes "p \<noteq> 0"
  shows "rtl.takes (handle RTerminal p) (gonerr (wrapTerminalLocked X p) (terminalFree X p)) own_terminal {#}"
proof (rule rtl.takes_onerr [OF _ frees_terminalFree [OF assms] calm_terminal(1)])
  have "rtl.takes (handle RTerminal p) (alloc X feedBufferSize) (\<lambda>q. handle RTerminal p + buf q feedBufferSize) (handle RTerminal p + {#})"
    using rtl.takes_frame [OF takes_alloc, where J = "handle RTerminal p"] by (simp add: add.commute)
  then show "rtl.takes (handle RTerminal p) (wrapTerminalLocked X p) own_terminal (handle RTerminal p + {#})"
    unfolding wrapTerminalLocked_def by (rule rtl.takes_bind) (simp add: rtl.takes_ret own_terminal_def)
qed

text \<open>A call that gives its terminal up on error.\<close>

lemma takes_or_close: "rtl.keeps f \<Longrightarrow> calm f \<Longrightarrow> rtl.takes (own_terminal t) (gonerr f (onLocal t (closeLocked X))) (\<lambda>_. own_terminal t) {#}"
  using rtl.takes_onerr [OF _ frees_closeLocked, of "own_terminal t" f "\<lambda>_. own_terminal t" t "{#}"] rtl.keeps_takes by auto

lemma takes_optional:
  "(\<And>l. rtl.keeps (f l)) \<Longrightarrow> (\<And>l. calm (f l)) \<Longrightarrow>
    rtl.takes (own_terminal t) (case m of None \<Rightarrow> gret () | Some l \<Rightarrow> gonerr (f l) (onLocal t (closeLocked X))) (\<lambda>_. own_terminal t) {#}"
  by (cases m) (simp_all add: takes_or_close rtl.takes_ret)

lemma takes_NewTerminal: "rtl.takes {#} (NewTerminal X opts) own_terminal {#}"
  unfolding NewTerminal_def Let_def
proof (rule takes_opaque_bind)
  fix p :: u32 assume "p \<noteq> 0"
  then show "rtl.takes (handle RTerminal p + {#}) (gbind (gonerr (wrapTerminalLocked X p) (terminalFree X p)) (\<lambda>t.
      gbind (case m of None \<Rightarrow> gret () | Some l \<Rightarrow> gonerr (setScrollbackMaxLinesLocked X t (Some l)) (onLocal t (closeLocked X))) (\<lambda>_.
      gbind (case c of None \<Rightarrow> gret () | Some l \<Rightarrow> gonerr (setContinuationMaxBytesLocked X t l) (onLocal t (closeLocked X))) (\<lambda>_.
      gret t)))) own_terminal {#}" for m c
    by (auto intro!: rtl.takes_bind [OF takes_wrapped] rtl.takes_bind [OF takes_optional] rtl.takes_ret uses_rules calm_rules)
qed (intro uses_rules)

lemma keeps_terminalGet [uses_rules]: "rtl.keeps (terminalGet X t d n)"
  unfolding terminalGet_def by (intro uses_rules)

lemma keeps_data [uses_rules]: "rtl.keeps (terminalCols X t)" "rtl.keeps (terminalRows X t)" "rtl.keeps (CursorX X t)" "rtl.keeps (CursorY X t)"
    "rtl.keeps (ActiveScreen X t)" "rtl.keeps (VTGround X t)" "rtl.keeps (Pwd X t)" "rtl.keeps (GridRef X t pt)"
    "rtl.keeps (terminalResize X t c r w h)" "rtl.keeps (terminalReset X t)"
  unfolding terminalCols_def terminalRows_def CursorX_def CursorY_def ActiveScreen_def VTGround_def Pwd_def GridRef_def terminalResize_def
    terminalReset_def getUint16_def getUint32Locked_def
  by (intro uses_rules)+

lemma keeps_VTWrite [uses_rules]: "rtl.keeps (VTWrite X t data)"
proof (induction X t data rule: VTWrite.induct)
  case (1 X t data)
  show ?case
  proof (cases "data = []")
    case True
    then show ?thesis by (simp add: VTWrite.simps rtl.keeps_ret)
  next
    case False
    show ?thesis
      unfolding VTWrite.simps [of X t data] Let_def
      by (simp add: False) (intro uses_rules rtl.keeps_must, rule 1 [OF False refl])
  qed
qed

lemma keeps_takeOutput [uses_rules]: "rtl.keeps (takeOutput X slot r)"
proof -
  have "rtl.takes {#} (gbind (acquire (ROut p n)) (\<lambda>_. gdefer (gbind (xcall X ''ghostty_free'' [0, p, n]) (\<lambda>_. release (ROut p n))) (bytes p n)))
      (\<lambda>_. {#}) {#}" for p n
    by (rule rtl.takes_bind [OF takes_acquire, where Q = "\<lambda>_. {#ROut p n#}"])
      (auto intro!: rtl.takes_defer [where R = "{#ROut p n#}"] frees_call frees_release simp: rtl.keeps_takes keeps_bytes)
  then have "rtl.keeps (gbind (acquire (ROut p n)) (\<lambda>_. gdefer (gbind (xcall X ''ghostty_free'' [0, p, n]) (\<lambda>_. release (ROut p n))) (bytes p n)))" for p n
    by (simp add: rtl.keeps_def)
  then show ?thesis unfolding takeOutput_def Let_def by (intro rtl.keeps_bind [OF keeps_resultError] rtl.keeps_bind [OF keeps_bytes])
qed

lemma keeps_Snapshot [uses_rules]: "rtl.keeps (Snapshot X t)"
  unfolding Snapshot_def by (intro uses_rules)

lemma takes_newDecoder: "rtl.takes {#} (newSnapshotDecoderBytes X data) own_decoder {#}"
proof -
  have "rtl.takes (buf p n) (gonerr (opaque X RDecoder (\<lambda>slot. xcall X x (args slot))) (wfree X p n)) (\<lambda>d. own_decoder \<lparr>sd_ptr = d, sd_sourcePtr = p, sd_sourceLen = n\<rparr>) {#}" for p n x args
  proof (rule rtl.takes_onerr [where R = "buf p n"])
    show "rtl.takes (buf p n) (opaque X RDecoder (\<lambda>slot. xcall X x (args slot)))
        (\<lambda>d. own_decoder \<lparr>sd_ptr = d, sd_sourcePtr = p, sd_sourceLen = n\<rparr>) (buf p n + {#})"
      using rtl.takes_frame [OF takes_opaque [OF keeps_xcall], where J = "buf p n"] by (simp add: own_decoder_def)
  qed (simp_all add: frees_wfree calm_rules)
  moreover have "rtl.takes (buf p n) (gonerr (put p data) (wfree X p n)) (\<lambda>_. buf p n) {#}" for p n
    by (rule rtl.takes_onerr [where R = "buf p n"]) (simp_all add: rtl.keeps_takes keeps_mem_put frees_wfree calm_rules)
  ultimately show ?thesis unfolding newSnapshotDecoderBytes_def
    by (intro rtl.takes_after uses_rules rtl.takes_bind [OF takes_alloc]) (auto intro!: rtl.takes_bind rtl.takes_ret)
qed

text \<open>The decoder keeps what it owns; a decoded terminal owns its own resources.\<close>

lemma method_seq:
  assumes "onStruct obj I f G P" and "\<And>a obj. onStruct obj (P a obj) (k a) G Q"
  shows "onStruct obj I (gbind f k) G Q"
  unfolding onStruct_def
proof (intro allI impI)
  fix s F r obj' s' assume run: "gbind f k (obj, s) = (r, (obj', s'))" and s: "\<not> rt_bad s" "rt_live s = I + F"
  obtain q o1 s1 where q: "f (obj, s) = (q, (o1, s1))" by (metis prod.exhaust)
  with assms(1) s have u: "ranged q \<or> \<not> rt_bad s1 \<and> rt_live s1 = (case q of Ret a \<Rightarrow> P a o1 | _ \<Rightarrow> G o1) + F"
    unfolding onStruct_def by blast
  show "ranged r \<or> \<not> rt_bad s' \<and> rt_live s' = (case r of Ret a \<Rightarrow> Q a obj' | _ \<Rightarrow> G obj') + F"
  proof (cases q)
    case (Ret a)
    with run q have "k a (o1, s1) = (r, (obj', s'))" by (simp add: gbind_def)
    with assms(2) [of o1 a] u Ret show ?thesis by (simp add: onStruct_def)
  qed (use run q u in \<open>auto simp: gbind_def\<close>)
qed

lemma method_bind_method:
  assumes "\<And>obj. onStruct obj (G obj) f G (\<lambda>_. G)" and "\<And>a obj. onStruct obj (G obj) (k a) G Q"
  shows "onStruct obj (G obj) (gbind f k) G Q"
  by (rule method_seq [OF assms])

lemma method_decoder_set:
  "onStruct d (own_decoder d) (SetMaxContinuationBytes X limit) own_decoder (\<lambda>_. own_decoder)"
  "onStruct d (own_decoder d) (SetRetainContinuation X retain) own_decoder (\<lambda>_. own_decoder)"
  unfolding SetMaxContinuationBytes_def SetRetainContinuation_def
  by (intro method_get method_onRt rtl.keeps_takes uses_rules)+

lemma method_Decode: "onStruct d (own_decoder d) (Decode X) own_decoder (\<lambda>t d'. own_decoder d' + own_terminal t)"
proof -
  have wrap: "rtl.takes {#} (gbind (opaque X RTerminal (\<lambda>slot. xcall X x (args slot))) (\<lambda>p. gonerr (wrapTerminalLocked X p) (terminalFree X p)))
      own_terminal {#}" for x args
    by (rule takes_opaque_bind) (auto intro!: uses_rules simp: takes_wrapped)
  have join: "gbind (onRt f) (\<lambda>p. gbind (onRt (g p)) k) = gbind (onRt (gbind f g)) k" for f g and k :: "terminal \<Rightarrow> (snapshotDecoder \<times> 'a wasmRuntime, terminal) go"
    by (rule ext) (simp add: gbind_def onRt_def split: prod.split goRes.split)
  have src: "rtl.takes (own_decoder d + own_terminal t) (wfree X (sd_sourcePtr d) (sd_sourceLen d))
      (\<lambda>_. own_decoder (d\<lparr>sd_sourcePtr := 0, sd_sourceLen := 0\<rparr>) + own_terminal t) E" for t E
    unfolding rtl.takes_def
  proof (rule rtl.usesI)
    fix s F r s' assume run: "wfree X (sd_sourcePtr d) (sd_sourceLen d) s = (r, s')" and s: "\<not> rt_bad s" "rt_live s = own_decoder d + own_terminal t + F"
    have "\<exists>a. r = Ret a" using run total_wfree [of X "sd_sourcePtr d" "sd_sourceLen d"] unfolding total_def by (metis fst_conv is_Ret_def)
    moreover have "rt_live s = buf (sd_sourcePtr d) (sd_sourceLen d) + (handle RDecoder (sd_ptr d) + own_terminal t + F)"
      using s(2) by (simp add: own_decoder_def ac_simps)
    ultimately show "\<not> rt_bad s' \<and> rt_live s' = (case r of Ret a \<Rightarrow> own_decoder (d\<lparr>sd_sourcePtr := 0, sd_sourceLen := 0\<rparr>) + own_terminal t | _ \<Rightarrow> E) + F"
      using frees_wfree [of "sd_sourcePtr d" "sd_sourceLen d" X] s(1) run unfolding rtl.frees_def by (fastforce simp: own_decoder_def)
  qed
  have "rtl.takes (own_decoder d) (gbind (opaque X RTerminal (\<lambda>slot. xcall X ''ghostty_snapshot_decoder_decode'' [sd_ptr d, slot]))
      (\<lambda>p. gonerr (wrapTerminalLocked X p) (terminalFree X p))) (\<lambda>t. own_decoder d + own_terminal t) (own_decoder d)"
    using rtl.takes_frame [OF wrap, where J = "own_decoder d"] by (simp add: add.commute)
  then show ?thesis unfolding Decode_def releaseSourceLocked_def
    by (intro method_get) (simp add: join, rule method_bind, assumption,
        simp only: gbind_assoc, intro method_get method_bind [OF src] method_set method_ret refl)
qed

end
