(* ===== verification/Ghostty_Objects.thy ===== *)
theory Ghostty_Objects
  imports Ghostty_Terminal
begin

text \<open>
  Formatters and key encoding: \<open>libghostty/formatter.go\<close>, \<open>key_encoder.go\<close> and the methods of
  \<open>key_event.go\<close>. An option of a formatter is a function on its settings, as in the source; the
  settings reach the module as a 40-byte struct.
\<close>

section \<open>Formatters\<close>

definition formatterOptionsSize :: u32 where "formatterOptionsSize = 40"
definition formatterExtraSize :: u32 where "formatterExtraSize = 24"
definition formatterScreenSize :: u32 where "formatterScreenSize = 12"
definition selectionSize :: u32 where "selectionSize = 32"

record selection =
  sl_Start :: "byte list"
  sl_End :: "byte list"
  sl_Rectangle :: bool

record formatterOpts =
  fo_format :: nat
  fo_unwrap :: bool
  fo_trim :: bool
  fo_selection :: "selection option"
  fo_palette :: bool
  fo_modes :: bool
  fo_scrolling :: bool
  fo_tabstops :: bool
  fo_pwd :: bool
  fo_keyboard :: bool
  fo_cursor :: bool
  fo_style :: bool
  fo_hyperlink :: bool
  fo_protection :: bool
  fo_kittyKeyboard :: bool
  fo_charsets :: bool

type_synonym formatterOption = "formatterOpts \<Rightarrow> formatterOpts"

definition WithFormatterFormat :: "nat \<Rightarrow> formatterOption" where
  "WithFormatterFormat v opts = opts\<lparr>fo_format := v\<rparr>"
definition WithFormatterUnwrap :: "bool \<Rightarrow> formatterOption" where
  "WithFormatterUnwrap v opts = opts\<lparr>fo_unwrap := v\<rparr>"
definition WithFormatterTrim :: "bool \<Rightarrow> formatterOption" where
  "WithFormatterTrim v opts = opts\<lparr>fo_trim := v\<rparr>"
definition WithFormatterSelection :: "selection \<Rightarrow> formatterOption" where
  "WithFormatterSelection v opts = opts\<lparr>fo_selection := Some v\<rparr>"
definition WithFormatterExtraPalette :: "bool \<Rightarrow> formatterOption" where
  "WithFormatterExtraPalette v opts = opts\<lparr>fo_palette := v\<rparr>"
definition WithFormatterExtraModes :: "bool \<Rightarrow> formatterOption" where
  "WithFormatterExtraModes v opts = opts\<lparr>fo_modes := v\<rparr>"
definition WithFormatterExtraScrollingRegion :: "bool \<Rightarrow> formatterOption" where
  "WithFormatterExtraScrollingRegion v opts = opts\<lparr>fo_scrolling := v\<rparr>"
definition WithFormatterExtraTabstops :: "bool \<Rightarrow> formatterOption" where
  "WithFormatterExtraTabstops v opts = opts\<lparr>fo_tabstops := v\<rparr>"
definition WithFormatterExtraPwd :: "bool \<Rightarrow> formatterOption" where
  "WithFormatterExtraPwd v opts = opts\<lparr>fo_pwd := v\<rparr>"
definition WithFormatterExtraKeyboard :: "bool \<Rightarrow> formatterOption" where
  "WithFormatterExtraKeyboard v opts = opts\<lparr>fo_keyboard := v\<rparr>"
definition WithFormatterExtraCursor :: "bool \<Rightarrow> formatterOption" where
  "WithFormatterExtraCursor v opts = opts\<lparr>fo_cursor := v\<rparr>"
definition WithFormatterExtraStyle :: "bool \<Rightarrow> formatterOption" where
  "WithFormatterExtraStyle v opts = opts\<lparr>fo_style := v\<rparr>"
definition WithFormatterExtraHyperlink :: "bool \<Rightarrow> formatterOption" where
  "WithFormatterExtraHyperlink v opts = opts\<lparr>fo_hyperlink := v\<rparr>"
definition WithFormatterExtraProtection :: "bool \<Rightarrow> formatterOption" where
  "WithFormatterExtraProtection v opts = opts\<lparr>fo_protection := v\<rparr>"
definition WithFormatterExtraKittyKeyboard :: "bool \<Rightarrow> formatterOption" where
  "WithFormatterExtraKittyKeyboard v opts = opts\<lparr>fo_kittyKeyboard := v\<rparr>"
definition WithFormatterExtraCharsets :: "bool \<Rightarrow> formatterOption" where
  "WithFormatterExtraCharsets v opts = opts\<lparr>fo_charsets := v\<rparr>"

definition formatterOptsOf :: "formatterOption list \<Rightarrow> formatterOpts" where
  "formatterOptsOf options = fold (\<lambda>option opts. option opts) options
     \<lparr>fo_format = 0, fo_unwrap = False, fo_trim = False, fo_selection = None, fo_palette = False, fo_modes = False,
      fo_scrolling = False, fo_tabstops = False, fo_pwd = False, fo_keyboard = False, fo_cursor = False, fo_style = False,
      fo_hyperlink = False, fo_protection = False, fo_kittyKeyboard = False, fo_charsets = False\<rparr>"

text \<open>The struct before the selection's address is written at offset 36.\<close>

definition formatterBytes :: "formatterOpts \<Rightarrow> byte list" where
  "formatterBytes opts =
     le32 formatterOptionsSize @ le32 (of_nat (fo_format opts))
     @ [boolByte (fo_unwrap opts), boolByte (fo_trim opts), 0, 0]
     @ le32 formatterExtraSize
     @ [boolByte (fo_palette opts), boolByte (fo_modes opts), boolByte (fo_scrolling opts), boolByte (fo_tabstops opts),
        boolByte (fo_pwd opts), boolByte (fo_keyboard opts), 0, 0]
     @ le32 formatterScreenSize
     @ [boolByte (fo_cursor opts), boolByte (fo_style opts), boolByte (fo_hyperlink opts), boolByte (fo_protection opts),
        boolByte (fo_kittyKeyboard opts), boolByte (fo_charsets opts), 0, 0]
     @ [0, 0, 0, 0]"

definition selectionBytes :: "selection \<Rightarrow> byte list" where
  "selectionBytes sel =
     le32 selectionSize @ take 12 (sl_Start sel @ replicate 12 0) @ take 12 (sl_End sel @ replicate 12 0)
     @ [boolByte (sl_Rectangle sel), 0, 0, 0]"

record formatter = fm_ptr :: u32

definition NewFormatter :: "'m exports \<Rightarrow> terminal \<Rightarrow> formatterOption list \<Rightarrow> ('m wasmRuntime, formatter) go" where
  "NewFormatter X t options =
     (let opts = formatterOptsOf options
      in withBuf X formatterOptionsSize (\<lambda>optionsPtr.
           gbind (put optionsPtr (formatterBytes opts)) (\<lambda>_.
           let create = gbind (opaque X RFormatter (\<lambda>slot.
                  xcall X ''ghostty_formatter_terminal_new'' [0, slot, tm_ptr t, optionsPtr])) (\<lambda>ptr. gret \<lparr>fm_ptr = ptr\<rparr>)
           in case fo_selection opts of
                None \<Rightarrow> create
              | Some sel \<Rightarrow>
                  withBuf X selectionSize (\<lambda>selectionPtr.
                    gbind (put selectionPtr (selectionBytes sel)) (\<lambda>_.
                    gbind (bytes optionsPtr formatterOptionsSize) (\<lambda>data.
                    gbind (put optionsPtr (take 36 data @ le32 selectionPtr)) (\<lambda>_.
                    create)))))))"

definition closeFormatter :: "'m exports \<Rightarrow> (formatter \<times> 'm wasmRuntime, unit) go" where
  "closeFormatter X =
     gbind getObj (\<lambda>f.
       if fm_ptr f = 0 then gret ()
       else gbind (onRt (gbind (xcall X ''ghostty_formatter_free'' [fm_ptr f]) (\<lambda>_. release (RFormatter (fm_ptr f)))))
              (\<lambda>_. setObj (f\<lparr>fm_ptr := 0\<rparr>)))"

definition Format :: "'m exports \<Rightarrow> formatter \<Rightarrow> ('m wasmRuntime, byte list) go" where
  "Format X f =
     withBuf X 8 (\<lambda>outPtrSlot.
       gbind (xcall X ''ghostty_formatter_format_alloc'' [fm_ptr f, 0, outPtrSlot, outPtrSlot + 4]) (takeOutput X outPtrSlot))"

text \<open>\<open>FormatBuf\<close> returns a count and an error together; the buffer is the argument and a result.\<close>

definition FormatBuf :: "'m exports \<Rightarrow> formatter \<Rightarrow> byte list \<Rightarrow> ('m wasmRuntime, u32 \<times> u32 \<times> byte list) go" where
  "FormatBuf X f target =
     gbind (wasmLength (length target)) (\<lambda>len.
       let body = (\<lambda>ptr. withBuf X 4 (\<lambda>writtenPtr.
             gbind (xcall X ''ghostty_formatter_format_buf'' [fm_ptr f, ptr, len, writtenPtr]) (\<lambda>result.
             gbind (bytes writtenPtr 4) (\<lambda>writtenData.
               let written = fromLe32 writtenData
               in if result = ResultSuccess \<and> written > 0
                  then gbind (bytes ptr written) (\<lambda>data.
                         let n = min (length target) (length data)
                         in gret (written, result, take n data @ drop n target))
                  else gret (written, result, target)))))
       in if target \<noteq> [] then withBuf X len body else body 0)"

section \<open>Key encoders\<close>

record keyEncoder = kn_ptr :: u32

definition NewKeyEncoder :: "'m exports \<Rightarrow> ('m wasmRuntime, keyEncoder) go" where
  "NewKeyEncoder X =
     gbind (opaque X RKeyEncoder (\<lambda>slot. xcall X ''ghostty_key_encoder_new'' [0, slot])) (\<lambda>ptr. gret \<lparr>kn_ptr = ptr\<rparr>)"

definition closeKeyEncoder :: "'m exports \<Rightarrow> (keyEncoder \<times> 'm wasmRuntime, unit) go" where
  "closeKeyEncoder X =
     gbind getObj (\<lambda>enc.
       if kn_ptr enc = 0 then gret ()
       else gbind (onRt (gbind (xcall X ''ghostty_key_encoder_free'' [kn_ptr enc]) (\<lambda>_. release (RKeyEncoder (kn_ptr enc)))))
              (\<lambda>_. setObj (enc\<lparr>kn_ptr := 0\<rparr>)))"

definition SetOptFromTerminal :: "'m exports \<Rightarrow> keyEncoder \<Rightarrow> terminal \<Rightarrow> ('m wasmRuntime, unit) go" where
  "SetOptFromTerminal X enc t =
     gbind (xcall X ''ghostty_key_encoder_setopt_from_terminal'' [kn_ptr enc, tm_ptr t]) (\<lambda>_. gret ())"

text \<open>The option setters: a value in a buffer of its width; they panic when the module has no memory.\<close>

definition setOpt :: "'m exports \<Rightarrow> keyEncoder \<Rightarrow> u32 \<Rightarrow> byte list \<Rightarrow> ('m wasmRuntime, unit) go" where
  "setOpt X enc option val =
     gmust (withBuf X (of_nat (length val)) (\<lambda>ptr.
       gbind (put ptr val) (\<lambda>_.
       gbind (xcall X ''ghostty_key_encoder_setopt'' [kn_ptr enc, option, ptr]) (\<lambda>_. gret ()))))"

definition SetOptBool :: "'m exports \<Rightarrow> keyEncoder \<Rightarrow> u32 \<Rightarrow> bool \<Rightarrow> ('m wasmRuntime, unit) go" where
  "SetOptBool X enc option val = setOpt X enc option [boolByte val]"

definition SetOptKittyFlags :: "'m exports \<Rightarrow> keyEncoder \<Rightarrow> u8 \<Rightarrow> ('m wasmRuntime, unit) go" where
  "SetOptKittyFlags X enc flags = setOpt X enc 5 [flags]"

definition SetOptOptionAsAlt :: "'m exports \<Rightarrow> keyEncoder \<Rightarrow> u32 \<Rightarrow> ('m wasmRuntime, unit) go" where
  "SetOptOptionAsAlt X enc val = setOpt X enc 6 (le32 val)"

section \<open>Key events\<close>

record keyEventObj =
  kv_ptr :: u32
  kv_utf8Ptr :: u32
  kv_utf8Len :: u32

definition NewKeyEvent :: "'m exports \<Rightarrow> ('m wasmRuntime, keyEventObj) go" where
  "NewKeyEvent X =
     gbind (opaque X RKeyEvent (\<lambda>slot. xcall X ''ghostty_key_event_new'' [0, slot]))
       (\<lambda>ptr. gret \<lparr>kv_ptr = ptr, kv_utf8Ptr = 0, kv_utf8Len = 0\<rparr>)"

definition closeKeyEvent :: "'m exports \<Rightarrow> (keyEventObj \<times> 'm wasmRuntime, unit) go" where
  "closeKeyEvent X =
     gbind getObj (\<lambda>e.
       if kv_ptr e = 0 then gret ()
       else gbind (onRt (gbind (xcall X ''ghostty_key_event_free'' [kv_ptr e]) (\<lambda>_. release (RKeyEvent (kv_ptr e))))) (\<lambda>_.
            gbind (onRt (wfree X (kv_utf8Ptr e) (kv_utf8Len e))) (\<lambda>_.
            setObj \<lparr>kv_ptr = 0, kv_utf8Ptr = 0, kv_utf8Len = 0\<rparr>)))"

text \<open>The setters that only pass a number on.\<close>

definition eventSet :: "'m exports \<Rightarrow> string \<Rightarrow> u32 \<Rightarrow> (keyEventObj \<times> 'm wasmRuntime, unit) go" where
  "eventSet X export val =
     gbind getObj (\<lambda>e. onRt (gbind (xcall X export [kv_ptr e, val]) (\<lambda>_. gret ())))"

definition SetAction :: "'m exports \<Rightarrow> u32 \<Rightarrow> (keyEventObj \<times> 'm wasmRuntime, unit) go" where
  "SetAction X = eventSet X ''ghostty_key_event_set_action''"
definition SetKey :: "'m exports \<Rightarrow> u32 \<Rightarrow> (keyEventObj \<times> 'm wasmRuntime, unit) go" where
  "SetKey X = eventSet X ''ghostty_key_event_set_key''"
definition SetMods :: "'m exports \<Rightarrow> u16 \<Rightarrow> (keyEventObj \<times> 'm wasmRuntime, unit) go" where
  "SetMods X mods = eventSet X ''ghostty_key_event_set_mods'' (ucast mods)"
definition SetConsumedMods :: "'m exports \<Rightarrow> u16 \<Rightarrow> (keyEventObj \<times> 'm wasmRuntime, unit) go" where
  "SetConsumedMods X mods = eventSet X ''ghostty_key_event_set_consumed_mods'' (ucast mods)"
definition SetComposing :: "'m exports \<Rightarrow> bool \<Rightarrow> (keyEventObj \<times> 'm wasmRuntime, unit) go" where
  "SetComposing X composing = eventSet X ''ghostty_key_event_set_composing'' (ucast (boolByte composing))"
definition SetUnshiftedCodepoint :: "'m exports \<Rightarrow> u32 \<Rightarrow> (keyEventObj \<times> 'm wasmRuntime, unit) go" where
  "SetUnshiftedCodepoint X = eventSet X ''ghostty_key_event_set_unshifted_codepoint''"

definition SetUTF8 :: "'m exports \<Rightarrow> string \<Rightarrow> (keyEventObj \<times> 'm wasmRuntime, unit) go" where
  "SetUTF8 X val =
     gbind getObj (\<lambda>e.
     gbind (onRt (wfree X (kv_utf8Ptr e) (kv_utf8Len e))) (\<lambda>_.
     gbind (setObj (e\<lparr>kv_utf8Ptr := 0, kv_utf8Len := 0\<rparr>)) (\<lambda>_.
     gbind (if val \<noteq> []
            then gbind (onRt (gmust (wasmLength (length val)))) (\<lambda>len.
                 gbind (onRt (gmust (alloc X len))) (\<lambda>ptr.
                 gbind (onRt (gmust (put ptr (bytes_of_string val)))) (\<lambda>_.
                 setObj (e\<lparr>kv_utf8Ptr := ptr, kv_utf8Len := len\<rparr>))))
            else gret ()) (\<lambda>_.
     gbind getObj (\<lambda>e.
     onRt (gbind (xcall X ''ghostty_key_event_set_utf8'' [kv_ptr e, kv_utf8Ptr e, kv_utf8Len e]) (\<lambda>_. gret ())))))))"

text \<open>\<open>Encode\<close>: the buffer that the deferred call frees is a pair of local variables, its address and length.\<close>

definition encodeInto :: "'m exports \<Rightarrow> keyEncoder \<Rightarrow> keyEventObj \<Rightarrow> u32 \<Rightarrow> ((u32 \<times> u32) \<times> 'm wasmRuntime, u32 \<times> u32) go" where
  "encodeInto X enc event lengthPtr =
     gbind getObj (\<lambda>b.
     gbind (onRt (xcall X ''ghostty_key_encoder_encode'' [kn_ptr enc, kv_ptr event, fst b, snd b, lengthPtr])) (\<lambda>result.
     gbind (onRt (bytes lengthPtr 4)) (\<lambda>lengthData. gret (result, fromLe32 lengthData))))"

text \<open>The second attempt, with a buffer of the length the module asked for.\<close>

definition encodeRetry :: "'m exports \<Rightarrow> keyEncoder \<Rightarrow> keyEventObj \<Rightarrow> u32 \<Rightarrow> u32 \<Rightarrow> ((u32 \<times> u32) \<times> 'm wasmRuntime, u32 \<times> u32) go" where
  "encodeRetry X enc event lengthPtr len =
     gbind getObj (\<lambda>b.
     gbind (onRt (wfree X (fst b) (snd b))) (\<lambda>_.
     gbind (setObj (0, len)) (\<lambda>_.
     gbind (onRt (alloc X len)) (\<lambda>bufferPtr.
     gbind (setObj (bufferPtr, len)) (\<lambda>_.
     encodeInto X enc event lengthPtr)))))"

definition freeBuffer :: "'m exports \<Rightarrow> ((u32 \<times> u32) \<times> 'm wasmRuntime, unit) go" where
  "freeBuffer X = gbind getObj (\<lambda>b. onRt (wfree X (fst b) (snd b)))"

definition Encode :: "'m exports \<Rightarrow> keyEncoder \<Rightarrow> keyEventObj \<Rightarrow> ('m wasmRuntime, byte list) go" where
  "Encode X enc event =
     withBuf X 4 (\<lambda>lengthPtr.
     gbind (alloc X 128) (\<lambda>bufferPtr.
     gscope (bufferPtr, 128) (freeBuffer X)
       (gbind (encodeInto X enc event lengthPtr) (\<lambda>first.
        gbind (if fst first = ResultOutOfSpace then encodeRetry X enc event lengthPtr (snd first) else gret first) (\<lambda>last.
        gbind (resultError (fst last)) (\<lambda>_.
        gbind getObj (\<lambda>b. onRt (bytes (fst b) (snd last)))))))))"

section \<open>Resource use\<close>

definition own_formatter :: "formatter \<Rightarrow> resource multiset" where
  "own_formatter f = handle RFormatter (fm_ptr f)"

definition own_encoder :: "keyEncoder \<Rightarrow> resource multiset" where
  "own_encoder enc = handle RKeyEncoder (kn_ptr enc)"

definition own_event :: "keyEventObj \<Rightarrow> resource multiset" where
  "own_event e = handle RKeyEvent (kv_ptr e) + buf (kv_utf8Ptr e) (kv_utf8Len e)"

lemma frees_closeFormatter: "rtl.frees (own_formatter f) (onLocal f (closeFormatter X))"
proof -
  have "onLocal f (closeFormatter X) = (if fm_ptr f \<noteq> 0 then gbind (xcall X ''ghostty_formatter_free'' [fm_ptr f]) (\<lambda>_. release (RFormatter (fm_ptr f))) else gret ())"
    by (rule ext) (simp add: onLocal_def closeFormatter_def gbind_def getObj_def setObj_def onRt_def gret_def xcall_def release_def split: prod.split)
  then show ?thesis by (simp only: own_formatter_def frees_handle)
qed

lemma frees_closeKeyEncoder: "rtl.frees (own_encoder enc) (onLocal enc (closeKeyEncoder X))"
proof -
  have "onLocal enc (closeKeyEncoder X) = (if kn_ptr enc \<noteq> 0 then gbind (xcall X ''ghostty_key_encoder_free'' [kn_ptr enc]) (\<lambda>_. release (RKeyEncoder (kn_ptr enc))) else gret ())"
    by (rule ext) (simp add: onLocal_def closeKeyEncoder_def gbind_def getObj_def setObj_def onRt_def gret_def xcall_def release_def split: prod.split)
  then show ?thesis by (simp only: own_encoder_def frees_handle)
qed

lemma frees_closeKeyEvent:
  assumes "kv_ptr e \<noteq> 0"
  shows "rtl.frees (own_event e) (onLocal e (closeKeyEvent X))"
proof -
  have "onLocal e (closeKeyEvent X) = gbind (if kv_ptr e \<noteq> 0 then gbind (xcall X ''ghostty_key_event_free'' [kv_ptr e]) (\<lambda>_. release (RKeyEvent (kv_ptr e))) else gret ())
      (\<lambda>_. wfree X (kv_utf8Ptr e) (kv_utf8Len e))"
    using assms by (intro ext) (simp add: onLocal_def closeKeyEvent_def gbind_def getObj_def setObj_def onRt_def gret_def xcall_def release_def wfree_def split: prod.split)
  then show ?thesis unfolding own_event_def using frees_bind [OF frees_handle total_handle frees_wfree] by metis
qed

lemma takes_create:
  assumes "\<And>p. own (mk p) = handle kind p"
  shows "rtl.takes I (gbind (opaque X kind (\<lambda>slot. xcall X x (args slot))) (\<lambda>p. gret (mk p))) (\<lambda>obj. own obj + I) I"
  by (rule takes_opaque_bind) (auto intro!: uses_rules rtl.takes_ret simp: assms)

lemma own_new: "own_formatter \<lparr>fm_ptr = p\<rparr> = handle RFormatter p" "own_encoder \<lparr>kn_ptr = p\<rparr> = handle RKeyEncoder p"
    "own_event \<lparr>kv_ptr = p, kv_utf8Ptr = 0, kv_utf8Len = 0\<rparr> = handle RKeyEvent p"
  by (simp_all add: own_formatter_def own_encoder_def own_event_def)

lemma takes_NewFormatter: "rtl.takes {#} (NewFormatter X t options) own_formatter {#}"
proof -
  have create: "rtl.takes I (gbind (opaque X RFormatter (\<lambda>slot. xcall X x (args slot))) (\<lambda>p. gret \<lparr>fm_ptr = p\<rparr>)) (\<lambda>f. I + own_formatter f) I" for I x args
    using takes_create [where own = own_formatter and mk = "\<lambda>p. \<lparr>fm_ptr = p\<rparr>", OF own_new(1), of I X x args] by (simp add: add.commute)
  have inner: "rtl.takes (buf q n + I) (gbind (opaque X RFormatter (\<lambda>slot. xcall X x (args slot))) (\<lambda>p. gret \<lparr>fm_ptr = p\<rparr>))
      (\<lambda>f. buf q n + (I + own_formatter f)) (buf q n + I)" for I q n x args
    using create [of "buf q n + I"] by (simp add: add.assoc)
  have nested: "rtl.takes I (withBuf X n (\<lambda>q. gbind (put q d) (\<lambda>_. gbind (bytes p m) (\<lambda>data. gbind (put p (h q data)) (\<lambda>_.
      gbind (opaque X RFormatter (\<lambda>slot. xcall X x (args slot))) (\<lambda>p. gret \<lparr>fm_ptr = p\<rparr>)))))) (\<lambda>f. I + own_formatter f) I" for I n d p m h x args
    by (rule takes_withBuf) (intro rtl.takes_after [OF keeps_mem_put] rtl.takes_after [OF keeps_bytes] inner)
  show ?thesis unfolding NewFormatter_def Let_def
    by (rule takes_withBuf, rule rtl.takes_after [OF keeps_mem_put]) (cases "fo_selection (formatterOptsOf options)"; simp add: create nested)
qed

lemma keeps_format [uses_rules]: "rtl.keeps (Format X f)" "rtl.keeps (FormatBuf X f b)"
  unfolding Format_def FormatBuf_def Let_def by (intro uses_rules)+

lemma takes_NewKeyEncoder: "rtl.takes {#} (NewKeyEncoder X) own_encoder {#}"
  using takes_create [where own = own_encoder and mk = "\<lambda>p. \<lparr>kn_ptr = p\<rparr>", OF own_new(2), of "{#}"] by (simp add: NewKeyEncoder_def)

lemma takes_NewKeyEvent: "rtl.takes {#} (NewKeyEvent X) own_event {#}"
  using takes_create [where own = own_event and mk = "\<lambda>p. \<lparr>kv_ptr = p, kv_utf8Ptr = 0, kv_utf8Len = 0\<rparr>", OF own_new(3), of "{#}"] by (simp add: NewKeyEvent_def)

lemma NewKeyEvent_nonnull: "NewKeyEvent X s = (Ret e, s') \<Longrightarrow> kv_ptr e \<noteq> 0"
  by (auto simp: NewKeyEvent_def gbind_def gret_def dest: opaque_nonnull split: prod.splits goRes.splits)

lemma calm_keys [calm_rules]: "calm (NewKeyEncoder X)" "calm (NewKeyEvent X)"
  unfolding NewKeyEncoder_def NewKeyEvent_def by (intro calm_rules)+

lemma keeps_setopts [uses_rules]: "rtl.keeps (SetOptFromTerminal X enc t)" "rtl.keeps (SetOptBool X enc opt b)"
    "rtl.keeps (SetOptKittyFlags X enc fl)" "rtl.keeps (SetOptOptionAsAlt X enc v)"
  unfolding SetOptFromTerminal_def SetOptBool_def SetOptKittyFlags_def SetOptOptionAsAlt_def setOpt_def
  by (intro uses_rules rtl.keeps_must)+

lemma method_eventSet: "onStruct e (own_event e) (eventSet X x v) own_event (\<lambda>_. own_event)"
  unfolding eventSet_def by (intro method_get method_onRt rtl.keeps_takes uses_rules)

text \<open>Freeing a buffer and going on.\<close>

lemma takes_wfree: "rtl.takes (buf p n + I) (wfree X p n) (\<lambda>_. I) E"
  unfolding rtl.takes_def
proof (rule rtl.usesI)
  fix s F r s' assume run: "wfree X p n s = (r, s')" and s: "\<not> rt_bad s" "rt_live s = buf p n + I + F"
  have "\<exists>a. r = Ret a" using run total_wfree [of X p n] unfolding total_def by (metis fst_conv is_Ret_def)
  moreover from s(2) have "rt_live s = buf p n + (I + F)" by (simp add: add.assoc)
  ultimately show "\<not> rt_bad s' \<and> rt_live s' = (case r of Ret a \<Rightarrow> I | _ \<Rightarrow> E) + F"
    using frees_wfree [of p n X] s(1) run unfolding rtl.frees_def by fastforce
qed

lemma takes_must: "rtl.takes I f Q E \<Longrightarrow> rtl.takes I (gmust f) Q E"
proof -
  assume t: "rtl.takes I f Q E"
  show ?thesis unfolding rtl.takes_def
  proof (rule rtl.usesI)
    fix s F r s' assume run: "gmust f s = (r, s')" and s: "\<not> rt_bad s" "rt_live s = I + F" and nr: "\<not> ranged r"
    obtain q where q: "f s = (q, s')" "\<not> ranged q" "q = r \<or> \<not> is_Ret q \<and> \<not> is_Ret r"
      using run nr by (auto simp: gmust_def split: prod.splits goRes.splits)
    from rtl.usesD [OF t [unfolded rtl.takes_def] q(1) s q(2)] q(3)
    show "\<not> rt_bad s' \<and> rt_live s' = (case r of Ret a \<Rightarrow> Q a | _ \<Rightarrow> E) + F" by (cases r; cases q; simp)
  qed
qed

lemma takes_put_must: "rtl.takes I (gmust (put p d)) (\<lambda>_. I) E"
  unfolding rtl.takes_def by (rule rtl.usesI) (auto simp: gmust_def put_def Let_def rangeError_def split: if_splits)

lemma method_SetUTF8: "onStruct e (own_event e) (SetUTF8 X val) own_event (\<lambda>_. own_event)"
proof -
  let ?h = "handle RKeyEvent (kv_ptr e)"
  have free: "rtl.takes (own_event e) (wfree X (kv_utf8Ptr e) (kv_utf8Len e)) (\<lambda>_. ?h) E" for E
    using takes_wfree [of "kv_utf8Ptr e" "kv_utf8Len e" ?h X E] by (simp add: own_event_def add.commute)
  have new: "rtl.takes ?h (gmust (alloc X n)) (\<lambda>p. ?h + buf p n) ?h" for n
    using takes_must [OF rtl.takes_frame [OF takes_alloc], where J1 = ?h] by (simp add: add.commute)
  have own: "own_event (e\<lparr>kv_utf8Ptr := 0, kv_utf8Len := 0\<rparr>) = ?h" "own_event (e\<lparr>kv_utf8Ptr := p, kv_utf8Len := n\<rparr>) = ?h + buf p n" for p n
    by (simp_all add: own_event_def)
  have last: "onStruct e' (own_event e') (gbind getObj (\<lambda>e. onRt (gbind (xcall X ''ghostty_key_event_set_utf8'' [kv_ptr e, kv_utf8Ptr e, kv_utf8Len e]) (\<lambda>_. gret ()))))
      own_event (\<lambda>_. own_event)" for e'
    by (intro method_get method_onRt rtl.keeps_takes uses_rules)
  show ?thesis
  proof (cases "val = []")
    case True
    then show ?thesis unfolding SetUTF8_def
      by simp (rule method_get, rule method_bind [OF free], rule method_set, rule method_after_ret,
          use last [of "e\<lparr>kv_utf8Ptr := 0, kv_utf8Len := 0\<rparr>"] own in simp)
  next
    case False
    let ?e0 = "e\<lparr>kv_utf8Ptr := 0, kv_utf8Len := 0\<rparr>"
    have len: "rtl.takes ?h (gmust (wasmLength n)) (\<lambda>_. ?h) ?h" for n
      by (rule rtl.keeps_takes) (intro rtl.keeps_must uses_rules)
    have "onStruct ?e0 ?h (gbind (onRt (gmust (wasmLength (length val)))) (\<lambda>len. gbind (onRt (gmust (alloc X len))) (\<lambda>ptr.
        gbind (onRt (gmust (put ptr (bytes_of_string val)))) (\<lambda>_. gbind (setObj (e\<lparr>kv_utf8Ptr := ptr, kv_utf8Len := len\<rparr>)) (\<lambda>_.
        gbind getObj (\<lambda>e. onRt (gbind (xcall X ''ghostty_key_event_set_utf8'' [kv_ptr e, kv_utf8Ptr e, kv_utf8Len e]) (\<lambda>_. gret ()))))))))
        own_event (\<lambda>_. own_event)"
    proof (rule method_bind [where P = "\<lambda>_. ?h"])
      fix n :: u32
      show "onStruct ?e0 ?h (gbind (onRt (gmust (alloc X n))) (\<lambda>ptr. gbind (onRt (gmust (put ptr (bytes_of_string val)))) (\<lambda>_.
          gbind (setObj (e\<lparr>kv_utf8Ptr := ptr, kv_utf8Len := n\<rparr>)) (\<lambda>_.
          gbind getObj (\<lambda>e. onRt (gbind (xcall X ''ghostty_key_event_set_utf8'' [kv_ptr e, kv_utf8Ptr e, kv_utf8Len e]) (\<lambda>_. gret ())))))))
          own_event (\<lambda>_. own_event)"
      proof (rule method_bind [where P = "\<lambda>p. ?h + buf p n"])
        show "rtl.takes ?h (gmust (alloc X n)) (\<lambda>p. ?h + buf p n) (own_event ?e0)" by (simp only: own(1) new)
      next
        fix p
        show "onStruct ?e0 (?h + buf p n) (gbind (onRt (gmust (put p (bytes_of_string val)))) (\<lambda>_.
          gbind (setObj (e\<lparr>kv_utf8Ptr := p, kv_utf8Len := n\<rparr>)) (\<lambda>_.
          gbind getObj (\<lambda>e. onRt (gbind (xcall X ''ghostty_key_event_set_utf8'' [kv_ptr e, kv_utf8Ptr e, kv_utf8Len e]) (\<lambda>_. gret ()))))))
          own_event (\<lambda>_. own_event)"
          by (rule method_bind [OF takes_put_must], rule method_set, rule last [of "e\<lparr>kv_utf8Ptr := p, kv_utf8Len := n\<rparr>", unfolded own(2)])
      qed
    qed (simp only: own(1) len)
    with False show ?thesis unfolding SetUTF8_def
      by simp (rule method_get, rule method_bind [OF free], rule method_set, simp only: gbind_assoc)
  qed
qed

lemma SetUTF8_ptr: "SetUTF8 X val (e, s) = (r, (e', s')) \<Longrightarrow> kv_ptr e' = kv_ptr e"
  by (auto simp: SetUTF8_def gbind_def getObj_def setObj_def onRt_def gret_def split: prod.splits goRes.splits if_splits)

definition own_buffer :: "u32 \<times> u32 \<Rightarrow> resource multiset" where
  "own_buffer b = buf (fst b) (snd b)"

lemma method_encodeInto: "onStruct b (own_buffer b) (encodeInto X enc event lp) own_buffer (\<lambda>_. own_buffer)"
  unfolding encodeInto_def by (intro method_get method_bind [OF rtl.keeps_takes] uses_rules method_ret refl)

lemma method_encodeRetry: "onStruct b (own_buffer b) (encodeRetry X enc event lp len) own_buffer (\<lambda>_. own_buffer)"
proof -
  have free: "rtl.takes (own_buffer b) (wfree X (fst b) (snd b)) (\<lambda>_. {#}) E" for E
    using takes_wfree [of "fst b" "snd b" "{#}"] by (simp add: own_buffer_def)
  have into: "onStruct (p, len) (buf p len) (encodeInto X enc event lp) own_buffer (\<lambda>_. own_buffer)" for p
    using method_encodeInto [of "(p, len)"] by (simp add: own_buffer_def)
  have new: "rtl.takes {#} (alloc X len) (\<lambda>p. buf p len) (own_buffer (0, len))" by (simp add: own_buffer_def takes_alloc)
  show ?thesis unfolding encodeRetry_def
    by (rule method_get, rule method_bind [OF free], rule method_set, rule method_bind [where obj = "(0, len)" and G = own_buffer, OF new], rule method_set, rule into)
qed

lemma method_resultError: "onStruct obj (G obj) (resultError r) G (\<lambda>_. G)"
  by (auto simp: resultError_def onStruct_def gret_def gfail_def)

lemma frees_freeBuffer: "rtl.frees (own_buffer b) (onLocal b (freeBuffer X))"
proof -
  have "onLocal b (freeBuffer X) = wfree X (fst b) (snd b)"
    by (rule ext) (simp add: freeBuffer_def onLocal_def gbind_def getObj_def onRt_def split_beta)
  then show ?thesis by (simp add: frees_wfree own_buffer_def)
qed

lemma keeps_Encode [uses_rules]: "rtl.keeps (Encode X enc event)"
proof -
  let ?last = "\<lambda>lp r. gbind (resultError (fst r)) (\<lambda>_. gbind getObj (\<lambda>b. onRt (bytes (fst b) (snd r))))"
  let ?retry = "\<lambda>lp r. if fst r = ResultOutOfSpace then encodeRetry X enc event lp (snd r) else gret r"
  have final: "onStruct b (own_buffer b) (gbind getObj (\<lambda>b. onRt (bytes (fst b) len))) own_buffer (\<lambda>_. own_buffer)" for b len
    by (intro method_get method_onRt rtl.keeps_takes uses_rules)
  have retry: "onStruct b (own_buffer b) (?retry lp r) own_buffer (\<lambda>_. own_buffer)" for b lp r
    by (simp add: method_encodeRetry method_ret)
  have body: "onStruct b (own_buffer b) (gbind (encodeInto X enc event lp) (\<lambda>r. gbind (?retry lp r) (?last lp))) own_buffer (\<lambda>_. own_buffer)" for b lp
    by (intro method_bind_method method_encodeInto retry method_resultError final)
  have "rtl.takes (buf p 128) (gscope (p, 128) (freeBuffer X) (gbind (encodeInto X enc event lp) (\<lambda>r. gbind (?retry lp r) (?last lp)))) (\<lambda>_. {#}) {#}" for p lp
  proof (rule takes_scope [where G = own_buffer, OF _ frees_freeBuffer])
    have e: "own_buffer (p, 128) = buf p 128" by (simp add: own_buffer_def)
    show "onStruct (p, 128) (buf p 128) (gbind (encodeInto X enc event lp) (\<lambda>r. gbind (?retry lp r) (?last lp))) own_buffer (\<lambda>a b. own_buffer b + {#})"
      using body [of "(p, 128)" lp, unfolded e] by (simp only: add_0_right)
  qed
  then show ?thesis unfolding Encode_def
    by (intro keeps_withBuf) (auto simp: rtl.keeps_def intro!: rtl.takes_bind [OF takes_alloc])
qed

end
