(* ===== verification/Terminal_State.thy ===== *)
theory Terminal_State
  imports Ghostty_Objects Terminal_Keys Session_Clients State_File
begin

text \<open>
  \<open>internal/daemon/terminal_state.go\<close>: a session's terminal over the bindings. Creating, restoring,
  dumping, snapshotting, key encoding and closing are sequences of calls into the module, with
  the error handling and the deferred closes of the source. \<open>url.Parse\<close> is the parameter \<open>urlParse\<close>:
  scheme and path of a URL, or an error.
\<close>

section \<open>The state and its operations\<close>

record terminalState =
  ts_term :: terminal
  ts_keyEncoder :: keyEncoder
  ts_keyEvent :: keyEventObj

definition continuationMaxBytes :: u64 where "continuationMaxBytes = 65 * 2 ^ 20"

definition wrapTerminalState :: "'m exports \<Rightarrow> terminal \<Rightarrow> ('m wasmRuntime, terminalState) go" where
  "wrapTerminalState X term =
     gbind (gonerr (NewKeyEncoder X) (onLocal term (closeLocked X))) (\<lambda>encoder.
     gbind (gonerr (NewKeyEvent X)
              (gbind (onLocal encoder (closeKeyEncoder X)) (\<lambda>_. onLocal term (closeLocked X)))) (\<lambda>event.
     gret \<lparr>ts_term = term, ts_keyEncoder = encoder, ts_keyEvent = event\<rparr>))"

definition newTerminalState :: "'m exports \<Rightarrow> u32 \<Rightarrow> u32 \<Rightarrow> u32 \<Rightarrow> ('m wasmRuntime, terminalState) go" where
  "newTerminalState X c r scrollback =
     gbind (NewTerminal X [WithSize (ucast c) (ucast r), WithMaxScrollbackLines (ucast scrollback),
                           WithContinuationMaxBytes continuationMaxBytes]) (wrapTerminalState X)"

definition tsFeed :: "'m exports \<Rightarrow> terminalState \<Rightarrow> byte list \<Rightarrow> ('m wasmRuntime, unit) go" where
  "tsFeed X t data = VTWrite X (ts_term t) data"

definition tsResize :: "'m exports \<Rightarrow> terminalState \<Rightarrow> u32 \<Rightarrow> u32 \<Rightarrow> ('m wasmRuntime, unit) go" where
  "tsResize X t c r = terminalResize X (ts_term t) (ucast c) (ucast r) 0 0"

text \<open>The options \<open>dumpScreen\<close> collects; \<open>sel\<close> is the active screen when only that is dumped.\<close>

definition dumpOptions :: "terminalFormat \<Rightarrow> selection option \<Rightarrow> formatterOption list" where
  "dumpOptions format sel =
     [WithFormatterFormat (tf_emit format), WithFormatterUnwrap (tf_unwrap format), WithFormatterTrim True]
     @ (case sel of None \<Rightarrow> [] | Some s \<Rightarrow> [WithFormatterSelection s])
     @ (if tf_emit format = FormatterFormatHTML then [WithFormatterExtraPalette True] else [])
     @ (if tf_full format
        then [WithFormatterExtraModes True, WithFormatterExtraScrollingRegion True, WithFormatterExtraPwd True,
              WithFormatterExtraKeyboard True, WithFormatterExtraCursor True, WithFormatterExtraStyle True,
              WithFormatterExtraHyperlink True, WithFormatterExtraProtection True, WithFormatterExtraKittyKeyboard True,
              WithFormatterExtraCharsets True]
        else [])"

definition activeSelection :: "'m exports \<Rightarrow> terminal \<Rightarrow> ('m wasmRuntime, selection) go" where
  "activeSelection X term =
     gbind (terminalCols X term) (\<lambda>c.
     gbind (terminalRows X term) (\<lambda>r.
     gbind (GridRef X term \<lparr>pt_Tag = PointTagActive, pt_X = 0, pt_Y = 0\<rparr>) (\<lambda>start.
     gbind (GridRef X term \<lparr>pt_Tag = PointTagActive, pt_X = c - 1, pt_Y = ucast (r - 1)\<rparr>) (\<lambda>stop.
     gret \<lparr>sl_Start = start, sl_End = stop, sl_Rectangle = False\<rparr>))))"

definition resetSGR :: "byte list" where "resetSGR = [0x1b, 0x5b, 0x30, 0x6d]"

definition dumpScreen :: "'m exports \<Rightarrow> terminalState \<Rightarrow> terminalFormat \<Rightarrow> ('m wasmRuntime, screenDump) go" where
  "dumpScreen X t format =
     gbind (if \<not> tf_full format \<and> \<not> tf_scrollback format
            then gbind (activeSelection X (ts_term t)) (\<lambda>sel. gret (Some sel))
            else gret None) (\<lambda>sel.
     gbind (NewFormatter X (ts_term t) (dumpOptions format sel)) (\<lambda>formatter.
     gdefer (onLocal formatter (closeFormatter X))
       (gbind (Format X formatter) (\<lambda>data.
        gbind (CursorX X (ts_term t)) (\<lambda>cursorCol.
        gbind (CursorY X (ts_term t)) (\<lambda>cursorRow.
        gbind (ActiveScreen X (ts_term t)) (\<lambda>activeScreen.
        gret \<lparr>dump_Data = (if tf_safe format then data @ resetSGR else data), dump_CursorRow = ucast cursorRow,
              dump_CursorCol = ucast cursorCol, dump_IsAltScreen = (activeScreen = ScreenAlternate)\<rparr>)))))))"

definition tsSnapshot :: "'m exports \<Rightarrow> terminalState \<Rightarrow> ('m wasmRuntime, byte list) go" where
  "tsSnapshot X t = Snapshot X (ts_term t)"

definition onEvent :: "(keyEventObj \<times> 'm wasmRuntime, 'a) go \<Rightarrow> (terminalState \<times> 'm wasmRuntime, 'a) go" where
  "onEvent f ts = (case f (ts_keyEvent (fst ts), snd ts) of (r, (e, s)) \<Rightarrow> (r, ((fst ts)\<lparr>ts_keyEvent := e\<rparr>, s)))"

definition KeyActionPress :: u32 where "KeyActionPress = 1"

definition tsEncodeClientKey :: "'m exports \<Rightarrow> u32 \<Rightarrow> u32 \<Rightarrow> (terminalState \<times> 'm wasmRuntime, byte list) go" where
  "tsEncodeClientKey X keyCode mods =
     (case encodeClientKeyEvent keyCode mods of
        Inl e \<Rightarrow> gfail e
      | Inr ev \<Rightarrow>
          gbind (onEvent (SetAction X KeyActionPress)) (\<lambda>_.
          gbind (onEvent (SetKey X (of_int (ke_key ev)))) (\<lambda>_.
          gbind (onEvent (SetMods X (ke_mods ev))) (\<lambda>_.
          gbind (onEvent (SetConsumedMods X (ke_consumed ev))) (\<lambda>_.
          gbind (onEvent (SetComposing X False)) (\<lambda>_.
          gbind (onEvent (SetUnshiftedCodepoint X (ke_unshifted ev))) (\<lambda>_.
          gbind (onEvent (SetUTF8 X (ke_utf8 ev))) (\<lambda>_.
          gbind getObj (\<lambda>t.
          onRt (gbind (SetOptFromTerminal X (ts_keyEncoder t) (ts_term t)) (\<lambda>_.
                Encode X (ts_keyEncoder t) (ts_keyEvent t))))))))))))"

definition tsCwd :: "(string \<Rightarrow> (string \<times> string) option) \<Rightarrow> 'm exports \<Rightarrow> terminalState \<Rightarrow> ('m wasmRuntime, string \<times> bool) go" where
  "tsCwd urlParse X t =
     gbind (Pwd X (ts_term t)) (\<lambda>raw.
       if raw = [] then gret ([], False)
       else gret (case urlParse raw of
                    None \<Rightarrow> raw
                  | Some (scheme, path) \<Rightarrow> if scheme \<noteq> [] \<and> path \<noteq> [] then path else raw, True))"

definition tsVtGround :: "'m exports \<Rightarrow> terminalState \<Rightarrow> ('m wasmRuntime, bool) go" where
  "tsVtGround X t = VTGround X (ts_term t)"

text \<open>\<open>close\<close>; a struct that is closed keeps null handles, so closing again does nothing.\<close>

definition tsClose :: "'m exports \<Rightarrow> (terminalState \<times> 'm wasmRuntime, unit) go" where
  "tsClose X ts =
     (let t = fst ts;
          (_, (event, s)) = closeKeyEvent X (ts_keyEvent t, snd ts);
          (_, (encoder, s)) = closeKeyEncoder X (ts_keyEncoder t, s);
          (_, (term, s)) = closeLocked X (ts_term t, s)
      in (Ret (), (\<lparr>ts_term = term, ts_keyEncoder = encoder, ts_keyEvent = event\<rparr>, s)))"

section \<open>Restoring\<close>

definition cancelSequence :: "byte list" where "cancelSequence = [0x18]"
definition leaveAltScreen :: "byte list" where
  "leaveAltScreen = [0x1b, 0x5b, 0x3f, 0x31, 0x30, 0x34, 0x39, 0x6c]"
definition softReset :: "byte list" where "softReset = [0x1b, 0x5b, 0x21, 0x70]"

definition plainFormat :: terminalFormat where
  "plainFormat = \<lparr>tf_emit = FormatterFormatPlain, tf_unwrap = False, tf_scrollback = False, tf_full = False, tf_safe = False\<rparr>"

definition sanitizeRestored :: "'m exports \<Rightarrow> termSize \<Rightarrow> terminalState \<Rightarrow> ('m wasmRuntime, terminalState) go" where
  "sanitizeRestored X sz term =
     gbind (tsVtGround X term) (\<lambda>ground.
     gbind (if \<not> ground then tsFeed X term cancelSequence else gret ()) (\<lambda>_.
     gbind (dumpScreen X term plainFormat) (\<lambda>dump.
     gbind (if dump_IsAltScreen dump then tsFeed X term leaveAltScreen else gret ()) (\<lambda>_.
     gbind (tsFeed X term softReset) (\<lambda>_.
     gbind (gwrap ''resize restored terminal state'' (tsResize X term (ucast (cols sz)) (ucast (rows sz)))) (\<lambda>_.
     gret term))))))"

definition limitAndWrap :: "'m exports \<Rightarrow> u32 \<Rightarrow> terminal \<Rightarrow> ('m wasmRuntime, terminalState) go" where
  "limitAndWrap X scrollback restored =
     gbind (gonerr (setScrollbackMaxLinesLocked X restored (Some (ucast scrollback))) (onLocal restored (closeLocked X))) (\<lambda>_.
     wrapTerminalState X restored)"

definition restoreTerminalState :: "'m exports \<Rightarrow> sessionState \<Rightarrow> termSize \<Rightarrow> u32 \<Rightarrow> ('m wasmRuntime, terminalState) go" where
  "restoreTerminalState X state sz scrollback =
     gbind (newSnapshotDecoderBytes X (st_Snapshot state)) (\<lambda>decoder.
     gscope decoder (closeDecoder X)
       (gbind (SetMaxContinuationBytes X continuationMaxBytes) (\<lambda>_.
        gbind (SetRetainContinuation X True) (\<lambda>_.
        gbind (Decode X) (\<lambda>restored.
        onRt (gbind (limitAndWrap X scrollback restored) (\<lambda>term.
              gunless (onLocal term (tsClose X)) (sanitizeRestored X sz term))))))))"

definition dumpDeadTerminalState :: "'m exports \<Rightarrow> sessionState \<Rightarrow> u32 \<Rightarrow> u8 \<Rightarrow> ('m wasmRuntime, byte list) go" where
  "dumpDeadTerminalState X state scrollback format =
     (let restoring = ''dump dead terminal state: restore terminal''
      in gbind (gwrap restoring (newSnapshotDecoderBytes X (st_Snapshot state))) (\<lambda>decoder.
         gscope decoder (closeDecoder X)
           (gbind (gwrap restoring (SetMaxContinuationBytes X continuationMaxBytes)) (\<lambda>_.
            gbind (gwrap restoring (Decode X)) (\<lambda>restored.
            onRt (gbind (gwrap restoring (limitAndWrap X scrollback restored)) (\<lambda>term.
                  gdefer (onLocal term (tsClose X))
                    (gbind (gwrap ''dump dead terminal state: dump screen'' (dumpScreen X term (terminalDumpFormat format)))
                       (\<lambda>dump. gret (dump_Data dump))))))))))"

section \<open>Resource use\<close>

definition own_ts :: "terminalState \<Rightarrow> resource multiset" where
  "own_ts t = own_event (ts_keyEvent t) + (own_encoder (ts_keyEncoder t) + own_terminal (ts_term t))"

definition ok_ts :: "terminalState \<Rightarrow> bool" where
  "ok_ts t \<longleftrightarrow> kv_ptr (ts_keyEvent t) \<noteq> 0"

lemma frees_seq:
  assumes "rtl.frees R f" and "rtl.frees S g" and "\<And>s. snd (h s) = snd (g (snd (f s)))"
  shows "rtl.frees (R + S) h"
  unfolding rtl.frees_def
proof (intro allI impI)
  fix s :: "'a wasmRuntime" and F assume "\<not> rt_bad s" and "rt_live s = R + S + F"
  then have "\<not> rt_bad (snd (f s))" "rt_live (snd (f s)) = S + F"
    using assms(1) unfolding rtl.frees_def by (metis add.assoc)+
  with assms(2,3) show "\<not> rt_bad (snd (h s)) \<and> rt_live (snd (h s)) = F" unfolding rtl.frees_def by metis
qed

lemma frees_tsClose:
  assumes "ok_ts t"
  shows "rtl.frees (own_ts t) (onLocal t (tsClose X))"
proof -
  let ?rest = "\<lambda>s. onLocal (ts_term t) (closeLocked X) (snd (onLocal (ts_keyEncoder t) (closeKeyEncoder X) s))"
  have rest: "rtl.frees (own_encoder (ts_keyEncoder t) + own_terminal (ts_term t)) ?rest"
    by (rule frees_seq [OF frees_closeKeyEncoder frees_closeLocked]) simp
  have event: "rtl.frees (own_event (ts_keyEvent t)) (onLocal (ts_keyEvent t) (closeKeyEvent X))"
    using assms by (simp add: ok_ts_def frees_closeKeyEvent)
  show ?thesis unfolding own_ts_def
    by (rule frees_seq [OF event rest]) (simp add: tsClose_def onLocal_def Let_def split_beta)
qed

lemma total_closeKeyEncoder: "total (onLocal enc (closeKeyEncoder X))"
  by (simp add: total_def onLocal_def closeKeyEncoder_def gbind_def getObj_def setObj_def onRt_def gret_def xcall_def release_def
      split: prod.split)

lemma takes_wrapTerminalState: "rtl.takes (own_terminal term) (wrapTerminalState X term) own_ts {#}"
proof -
  have enc: "rtl.takes (own_terminal term) (gonerr (NewKeyEncoder X) (onLocal term (closeLocked X))) (\<lambda>enc. own_encoder enc + own_terminal term) {#}"
  proof (rule rtl.takes_onerr [OF _ frees_closeLocked])
    show "rtl.takes (own_terminal term) (NewKeyEncoder X) (\<lambda>enc. own_encoder enc + own_terminal term) (own_terminal term + {#})"
      using rtl.takes_frame [OF takes_NewKeyEncoder, of "own_terminal term" X] by simp
  qed (intro calm_rules)
  have both: "rtl.frees (own_encoder enc + own_terminal term) (gbind (onLocal enc (closeKeyEncoder X)) (\<lambda>_. onLocal term (closeLocked X)))" for enc
    by (rule frees_bind [OF frees_closeKeyEncoder total_closeKeyEncoder frees_closeLocked])
  have event: "rtl.takes (own_encoder enc + own_terminal term) (gonerr (NewKeyEvent X)
      (gbind (onLocal enc (closeKeyEncoder X)) (\<lambda>_. onLocal term (closeLocked X)))) (\<lambda>ev. own_event ev + (own_encoder enc + own_terminal term)) {#}" for enc
  proof (rule rtl.takes_onerr [OF _ both])
    show "rtl.takes (own_encoder enc + own_terminal term) (NewKeyEvent X) (\<lambda>ev. own_event ev + (own_encoder enc + own_terminal term))
        (own_encoder enc + own_terminal term + {#})"
      using rtl.takes_frame [OF takes_NewKeyEvent, of "own_encoder enc + own_terminal term" X] by simp
  qed (intro calm_rules)
  show ?thesis unfolding wrapTerminalState_def
    by (rule rtl.takes_bind [OF enc], rule rtl.takes_bind [OF event]) (simp add: rtl.takes_ret own_ts_def)
qed

lemma wrapTerminalState_ok: "wrapTerminalState X term s = (Ret t, s') \<Longrightarrow> ok_ts t"
  by (auto simp: wrapTerminalState_def gbind_def gonerr_def gret_def ok_ts_def dest: NewKeyEvent_nonnull split: prod.splits goRes.splits)

lemma takes_newTerminalState: "rtl.takes {#} (newTerminalState X c r n) own_ts {#}"
  unfolding newTerminalState_def by (rule rtl.takes_bind [OF takes_NewTerminal takes_wrapTerminalState])

lemma newTerminalState_ok: "newTerminalState X c r n s = (Ret t, s') \<Longrightarrow> ok_ts t"
  by (auto simp: newTerminalState_def gbind_def dest: wrapTerminalState_ok split: prod.splits goRes.splits)

lemma keeps_activeSelection [uses_rules]: "rtl.keeps (activeSelection X term)"
  unfolding activeSelection_def by (intro uses_rules)

lemma keeps_dumpScreen [uses_rules]: "rtl.keeps (dumpScreen X t format)"
proof -
  have "rtl.takes (own_formatter f) (gdefer (onLocal f (closeFormatter X)) body) (\<lambda>_. {#}) {#}" if "rtl.keeps body" for f and body :: "('a wasmRuntime, screenDump) go"
    by (rule rtl.takes_defer [OF _ frees_closeFormatter]) (simp add: rtl.keeps_takes that)
  then have shown: "rtl.keeps (gbind (NewFormatter X tm opts) (\<lambda>f. gdefer (onLocal f (closeFormatter X)) (body f)))" if "\<And>f. rtl.keeps (body f)"
    for tm opts and body :: "formatter \<Rightarrow> ('a wasmRuntime, screenDump) go"
    using that unfolding rtl.keeps_def [of "gbind _ _"] by (intro rtl.takes_bind [OF takes_NewFormatter]) blast
  show ?thesis unfolding dumpScreen_def
  proof (rule rtl.keeps_bind)
    show "rtl.keeps (if b then gbind (activeSelection X tm) (\<lambda>sel. gret (Some sel)) else gret None)" for b tm by (intro uses_rules)
  qed (rule shown, intro uses_rules)
qed

lemma keeps_operations [uses_rules]: "rtl.keeps (tsFeed X t d)" "rtl.keeps (tsResize X t c r)" "rtl.keeps (tsSnapshot X t)"
    "rtl.keeps (tsCwd up X t)" "rtl.keeps (tsVtGround X t)"
  unfolding tsFeed_def tsResize_def tsSnapshot_def tsCwd_def tsVtGround_def by (intro uses_rules)+

lemma takes_limitAndWrap: "rtl.takes (own_terminal term) (limitAndWrap X n term) own_ts {#}"
  unfolding limitAndWrap_def
  by (rule rtl.takes_bind [OF takes_or_close]) (auto intro!: uses_rules calm_rules takes_wrapTerminalState)

lemma limitAndWrap_ok: "limitAndWrap X n term s = (Ret t, s') \<Longrightarrow> ok_ts t"
  by (auto simp: limitAndWrap_def gbind_def dest: wrapTerminalState_ok split: prod.splits goRes.splits)

lemma method_wrap: "onStruct obj I f G Q \<Longrightarrow> onStruct obj I (gwrap ctx f) G Q"
proof -
  assume m: "onStruct obj I f G Q"
  show ?thesis unfolding onStruct_def
  proof (intro allI impI)
    fix s F r obj' s' assume run: "gwrap ctx f (obj, s) = (r, (obj', s'))" and s: "\<not> rt_bad s" "rt_live s = I + F"
    obtain q where q: "f (obj, s) = (q, (obj', s'))" "q = r \<or> (\<exists>e. q = Err e \<and> r = Err (Wrap ctx e))"
      using run by (auto simp: gwrap_def split: prod.splits goRes.splits)
    from m q(1) s have "ranged q \<or> \<not> rt_bad s' \<and> rt_live s' = (case q of Ret a \<Rightarrow> Q a obj' | _ \<Rightarrow> G obj') + F" unfolding onStruct_def by blast
    with q(2) show "ranged r \<or> \<not> rt_bad s' \<and> rt_live s' = (case r of Ret a \<Rightarrow> Q a obj' | _ \<Rightarrow> G obj') + F" by auto
  qed
qed

lemma takes_sanitize: "rtl.takes (own_ts t) (sanitizeRestored X sz t) own_ts (own_ts t)"
  unfolding sanitizeRestored_def by (intro rtl.takes_after uses_rules rtl.takes_ret refl)

lemma takes_restored:
  "rtl.takes (own_terminal tm) (gbind (limitAndWrap X n tm) (\<lambda>t. gunless (onLocal t (tsClose X)) (sanitizeRestored X sz t))) own_ts {#}"
  by (rule rtl.takes_bind_ret [OF takes_limitAndWrap])
    (auto dest!: limitAndWrap_ok intro!: rtl.takes_unless [OF _ frees_tsClose] simp: takes_sanitize)

text \<open>The decoder is closed on every path, and only the decoded terminal is handed on.\<close>

lemma takes_decoding:
  assumes "\<And>tm. rtl.takes (own_terminal tm) (k tm) Q {#}" and "\<And>d. onStruct d (own_decoder d) f own_decoder (\<lambda>t d'. own_decoder d' + own_terminal t)"
  shows "rtl.takes (own_decoder d) (gscope d (closeDecoder X) (gbind f (\<lambda>tm. onRt (k tm)))) Q {#}"
proof (rule takes_scope [OF _ frees_closeDecoder])
  have "rtl.takes (own_decoder d' + own_terminal tm) (k tm) (\<lambda>a. own_decoder d' + Q a) (own_decoder d')" for d' tm
    using rtl.takes_frame [OF assms(1), of tm "own_decoder d'"] by (simp add: add.commute)
  then show "onStruct d (own_decoder d) (gbind f (\<lambda>tm. onRt (k tm))) own_decoder (\<lambda>a d'. own_decoder d' + Q a)"
    by (intro method_seq [OF assms(2)] method_onRt)
qed

lemma takes_restoreTerminalState: "rtl.takes {#} (restoreTerminalState X st sz n) own_ts {#}"
proof -
  have "onStruct d (own_decoder d) (gbind (SetMaxContinuationBytes X l) (\<lambda>_. gbind (SetRetainContinuation X b) (\<lambda>_. Decode X)))
      own_decoder (\<lambda>t d'. own_decoder d' + own_terminal t)" for d l b
    by (intro method_bind_method method_decoder_set method_Decode)
  from takes_decoding [OF takes_restored this] show ?thesis
    unfolding restoreTerminalState_def by (intro rtl.takes_bind [OF takes_newDecoder]) (simp add: gbind_assoc)
qed

lemma restoreTerminalState_ok: "restoreTerminalState X st sz n s = (Ret t, s') \<Longrightarrow> ok_ts t"
proof -
  have san: "sanitizeRestored X sz t s = (Ret t', s') \<Longrightarrow> t' = t" for t t' s s'
    by (auto simp: sanitizeRestored_def gbind_def gret_def split: prod.splits goRes.splits)
  show "restoreTerminalState X st sz n s = (Ret t, s') \<Longrightarrow> ok_ts t"
    by (auto simp: restoreTerminalState_def gbind_def gscope_def onRt_def gunless_def dest!: san limitAndWrap_ok split: prod.splits goRes.splits)
qed

lemma keeps_dumpDead: "rtl.keeps (dumpDeadTerminalState X st n format)"
proof -
  have shown: "rtl.takes (own_terminal tm) (gbind (gwrap c (limitAndWrap X n tm)) (\<lambda>t. gdefer (onLocal t (tsClose X))
      (gbind (gwrap c' (dumpScreen X t f)) (\<lambda>dump. gret (dump_Data dump))))) (\<lambda>_. {#}) {#}" for tm c c' f
  proof (rule rtl.takes_bind_ret [OF rtl.takes_wrap [OF takes_limitAndWrap]])
    fix s t s' assume "gwrap c (limitAndWrap X n tm) s = (Ret t, s')"
    then have "ok_ts t" by (auto simp: gwrap_def dest: limitAndWrap_ok split: prod.splits goRes.splits)
    then show "rtl.takes (own_ts t) (gdefer (onLocal t (tsClose X)) (gbind (gwrap c' (dumpScreen X t f)) (\<lambda>dump. gret (dump_Data dump)))) (\<lambda>_. {#}) {#}"
      by (intro rtl.takes_defer [OF _ frees_tsClose]) (simp_all add: rtl.keeps_takes uses_rules)
  qed
  have "onStruct d (own_decoder d) (gbind (gwrap c (SetMaxContinuationBytes X l)) (\<lambda>_. gwrap c (Decode X)))
      own_decoder (\<lambda>t d'. own_decoder d' + own_terminal t)" for d l c
    by (intro method_bind_method method_wrap method_decoder_set method_Decode)
  from takes_decoding [OF shown this] show ?thesis
    unfolding dumpDeadTerminalState_def Let_def rtl.keeps_def
    by (intro rtl.takes_bind [OF rtl.takes_wrap [OF takes_newDecoder]]) (simp add: gbind_assoc)
qed

section \<open>A terminal's life\<close>

text \<open>
  What the daemon does with a terminal between creating and closing it, in any order. A call may
  fail and the daemon goes on; after a panic there is no next call.
\<close>

datatype termStart = TNew u32 u32 u32 | TRestore sessionState termSize u32

datatype termCall =
    TFeed "byte list"
  | TResize u32 u32
  | TDump terminalFormat
  | TSnapshot
  | TKey u32 u32
  | TCwd
  | TGround

fun startTerm :: "'m exports \<Rightarrow> termStart \<Rightarrow> ('m wasmRuntime, terminalState) go" where
  "startTerm X (TNew c r n) = newTerminalState X c r n"
| "startTerm X (TRestore st sz n) = restoreTerminalState X st sz n"

definition discard :: "('s, 'a) go \<Rightarrow> ('s, unit) go" where
  "discard f = gbind f (\<lambda>_. gret ())"

fun runTerm :: "(string \<Rightarrow> (string \<times> string) option) \<Rightarrow> 'm exports \<Rightarrow> termCall \<Rightarrow> (terminalState \<times> 'm wasmRuntime, unit) go" where
  "runTerm up X (TFeed d) = gbind getObj (\<lambda>t. onRt (tsFeed X t d))"
| "runTerm up X (TResize c r) = gbind getObj (\<lambda>t. onRt (tsResize X t c r))"
| "runTerm up X (TDump f) = gbind getObj (\<lambda>t. onRt (discard (dumpScreen X t f)))"
| "runTerm up X TSnapshot = gbind getObj (\<lambda>t. onRt (discard (tsSnapshot X t)))"
| "runTerm up X (TKey k m) = discard (tsEncodeClientKey X k m)"
| "runTerm up X TCwd = gbind getObj (\<lambda>t. onRt (discard (tsCwd up X t)))"
| "runTerm up X TGround = gbind getObj (\<lambda>t. onRt (discard (tsVtGround X t)))"

fun runTerms :: "(string \<Rightarrow> (string \<times> string) option) \<Rightarrow> 'm exports \<Rightarrow> termCall list \<Rightarrow> terminalState \<times> 'm wasmRuntime
    \<Rightarrow> unit goRes list \<times> terminalState \<times> 'm wasmRuntime" where
  "runTerms up X [] ts = ([], ts)"
| "runTerms up X (c # cs) ts =
     (case runTerm up X c ts of
        (Panics e, ts) \<Rightarrow> ([Panics e], ts)
      | (r, ts) \<Rightarrow> (case runTerms up X cs ts of (rs, ts) \<Rightarrow> (r # rs, ts)))"

lemma method_event:
  assumes "onStruct (ts_keyEvent t) (own_event (ts_keyEvent t)) f own_event (\<lambda>_. own_event)"
  shows "onStruct t (own_ts t) (onEvent f) own_ts (\<lambda>_. own_ts)"
  unfolding onStruct_def
proof (intro allI impI)
  fix s F r t' s' assume run: "onEvent f (t, s) = (r, (t', s'))" and s: "\<not> rt_bad s" "rt_live s = own_ts t + F"
  obtain e where e: "f (ts_keyEvent t, s) = (r, (e, s'))" "t' = t\<lparr>ts_keyEvent := e\<rparr>"
    using run by (auto simp: onEvent_def split: prod.splits)
  let ?o = "own_encoder (ts_keyEncoder t) + own_terminal (ts_term t)"
  have "rt_live s = own_event (ts_keyEvent t) + (?o + F)" using s(2) by (simp add: own_ts_def add.assoc)
  with assms e(1) s(1) have "ranged r \<or> \<not> rt_bad s' \<and> rt_live s' = (case r of Ret a \<Rightarrow> own_event e | _ \<Rightarrow> own_event e) + (?o + F)"
    unfolding onStruct_def by blast
  then show "ranged r \<or> \<not> rt_bad s' \<and> rt_live s' = (case r of Ret a \<Rightarrow> own_ts t' | _ \<Rightarrow> own_ts t') + F"
    using e(2) by (cases r) (auto simp: own_ts_def add.assoc)
qed

lemma method_setters: "onStruct e (own_event e) (SetAction X v) own_event (\<lambda>_. own_event)" "onStruct e (own_event e) (SetKey X v) own_event (\<lambda>_. own_event)"
    "onStruct e (own_event e) (SetMods X w) own_event (\<lambda>_. own_event)" "onStruct e (own_event e) (SetConsumedMods X w) own_event (\<lambda>_. own_event)"
    "onStruct e (own_event e) (SetComposing X b) own_event (\<lambda>_. own_event)" "onStruct e (own_event e) (SetUnshiftedCodepoint X v) own_event (\<lambda>_. own_event)"
  by (simp_all add: SetAction_def SetKey_def SetMods_def SetConsumedMods_def SetComposing_def SetUnshiftedCodepoint_def method_eventSet)

lemma method_tsEncodeClientKey: "onStruct t (own_ts t) (tsEncodeClientKey X k m) own_ts (\<lambda>_. own_ts)"
proof (cases "encodeClientKeyEvent k m")
  case (Inl e)
  then show ?thesis by (auto simp: tsEncodeClientKey_def onStruct_def gfail_def)
next
  case (Inr ev)
  have last: "onStruct t (own_ts t) (gbind getObj (\<lambda>t. onRt (gbind (SetOptFromTerminal X (ts_keyEncoder t) (ts_term t)) (\<lambda>_.
      Encode X (ts_keyEncoder t) (ts_keyEvent t))))) own_ts (\<lambda>_. own_ts)" for t
    by (intro method_get method_onRt rtl.keeps_takes uses_rules)
  from Inr show ?thesis unfolding tsEncodeClientKey_def
    by simp (intro method_bind_method [where G = own_ts] method_event method_setters method_SetUTF8 last)
qed

lemma method_discard: "onStruct obj I f G (\<lambda>_. Q) \<Longrightarrow> onStruct obj I (discard f) G (\<lambda>_. Q)"
  unfolding discard_def by (erule method_seq, rule method_ret, rule refl)

lemma keeps_discard [uses_rules]: "rtl.keeps f \<Longrightarrow> rtl.keeps (discard f)"
  unfolding discard_def by (intro uses_rules)

lemma method_runTerm: "onStruct t (own_ts t) (runTerm up X c) own_ts (\<lambda>_. own_ts)"
  by (cases c) (auto intro!: method_get method_onRt rtl.keeps_takes uses_rules method_discard method_tsEncodeClientKey)

lemma onEvent_ok:
  assumes "\<And>e s r e' s'. f (e, s) = (r, (e', s')) \<Longrightarrow> kv_ptr e' = kv_ptr e" and "onEvent f (t, s) = (r, (t', s'))"
  shows "ok_ts t' = ok_ts t"
  using assms(2) assms(1) by (fastforce simp: onEvent_def ok_ts_def split: prod.splits)

definition okKeeping :: "(terminalState \<times> 'm wasmRuntime, 'a) go \<Rightarrow> bool" where
  "okKeeping f \<longleftrightarrow> (\<forall>t s r t' s'. f (t, s) = (r, (t', s')) \<longrightarrow> ok_ts t' = ok_ts t)"

lemma okKeeping_bind: "okKeeping f \<Longrightarrow> (\<And>a. okKeeping (k a)) \<Longrightarrow> okKeeping (gbind f k)"
  unfolding okKeeping_def gbind_def by (auto split: prod.splits goRes.splits) blast+

lemma okKeeping_basic: "okKeeping getObj" "okKeeping (onRt g)" "okKeeping (gret a)" "okKeeping (gfail e)"
  by (auto simp: okKeeping_def getObj_def onRt_def gret_def gfail_def split: prod.splits)

lemma eventSet_ptr: "eventSet X x v (e, s) = (r, (e', s')) \<Longrightarrow> kv_ptr e' = kv_ptr e"
  by (auto simp: eventSet_def gbind_def getObj_def onRt_def gret_def split: prod.splits goRes.splits)

lemma okKeeping_event: "okKeeping (onEvent (eventSet X x v))" "okKeeping (onEvent (SetUTF8 X u))"
proof -
  have "okKeeping (onEvent f)" if "\<And>e s r e' s'. f (e, s) = (r, (e', s')) \<Longrightarrow> kv_ptr e' = kv_ptr e" for f :: "(keyEventObj \<times> 'a wasmRuntime, unit) go"
    unfolding okKeeping_def using onEvent_ok [of f] that by blast
  then show "okKeeping (onEvent (eventSet X x v))" "okKeeping (onEvent (SetUTF8 X u))" using eventSet_ptr SetUTF8_ptr by blast+
qed

lemma okKeeping_runTerm: "okKeeping (runTerm up X c)"
  by (cases c) (auto simp: discard_def tsEncodeClientKey_def SetAction_def SetKey_def SetMods_def SetConsumedMods_def SetComposing_def
      SetUnshiftedCodepoint_def intro!: okKeeping_bind okKeeping_basic okKeeping_event split: sum.split)

lemma runTerms_owned:
  assumes "runTerms up X cs (t, s) = (rs, (t', s'))" and "\<not> rt_bad s" and "rt_live s = own_ts t + F" and "ok_ts t"
    and "\<forall>r \<in> set rs. \<not> ranged r"
  shows "\<not> rt_bad s' \<and> rt_live s' = own_ts t' + F \<and> ok_ts t'"
  using assms
proof (induction cs arbitrary: t s rs)
  case (Cons c cs)
  obtain r t1 s1 where one: "runTerm up X c (t, s) = (r, (t1, s1))" by (metis prod.exhaust)
  have "r \<in> set rs" using Cons.prems(1) one by (auto split: goRes.splits prod.splits)
  with Cons.prems(5) have nr: "\<not> ranged r" by blast
  with method_runTerm [of t up X c] one Cons.prems(2,3) have s1: "\<not> rt_bad s1" "rt_live s1 = own_ts t1 + F"
    unfolding onStruct_def by (cases r; fastforce)+
  have ok: "ok_ts t1" using okKeeping_runTerm [of up X c] one Cons.prems(4) unfolding okKeeping_def by blast
  show ?case
  proof (cases "\<exists>e. r = Panics e")
    case True
    with Cons.prems(1) one s1 ok show ?thesis by auto
  next
    case False
    then obtain rs' where "runTerms up X cs (t1, s1) = (rs', (t', s'))" "rs = r # rs'"
      using Cons.prems(1) one that by (cases r) (auto split: prod.splits)
    with Cons.IH [OF _ s1 ok] Cons.prems(5) show ?thesis by auto
  qed
qed simp

end
