(* ===== verification/Terminal_Props.thy ===== *)
theory Terminal_Props
  imports Terminal_State
begin

text \<open>
  What the daemon relies on of its terminals: the module's memory is neither leaked nor freed
  twice, output reaches the emulator whole and in order, and the options of a dump reach the
  formatter. \<open>toyX\<close> is a concrete module for the witnesses: every allocation and every new object is at
  address 16 of a memory of 64 bytes, it refuses every snapshot, and every other call succeeds.
\<close>

definition toyX :: "unit exports" where
  "toyX name args md =
     (if name = ''ghostty_wasm_alloc'' \<or> name = ''ghostty_wasm_alloc_opaque'' \<or> name = ''ghostty_wasm_take_opaque''
      then (16, md)
      else if name = ''ghostty_snapshot_decoder_decode'' then (ResultInvalidValue, md)
      else (0, md))"

definition toyRt :: "unit wasmRuntime" where
  "toyRt = \<lparr>rt_mod = \<lparr>md_mem = replicate 64 0, md_state = ()\<rparr>, rt_live = {#}, rt_bad = False\<rparr>"

section \<open>Memory\<close>

lemma startTerm_owned:
  assumes "startTerm X st s = (r, s')" and "\<not> rt_bad s" and "\<not> ranged r"
  shows "\<not> rt_bad s' \<and> (case r of Ret t \<Rightarrow> rt_live s' = own_ts t + rt_live s \<and> ok_ts t | _ \<Rightarrow> rt_live s' = rt_live s)"
proof -
  have t: "rtl.takes {#} (startTerm X st) own_ts {#}" by (cases st) (simp_all add: takes_newTerminalState takes_restoreTerminalState)
  have "\<And>t. r = Ret t \<Longrightarrow> ok_ts t" using assms(1) by (cases st) (auto dest: newTerminalState_ok restoreTerminalState_ok)
  with rtl.usesD [OF t [unfolded rtl.takes_def] assms(1,2) _ assms(3), of "rt_live s"] show ?thesis by (cases r) simp_all
qed

lemma tsClose_frees:
  assumes "\<not> rt_bad s" and "rt_live s = own_ts t + F" and "ok_ts t"
  shows "\<not> rt_bad (snd (snd (tsClose X (t, s)))) \<and> rt_live (snd (snd (tsClose X (t, s)))) = F"
  using frees_tsClose [OF assms(3), of X] assms(1,2) unfolding rtl.frees_def onLocal_def by (auto simp: split_beta)

lemma close_closed:
  "kv_ptr e = 0 \<Longrightarrow> closeKeyEvent X (e, s) = (Ret (), (e, s))"
  "kn_ptr enc = 0 \<Longrightarrow> closeKeyEncoder X (enc, s) = (Ret (), (enc, s))"
  "tm_ptr t = 0 \<Longrightarrow> tm_feedPtr t = 0 \<Longrightarrow> closeLocked X (t, s) = (Ret (), (t, s))"
  by (simp_all add: closeKeyEvent_def closeKeyEncoder_def closeLocked_def gbind_def getObj_def setObj_def onRt_def gret_def wfree_def)

lemma closed_close:
  "kv_ptr (fst (snd (closeKeyEvent X (e, s)))) = 0"
  "kn_ptr (fst (snd (closeKeyEncoder X (enc, s)))) = 0"
  "tm_ptr (fst (snd (closeLocked X (t, s)))) = 0" "tm_feedPtr (fst (snd (closeLocked X (t, s)))) = 0"
  by (simp_all add: closeKeyEvent_def closeKeyEncoder_def closeLocked_def terminalFree_def gbind_def getObj_def setObj_def onRt_def gret_def
      wfree_def xcall_def release_def split_beta)

lemma closeLocked_again: "closeLocked X (snd (closeLocked X ts)) = (Ret (), snd (closeLocked X ts))"
  by (metis close_closed(3) closed_close(3,4) prod.collapse)

lemma tsClose_again: "tsClose X (snd (tsClose X ts)) = (Ret (), snd (tsClose X ts))"
  by (simp add: tsClose_def Let_def split_beta close_closed closed_close closeLocked_again)

text \<open>
  C21. The daemon does not leak memory of the emulator and frees nothing twice. However a terminal is
  created, new or from a saved state, when that fails everything obtained on the way has been given
  back. When it succeeds, after any sequence of calls (each may fail for lack of memory or because
  the emulator refuses) closing the terminal gives back everything, and closing it again does
  nothing. Dumping a saved session gives back everything too. The emulator module is arbitrary;
  the one exception is a module that hands out addresses outside its own memory, which the bindings
  report as an invalid memory range.
\<close>

theorem terminal_releases_everything:
  assumes "startTerm X st rt = (r, rt1)" and "\<not> rt_bad rt" and "\<not> ranged r"
    and "\<And>t. r = Ret t \<Longrightarrow> runTerms up X cs (t, rt1) = (rs, (t2, rt2)) \<and> (\<forall>q \<in> set rs. \<not> ranged q)"
    and "dumpDeadTerminalState X saved n format rt = (d, rt3)" and "\<not> ranged d"
  shows "(is_Ret r \<longrightarrow>
            (let closed = snd (tsClose X (t2, rt2))
             in \<not> rt_bad (snd closed) \<and> rt_live (snd closed) = rt_live rt \<and> snd (tsClose X closed) = closed))
    \<and> (\<not> is_Ret r \<longrightarrow> \<not> rt_bad rt1 \<and> rt_live rt1 = rt_live rt)
    \<and> \<not> rt_bad rt3 \<and> rt_live rt3 = rt_live rt"
proof -
  note s = startTerm_owned [OF assms(1-3)]
  have "\<not> rt_bad rt3 \<and> rt_live rt3 = rt_live rt"
    using rtl.usesD [OF keeps_dumpDead [unfolded rtl.keeps_def rtl.takes_def] assms(5,2) _ assms(6), of "rt_live rt"] by (cases d) simp_all
  moreover have "\<not> rt_bad rt1 \<and> rt_live rt1 = rt_live rt" if "\<not> is_Ret r" using s that by (cases r) simp_all
  moreover have "let closed = snd (tsClose X (t2, rt2)) in \<not> rt_bad (snd closed) \<and> rt_live (snd closed) = rt_live rt \<and> snd (tsClose X closed) = closed"
    if "is_Ret r"
  proof -
    from that obtain t where t: "r = Ret t" by (cases r) auto
    with s have t1: "\<not> rt_bad rt1" "rt_live rt1 = own_ts t + rt_live rt" "ok_ts t" by simp_all
    from runTerms_owned [OF _ t1] assms(4) [OF t] have "\<not> rt_bad rt2 \<and> rt_live rt2 = own_ts t2 + rt_live rt \<and> ok_ts t2" by blast
    with tsClose_frees [of rt2 t2 "rt_live rt" X] show ?thesis by (simp add: Let_def tsClose_again)
  qed
  ultimately show ?thesis by blast
qed

definition toyTs :: terminalState where
  "toyTs = \<lparr>ts_term = \<lparr>tm_ptr = 16, tm_feedPtr = 16\<rparr>, ts_keyEncoder = \<lparr>kn_ptr = 16\<rparr>,
     ts_keyEvent = \<lparr>kv_ptr = 16, kv_utf8Ptr = 0, kv_utf8Len = 0\<rparr>\<rparr>"

definition toyRt1 :: "unit wasmRuntime" where
  "toyRt1 = \<lparr>rt_mod = \<lparr>md_mem = replicate 18 0 @ [0x10, 4] @ replicate 44 0, md_state = ()\<rparr>,
     rt_live = {#RKeyEvent 16, RKeyEncoder 16, RBuf 16 65536, RTerminal 16#}, rt_bad = False\<rparr>"

lemma toy_start: "startTerm toyX (TNew 80 24 100) toyRt = (Ret toyTs, toyRt1)"
  by code_simp

lemmas runtime_defs = gbind_def gret_def gfail_def gdefer_def getObj_def onRt_def discard_def xcall_def acquire_def release_def alloc_def
  wfree_def withBuf_def bytes_def resultError_def ResultSuccess_def Let_def

lemma toy_steps:
  "runTerm (\<lambda>_. None) toyX TGround (toyTs, toyRt1) = (Ret (), (toyTs, toyRt1))"
  "runTerm (\<lambda>_. None) toyX (TResize 100 30) (toyTs, toyRt1) = (Ret (), (toyTs, toyRt1))"
  by (simp_all add: runtime_defs toyX_def toyRt1_def tsVtGround_def VTGround_def terminalGet_def
      tsResize_def terminalResize_def)

lemma toy_dead: "\<not> ranged (fst (dumpDeadTerminalState toyX \<lparr>st_Cols = 80, st_Rows = 24, st_SavedAt = 0, st_Snapshot = [1, 2]\<rparr> 100 0 toyRt))"
  by code_simp

theorem terminal_releases_everything_witness:
  "rt_live toyRt1 \<noteq> {#}
   \<and> (let after = snd (runTerms (\<lambda>_. None) toyX [TGround, TResize 100 30, TGround] (toyTs, toyRt1))
      in rt_live (snd (snd (tsClose toyX after))) = {#})"
proof -
  let ?cs = "[TGround, TResize 100 30, TGround]" and ?saved = "\<lparr>st_Cols = 80, st_Rows = 24, st_SavedAt = 0, st_Snapshot = [1, 2]\<rparr>"
  have r: "runTerms (\<lambda>_. None) toyX ?cs (toyTs, toyRt1) = ([Ret (), Ret (), Ret ()], (toyTs, toyRt1))"
    by (simp add: toy_steps del: runTerm.simps)
  obtain d rt3 where d: "dumpDeadTerminalState toyX ?saved 100 0 toyRt = (d, rt3)" by fastforce
  have "\<not> ranged d" using toy_dead d by simp
  with terminal_releases_everything [OF toy_start, of "\<lambda>_. None" ?cs _ toyTs toyRt1 ?saved 100 0 d rt3, OF _ _ _ d] r
  have "rt_live (snd (snd (tsClose toyX (toyTs, toyRt1)))) = {#}" by (simp add: Let_def toyRt_def)
  with r show ?thesis by (simp add: Let_def) (simp add: toyRt1_def)
qed

section \<open>Output reaches the emulator\<close>

lemma put_fits:
  assumes "unat p + length data \<le> length (md_mem (rt_mod rt))" and "length data < 2 ^ 32"
  shows "\<exists>md. put p data rt = (Ret (), rt\<lparr>rt_mod := md\<rparr>) \<and> md_state md = md_state (rt_mod rt)
    \<and> take (length data) (drop (unat p) (md_mem md)) = data \<and> length (md_mem md) = length (md_mem (rt_mod rt))"
  using assms by (intro exI [of _ "(rt_mod rt)\<lparr>md_mem := take (unat p) (md_mem (rt_mod rt)) @ data @ drop (unat p + length data) (md_mem (rt_mod rt))\<rparr>"])
    (simp add: put_def Let_def unat_of_nat_small)

text \<open>
  C25. \<open>VTWrite\<close> is a stream: whatever the length of the output, it neither fails nor panics and the
  emulator has taken in exactly the bytes of the output, in order, although they pass through a
  buffer of 64 KiB in pieces. The module is arbitrary but for what a terminal emulator does:
  \<open>vt_write\<close> takes in the bytes at the given address as the continuation of what it took in before, and
  the feed buffer lies in its memory, which does not shrink.
\<close>

theorem VTWrite_is_stream:
  assumes vt: "\<And>n md k md'. X ''ghostty_terminal_vt_write'' [tm_ptr t, tm_feedPtr t, n] md = (k, md') \<Longrightarrow>
      md_state md' = ingest (take (unat n) (drop (unat (tm_feedPtr t)) (md_mem md))) (md_state md)
      \<and> length (md_mem md) \<le> length (md_mem md')"
    and stream: "\<And>m. ingest [] m = m" "\<And>a b m. ingest (a @ b) m = ingest b (ingest a m)"
    and room: "unat (tm_feedPtr t) + unat feedBufferSize \<le> length (md_mem (rt_mod rt))"
  shows "\<exists>rt'. VTWrite X t data rt = (Ret (), rt') \<and> md_state (rt_mod rt') = ingest data (md_state (rt_mod rt))"
  using room
proof (induction "length data" arbitrary: data rt rule: less_induct)
  case less
  show ?case
  proof (cases "data = []")
    case True
    then show ?thesis by (simp add: VTWrite.simps gret_def stream(1))
  next
    case False
    define n where "n = nat (min (int (length data)) (uint feedBufferSize))"
    have size: "unat feedBufferSize = 65536" "uint feedBufferSize = 65536" by (simp_all add: feedBufferSize_def)
    have n: "0 < n" "n \<le> length data" "n \<le> 65536" using False by (auto simp: n_def size)
    obtain md where p: "put (tm_feedPtr t) (take n data) rt = (Ret (), rt\<lparr>rt_mod := md\<rparr>)" and md: "md_state md = md_state (rt_mod rt)"
        "take n (drop (unat (tm_feedPtr t)) (md_mem md)) = take n data" "length (md_mem md) = length (md_mem (rt_mod rt))"
      using put_fits [of "tm_feedPtr t" "take n data" rt] less.prems n by (auto simp: size min_absorb2)
    obtain k md' where w: "X ''ghostty_terminal_vt_write'' [tm_ptr t, tm_feedPtr t, of_nat n] md = (k, md')" by fastforce
    have un: "unat (of_nat n :: u32) = n" using n by (simp add: unat_of_nat_small)
    from vt [OF w] md un have md': "md_state md' = ingest (take n data) (md_state (rt_mod rt))" "length (md_mem md') \<ge> length (md_mem (rt_mod rt))"
      by simp_all
    have step: "VTWrite X t data rt = VTWrite X t (drop n data) (rt\<lparr>rt_mod := md'\<rparr>)"
      using False p w by (simp add: VTWrite.simps [of X t data] n_def [symmetric] gbind_def gmust_def xcall_def)
    have "length (drop n data) < length data" using n by simp
    from less.hyps [OF this, of "rt\<lparr>rt_mod := md'\<rparr>"] md'(2) less.prems
    obtain rt' where "VTWrite X t (drop n data) (rt\<lparr>rt_mod := md'\<rparr>) = (Ret (), rt')"
      and "md_state (rt_mod rt') = ingest (drop n data) (md_state md')" by auto
    with step md'(1) stream(2) [of "take n data" "drop n data"] show ?thesis by simp
  qed
qed

definition streamX :: "byte list exports" where
  "streamX name args md =
     (if name = ''ghostty_terminal_vt_write''
      then (0, md\<lparr>md_state := md_state md @ take (unat (args ! 2)) (drop (unat (args ! 1)) (md_mem md))\<rparr>)
      else (0, md))"

theorem VTWrite_is_stream_witness:
  "\<exists>rt'. VTWrite streamX \<lparr>tm_ptr = 8, tm_feedPtr = 16\<rparr> (replicate 100000 7)
       \<lparr>rt_mod = \<lparr>md_mem = replicate 70000 0, md_state = [1]\<rparr>, rt_live = {#}, rt_bad = False\<rparr> = (Ret (), rt')
     \<and> md_state (rt_mod rt') = 1 # replicate 100000 7"
proof -
  let ?rt = "\<lparr>rt_mod = \<lparr>md_mem = replicate 70000 0, md_state = [1]\<rparr>, rt_live = {#}, rt_bad = False\<rparr> :: byte list wasmRuntime"
  have "\<exists>rt'. VTWrite streamX \<lparr>tm_ptr = 8, tm_feedPtr = 16\<rparr> (replicate 100000 7) ?rt = (Ret (), rt')
     \<and> md_state (rt_mod rt') = (\<lambda>d m. m @ d) (replicate 100000 7) (md_state (rt_mod ?rt))"
    by (rule VTWrite_is_stream) (auto simp: streamX_def feedBufferSize_def)
  then show ?thesis by simp
qed

end
