(* ===== verification/Daemon_Start.thy ===== *)
theory Daemon_Start
  imports Client_Requests Persist_Store
begin

text \<open>
  Starting the daemon from the command line: \<open>ensureDaemonDetached\<close> of \<open>cmd/ht/main.go\<close> and its
  helpers. What the operating system answers is the record \<open>startEnv\<close>: the first probe of the socket,
  the executable's path, the random part of a temporary file's name, the start of the process,
  and one entry for each turn of the polling loop before its deadline of three seconds (the probe
  and the result of \<open>wait4\<close> with \<open>WNOHANG\<close>). The file system is that of \<open>Persist_Store\<close>, in which every call
  may fail.
\<close>

section \<open>Errors of the command line\<close>

datatype cliError =
    CliErr gerror
  | CliClient clientError
  | CliExit int string

type_synonym 'a cliOutcome = "cliError + 'a"

fun cliErrorText :: "cliError \<Rightarrow> string" where
  "cliErrorText (CliErr e) = error_text e"
| "cliErrorText (CliClient e) = clientErrorText e"
| "cliErrorText (CliExit code stderr) =
     (if stderr \<noteq> [] then trimSuffix stderr [CHR 0x0A]
      else ''exit with code '' @ (if code < 0 then ''-'' else []) @ string_of_nat (nat \<bar>code\<bar>))"

section \<open>The child process\<close>

datatype exitStatus = ExitedWith nat | SignaledBy string | OtherStatus

datatype wait4Result =
    Wait4Error gerror
  | Wait4NoChild
  | Wait4Running
  | Wait4Done exitStatus

fun daemonProcessExitError :: "exitStatus \<Rightarrow> gerror" where
  "daemonProcessExitError (ExitedWith n) = Errorf (''daemon exited before ready with status '' @ string_of_nat n)"
| "daemonProcessExitError (SignaledBy s) = Errorf (''daemon exited before ready from signal '' @ s)"
| "daemonProcessExitError OtherStatus = Errorf ''daemon exited before ready''"

fun daemonProcessExited :: "wait4Result \<Rightarrow> bool \<times> gerror option" where
  "daemonProcessExited (Wait4Error e) = (False, Some (Wrap ''wait daemon process'' e))"
| "daemonProcessExited Wait4NoChild = (False, None)"
| "daemonProcessExited Wait4Running = (False, None)"
| "daemonProcessExited (Wait4Done status) = (True, Some (daemonProcessExitError status))"

definition daemonStartArgs :: "string \<Rightarrow> bool \<Rightarrow> string list" where
  "daemonStartArgs socketPath autoExit =
     [''daemon''] @ (if autoExit then [''--auto-exit''] else []) @ (if socketPath \<noteq> [] then [''--socket'', socketPath] else [])"

definition daemonStartupError :: "string \<Rightarrow> string \<Rightarrow> string \<Rightarrow> gerror" where
  "daemonStartupError socketPath logPath cause =
     (if logPath = [] then Errorf (''daemon failed before ready at '' @ socketPath @ '': '' @ cause)
      else Errorf (''daemon failed before ready at '' @ socketPath @ '': '' @ cause @ '' (see '' @ logPath @ '')''))"

definition daemonStartupTimeoutError :: "string \<Rightarrow> string \<Rightarrow> gerror" where
  "daemonStartupTimeoutError socketPath logPath =
     (if logPath = [] then Errorf (''timed out waiting for daemon at '' @ socketPath)
      else Errorf (''timed out waiting for daemon at '' @ socketPath @ '' (see '' @ logPath @ '')''))"

section \<open>The log file\<close>

text \<open>\<open>os.OpenFile\<close> with \<open>O_CREATE|O_APPEND\<close>, and \<open>os.CreateTemp\<close> with the random part it settled on.\<close>

definition osOpenAppend :: "string \<Rightarrow> fs \<Rightarrow> unit result \<times> fs" where
  "osOpenAppend p w =
     (case nextFault w of
        (Some (e, _), w) \<Rightarrow> (Inl (ErrIO e), w)
      | (None, w) \<Rightarrow>
          if \<not> isDir (fs_nodes w) (parentDir p) then (Inl ErrNotExist, w)
          else (case map_of (fs_nodes w) p of
                  None \<Rightarrow> (Inr (), emit [EvCreate p] w)
                | Some Dir \<Rightarrow> (Inl (ErrIO ''is a directory''), w)
                | Some (File d) \<Rightarrow> (Inr (), w)))"

definition osCreateTemp :: "string \<Rightarrow> string \<Rightarrow> string \<Rightarrow> string \<Rightarrow> fs \<Rightarrow> string result \<times> fs" where
  "osCreateTemp dir pre rnd post w =
     (let p = dirText dir @ pre @ rnd @ post
      in case nextFault w of
           (Some (e, _), w) \<Rightarrow> (Inl (ErrIO e), w)
         | (None, w) \<Rightarrow>
             if \<not> isDir (fs_nodes w) dir then (Inl ErrNotExist, w)
             else if map_of (fs_nodes w) p \<noteq> None then (Inl (ErrIO ''file exists''), w)
             else (Inr p, emit [EvCreate p] w))"

definition openDaemonLogFile :: "string \<Rightarrow> string \<Rightarrow> string \<Rightarrow> fs \<Rightarrow> string result \<times> fs" where
  "openDaemonLogFile rnd sock logPath w =
     (if logPath \<noteq> []
      then (case osMkdirAll (filepathDir logPath) w of
              (Inl e, w) \<Rightarrow> (Inl (Wrap ''create daemon log directory'' e), w)
            | (Inr _, w) \<Rightarrow>
                (case osOpenAppend (filepathClean logPath) w of
                   (Inl e, w) \<Rightarrow> (Inl (Wrap ''open daemon log file'' e), w)
                 | (Inr _, w) \<Rightarrow> (Inr logPath, w)))
      else (case osMkdirAll (filepathDir sock) w of
              (Inl e, w) \<Rightarrow> (Inl (Wrap ''create socket dir'' e), w)
            | (Inr _, w) \<Rightarrow>
                (case osCreateTemp (filepathDir sock) ''hauntty-server-'' rnd ''.log'' w of
                   (Inl e, w) \<Rightarrow> (Inl (Wrap ''create daemon log'' e), w)
                 | (Inr p, w) \<Rightarrow> (Inr p, w))))"

section \<open>Starting and waiting\<close>

record startEnv =
  de_defaultSocket :: string
  de_probe :: "bool outcome"
  de_exe :: "string result"
  de_rnd :: string
  de_start :: "string \<Rightarrow> string list \<Rightarrow> u32 result"
  de_polls :: "(bool outcome \<times> wait4Result) list"
  de_release :: "gerror option"

datatype childState = NoChild | Running u32 | Released u32 | Reaped u32

record startState =
  dt_fs :: fs
  dt_child :: childState
  dt_logOpen :: bool

text \<open>\<open>Process.Release\<close>: it may fail, and then nothing is released.\<close>

definition releaseChild :: "gerror option \<Rightarrow> startState \<Rightarrow> gerror option \<times> startState" where
  "releaseChild rel st =
     (case (rel, dt_child st) of
        (None, Running pid) \<Rightarrow> (None, st\<lparr>dt_child := Released pid\<rparr>)
      | (r, _) \<Rightarrow> (r, st))"

text \<open>The polling loop up to its deadline. A process that \<open>wait4\<close> reported is reaped.\<close>

fun pollDaemon :: "gerror option \<Rightarrow> string \<Rightarrow> string \<Rightarrow> (bool outcome \<times> wait4Result) list \<Rightarrow> startState \<Rightarrow> unit cliOutcome \<times> startState" where
  "pollDaemon rel sock logPath [] st = (Inl (CliErr (daemonStartupTimeoutError sock logPath)), st)"
| "pollDaemon rel sock logPath ((probe, wait) # polls) st =
     (case probe of
        Inl e \<Rightarrow> (Inl (CliErr (daemonStartupError sock logPath (clientErrorText e))), st)
      | Inr True \<Rightarrow>
          (case releaseChild rel st of
             (Some e, st) \<Rightarrow> (Inl (CliErr (Wrap ''release daemon process'' e)), st)
           | (None, st) \<Rightarrow> (Inr (), st))
      | Inr False \<Rightarrow>
          (case daemonProcessExited wait of
             (exited, Some e) \<Rightarrow>
               (Inl (CliErr (daemonStartupError sock logPath (error_text e))),
                case (exited, dt_child st) of (True, Running pid) \<Rightarrow> st\<lparr>dt_child := Reaped pid\<rparr> | _ \<Rightarrow> st)
           | (_, None) \<Rightarrow> pollDaemon rel sock logPath polls st))"

text \<open>The deferred calls, in the order they run: release the child, remove a temporary log, close it.\<close>

definition deferRelease :: "gerror option \<Rightarrow> startState \<Rightarrow> startState" where
  "deferRelease rel st = snd (releaseChild rel st)"

definition deferLog :: "bool \<Rightarrow> string \<Rightarrow> startState \<Rightarrow> startState" where
  "deferLog cleanup path st =
     (let st = (if cleanup then st\<lparr>dt_fs := snd (osRemove path (dt_fs st))\<rparr> else st)
      in st\<lparr>dt_logOpen := False\<rparr>)"

definition serverLogPath :: "string \<Rightarrow> u32 \<Rightarrow> string" where
  "serverLogPath sock pid = filepathJoin [filepathDir sock, ''hauntty-server-'' @ string_of_nat (unat pid) @ ''.log'']"

definition awaitDaemon :: "startEnv \<Rightarrow> string \<Rightarrow> string \<Rightarrow> string \<Rightarrow> u32 \<Rightarrow> startState \<Rightarrow> unit cliOutcome \<times> startState" where
  "awaitDaemon env sock logPath logName pid st =
     (if logPath = []
      then (case osRename logName (serverLogPath sock pid) (dt_fs st) of
              (Inl e, w) \<Rightarrow>
                (Inl (CliErr (Wrap ''rename daemon log file'' e)),
                 deferLog True logName (deferRelease (de_release env) (st\<lparr>dt_fs := w\<rparr>)))
            | (Inr _, w) \<Rightarrow>
                (case pollDaemon (de_release env) sock (serverLogPath sock pid) (de_polls env) (st\<lparr>dt_fs := w\<rparr>) of
                   (r, st) \<Rightarrow> (r, deferLog False logName (deferRelease (de_release env) st))))
      else (case pollDaemon (de_release env) sock logName (de_polls env) st of
              (r, st) \<Rightarrow> (r, deferLog False logName (deferRelease (de_release env) st))))"

definition ensureDaemonDetached :: "startEnv \<Rightarrow> string \<Rightarrow> bool \<Rightarrow> string \<Rightarrow> startState \<Rightarrow> unit cliOutcome \<times> startState" where
  "ensureDaemonDetached env socketPath autoExit logPath st =
     (let sock = (if socketPath \<noteq> [] then socketPath else de_defaultSocket env)
      in case de_probe env of
           Inl e \<Rightarrow> (Inl (CliClient e), st)
         | Inr True \<Rightarrow> (Inr (), st)
         | Inr False \<Rightarrow>
        (case de_exe env of
           Inl e \<Rightarrow> (Inl (CliErr (Wrap ''find executable'' e)), st)
         | Inr exe \<Rightarrow>
        (case openDaemonLogFile (de_rnd env) sock logPath (dt_fs st) of
           (Inl e, w) \<Rightarrow> (Inl (CliErr e), st\<lparr>dt_fs := w\<rparr>)
         | (Inr logName, w) \<Rightarrow>
             let st = st\<lparr>dt_fs := w, dt_logOpen := True\<rparr>
             in case de_start env exe (daemonStartArgs socketPath autoExit) of
                  Inl e \<Rightarrow> (Inl (CliErr (Wrap ''start daemon'' e)), deferLog (logPath = []) logName st)
                | Inr pid \<Rightarrow> awaitDaemon env sock logPath logName pid (st\<lparr>dt_child := Running pid\<rparr>))))"

definition ensureDaemon :: "startEnv \<Rightarrow> string \<Rightarrow> startState \<Rightarrow> unit cliOutcome \<times> startState" where
  "ensureDaemon env socketPath st = ensureDaemonDetached env socketPath False [] st"

section \<open>What a start leaves behind\<close>

fun startedPid :: "childState \<Rightarrow> u32 option" where
  "startedPid NoChild = None"
| "startedPid (Running pid) = Some pid"
| "startedPid (Released pid) = Some pid"
| "startedPid (Reaped pid) = Some pid"

text \<open>Between two file systems only directories were added.\<close>

definition dirs_added :: "fs \<Rightarrow> fs \<Rightarrow> bool" where
  "dirs_added w w' \<longleftrightarrow> fs_faults w' = fs_faults w \<and>
     (\<forall>p. map_of (fs_nodes w') p = map_of (fs_nodes w) p
        \<or> map_of (fs_nodes w) p = None \<and> map_of (fs_nodes w') p = Some Dir)"

lemma dirs_added_refl: "dirs_added w w"
  by (simp add: dirs_added_def)

lemma dirs_added_trans: "dirs_added w w1 \<Longrightarrow> dirs_added w1 w2 \<Longrightarrow> dirs_added w w2"
  unfolding dirs_added_def by (metis option.distinct(1))

lemma dirs_added_mkdir: "map_of (fs_nodes w) d = None \<Longrightarrow> dirs_added w (emit [EvMkdir d] w)"
  by (simp add: dirs_added_def emit_def update_conv')

lemma mkdirEach_adds: "mkdirEach ds w = (r, w') \<Longrightarrow> dirs_added w w'"
  by (induction ds w rule: mkdirEach.induct)
    (auto simp: dirs_added_refl split: if_splits intro: dirs_added_trans [OF dirs_added_mkdir])

lemma no_fault: "fs_faults w = [] \<Longrightarrow> nextFault w = (None, w)"
  by (simp add: nextFault_def)

lemma osMkdirAll_adds: "osMkdirAll d w = (r, w') \<Longrightarrow> fs_faults w = [] \<Longrightarrow> dirs_added w w'"
  by (auto simp: osMkdirAll_def no_fault intro: mkdirEach_adds)

text \<open>The log that was opened: a new empty file, or for a given path possibly an existing one.\<close>

definition opened_log :: "string \<Rightarrow> string \<Rightarrow> fs \<Rightarrow> string \<Rightarrow> fs \<Rightarrow> bool" where
  "opened_log logPath sock w name w' \<longleftrightarrow> fs_faults w' = [] \<and>
     (if logPath = []
      then map_of (fs_nodes w) name = None \<and> map_of (fs_nodes w') name = Some (File [])
        \<and> (\<forall>p. p \<noteq> name \<longrightarrow> map_of (fs_nodes w') p = map_of (fs_nodes w) p
             \<or> map_of (fs_nodes w') p = Some Dir)
      else name = logPath
        \<and> (\<forall>p. p \<noteq> filepathClean logPath \<longrightarrow> map_of (fs_nodes w') p = map_of (fs_nodes w) p
             \<or> map_of (fs_nodes w') p = Some Dir))"

lemma openDaemonLogFile_opens:
  assumes "fs_faults w = []"
  shows "openDaemonLogFile rnd sock logPath w = (Inr name, w') \<Longrightarrow> opened_log logPath sock w name w'"
    and "openDaemonLogFile rnd sock logPath w = (Inl e, w') \<Longrightarrow> dirs_added w w'"
proof -
  note frame = osMkdirAll_adds [OF _ assms]
  have faults: "fs_faults w1 = []" if "osMkdirAll d w = (r, w1)" for d r w1
    using frame [OF that] assms by (simp add: dirs_added_def)
  show "opened_log logPath sock w name w'" if "openDaemonLogFile rnd sock logPath w = (Inr name, w')"
    using that frame
    by (auto simp: openDaemonLogFile_def opened_log_def osOpenAppend_def osCreateTemp_def no_fault [OF faults] emit_def
      dirs_added_def update_conv' Let_def assms split: if_splits prod.splits sum.splits option.splits fsnode.splits) (metis option.distinct(1))+
  show "dirs_added w w'" if "openDaemonLogFile rnd sock logPath w = (Inl e, w')"
    using that frame
    by (auto simp: openDaemonLogFile_def osOpenAppend_def osCreateTemp_def no_fault [OF faults] Let_def
      split: if_splits prod.splits sum.splits option.splits fsnode.splits)
qed

text \<open>The polling loop and the deferred release touch only the child.\<close>

definition child_of :: "u32 \<Rightarrow> startState \<Rightarrow> unit cliOutcome \<times> startState \<Rightarrow> (bool outcome \<times> wait4Result) list \<Rightarrow> bool" where
  "child_of pid st out polls \<longleftrightarrow> dt_fs (snd out) = dt_fs st \<and> startedPid (dt_child (snd out)) = Some pid
     \<and> (fst out = Inr () \<longrightarrow> dt_child (snd out) = Released pid \<and> Inr True \<in> fst ` set polls)"

lemma pollDaemon_child_of: "dt_child st = Running pid \<Longrightarrow> child_of pid st (pollDaemon rel sock logPath polls st) polls"
proof (induction polls)
  case Nil
  then show ?case by (simp add: child_of_def)
next
  case (Cons poll polls)
  obtain probe wait where poll: "poll = (probe, wait)" by (cases poll)
  consider (failed) e where "probe = Inl e" | (up) "probe = Inr True" | (down) "probe = Inr False"
    by (metis obj_sumE)
  then show ?case
  proof cases
    case down
    with Cons poll show ?thesis by (cases wait) (simp_all add: child_of_def)
  qed (use Cons.prems poll in \<open>auto simp: child_of_def releaseChild_def split: option.split\<close>)
qed

lemma pollDaemon_child:
  assumes "pollDaemon rel sock logPath polls st = (r, st')" and "dt_child st = Running pid"
  shows "dt_fs st' = dt_fs st" and "startedPid (dt_child st') = Some pid"
    and "r = Inr () \<Longrightarrow> dt_child st' = Released pid \<and> Inr True \<in> fst ` set polls"
  using pollDaemon_child_of [OF assms(2), of rel sock logPath polls] assms(1) by (simp_all add: child_of_def)

lemma deferRelease_child:
  "dt_fs (deferRelease rel st) = dt_fs st"
  "startedPid (dt_child (deferRelease rel st)) = startedPid (dt_child st)"
  "dt_child (deferRelease rel st) = Running pid \<Longrightarrow> rel \<noteq> None"
  "dt_child st = Released pid \<Longrightarrow> dt_child (deferRelease rel st) = Released pid"
  by (auto simp: deferRelease_def releaseChild_def split: option.splits childState.splits)

lemma deferLog_simps [simp]:
  "dt_logOpen (deferLog cleanup path st) = False"
  "dt_child (deferLog cleanup path st) = dt_child st"
  "dt_fs (deferLog cleanup path st) = (if cleanup then snd (osRemove path (dt_fs st)) else dt_fs st)"
  by (simp_all add: deferLog_def Let_def)

text \<open>Every way out of the part after the process has started.\<close>

lemma awaitDaemon_child:
  assumes "awaitDaemon env sock logPath logName pid st = (r, st')" and "dt_child st = Running pid"
  shows "\<not> dt_logOpen st'" and "startedPid (dt_child st') = Some pid"
    and "dt_child st' = Running pid' \<Longrightarrow> de_release env \<noteq> None"
    and "r = Inr () \<Longrightarrow> dt_child st' = Released pid \<and> Inr True \<in> fst ` set (de_polls env)"
  using assms
  by (auto simp: awaitDaemon_def deferRelease_child split: if_splits prod.splits sum.splits
    dest: pollDaemon_child(2) deferRelease_child(3) pollDaemon_child(3))

lemma awaitDaemon_given_log:
  assumes "awaitDaemon env sock logPath logName pid st = (r, st')" and "dt_child st = Running pid" and "logPath \<noteq> []"
  shows "dt_fs st' = dt_fs st"
  using assms by (auto simp: awaitDaemon_def deferRelease_child split: prod.splits dest!: pollDaemon_child(1))

lemma awaitDaemon_temp_log:
  assumes "awaitDaemon env sock [] logName pid st = (r, st')" and "dt_child st = Running pid"
    and "fs_faults (dt_fs st) = []" and "map_of (fs_nodes (dt_fs st)) logName = Some (File d)"
    and "p \<noteq> serverLogPath sock pid"
  shows "map_of (fs_nodes (dt_fs st')) p = (if p = logName then None else map_of (fs_nodes (dt_fs st)) p)"
proof (cases "isDir (fs_nodes (dt_fs st)) (serverLogPath sock pid)")
  case True
  have rename: "osRename logName (serverLogPath sock pid) (dt_fs st) = (Inl (ErrIO ''file exists''), dt_fs st)"
    using True assms(3,4) by (simp add: osRename_def no_fault)
  have "osRemove logName (dt_fs st) = (Inr (), emit [EvRemove logName] (dt_fs st))"
    using assms(3,4) by (simp add: osRemove_def no_fault)
  then have "dt_fs st' = emit [EvRemove logName] (dt_fs st)"
    using assms(1) by (auto simp: awaitDaemon_def rename deferRelease_child)
  then show ?thesis by (simp add: emit_def delete_conv')
next
  case False
  let ?w = "emit [EvRename logName (serverLogPath sock pid)] (dt_fs st)"
  have "osRename logName (serverLogPath sock pid) (dt_fs st) = (Inr (), ?w)"
    using False assms(3,4) by (simp add: osRename_def no_fault)
  then have "dt_fs st' = ?w"
    using assms(1,2) by (auto simp: awaitDaemon_def deferRelease_child split: prod.splits dest!: pollDaemon_child(1))
  then show ?thesis using assms(4,5) by (simp add: emit_def update_conv' delete_conv')
qed

text \<open>The file system after a start, when no file operation fails.\<close>

lemma ensureDaemonDetached_fs:
  assumes run: "ensureDaemonDetached env socketPath autoExit logPath st = (r, st')"
    and faults: "fs_faults (dt_fs st) = []"
    and changed: "map_of (fs_nodes (dt_fs st')) p \<noteq> map_of (fs_nodes (dt_fs st)) p"
  shows "map_of (fs_nodes (dt_fs st')) p = Some Dir
    \<or> logPath \<noteq> [] \<and> p = filepathClean logPath
    \<or> logPath = [] \<and> (\<exists>pid. startedPid (dt_child st') = Some pid
        \<and> p = serverLogPath (if socketPath \<noteq> [] then socketPath else de_defaultSocket env) pid)"
proof -
  let ?sock = "if socketPath \<noteq> [] then socketPath else de_defaultSocket env"
  obtain exe where exe: "de_probe env = Inr False" "de_exe env = Inr exe"
    using run changed by (auto simp: ensureDaemonDetached_def Let_def split: sum.splits bool.splits)
  obtain ro w where opn: "openDaemonLogFile (de_rnd env) ?sock logPath (dt_fs st) = (ro, w)"
    by fastforce
  show ?thesis
  proof (cases ro)
    case (Inl e)
    then have "dirs_added (dt_fs st) w" using openDaemonLogFile_opens(2) [OF faults] opn by simp
    moreover have "dt_fs st' = w" using run opn Inl by (auto simp: ensureDaemonDetached_def Let_def exe)
    ultimately show ?thesis using changed by (auto simp: dirs_added_def)
  next
    case (Inr name)
    then have opened: "opened_log logPath ?sock (dt_fs st) name w"
      using openDaemonLogFile_opens(1) [OF faults] opn by simp
    let ?st = "st\<lparr>dt_fs := w, dt_logOpen := True\<rparr>"
    show ?thesis
    proof (cases "de_start env exe (daemonStartArgs socketPath autoExit)")
      case (Inl e)
      then have "st' = deferLog (logPath = []) name ?st"
        using run opn Inr by (auto simp: ensureDaemonDetached_def Let_def exe)
      then show ?thesis using opened changed
        by (auto simp: opened_log_def osRemove_def no_fault emit_def delete_conv' split: if_splits)
    next
      case start: (Inr pid)
      then have await: "awaitDaemon env ?sock logPath name pid (?st\<lparr>dt_child := Running pid\<rparr>) = (r, st')"
        using run opn Inr by (auto simp: ensureDaemonDetached_def Let_def exe)
      note child = awaitDaemon_child(2) [OF await]
      show ?thesis
      proof (cases "logPath = [] \<and> p = serverLogPath ?sock pid")
        case True
        with child show ?thesis by auto
      next
        case False
        then have "map_of (fs_nodes (dt_fs st')) p = (if logPath = [] \<and> p = name then None else map_of (fs_nodes w) p)"
          using awaitDaemon_given_log [OF await] awaitDaemon_temp_log [of env ?sock name pid _ r st' "[]" p] await opened
          by (cases "logPath = []") (auto simp: opened_log_def)
        then show ?thesis using opened changed by (auto simp: opened_log_def split: if_splits)
      qed
    qed
  qed
qed

text \<open>
  C11. Whatever the operating system answers, starting the daemon leaves the log file closed and no child
  that is neither released nor reaped (short of \<open>Release\<close> itself failing). It succeeds only if the first
  probe found a daemon, and then nothing is touched, or a later probe did and the new process was
  released. When no file operation fails, the only file that is new or different afterwards is the log:
  the given one, or else the log named after the process that was started; a temporary log never stays,
  and a start that got no process leaves at most new directories.
\<close>

theorem ensureDaemonDetached_leaves:
  assumes run: "ensureDaemonDetached env socketPath autoExit logPath st = (r, st')"
    and st: "dt_child st = NoChild" "\<not> dt_logOpen st"
  shows "\<not> dt_logOpen st'
    \<and> (\<forall>pid. dt_child st' = Running pid \<longrightarrow> de_release env \<noteq> None)
    \<and> (r = Inr () \<longrightarrow> de_probe env = Inr True \<and> st' = st
        \<or> de_probe env = Inr False \<and> Inr True \<in> fst ` set (de_polls env) \<and> (\<exists>pid. dt_child st' = Released pid))
    \<and> (fs_faults (dt_fs st) = [] \<longrightarrow>
        (\<forall>p. map_of (fs_nodes (dt_fs st')) p \<noteq> map_of (fs_nodes (dt_fs st)) p \<longrightarrow>
           map_of (fs_nodes (dt_fs st')) p = Some Dir
           \<or> logPath \<noteq> [] \<and> p = filepathClean logPath
           \<or> logPath = [] \<and> (\<exists>pid. startedPid (dt_child st') = Some pid
               \<and> p = serverLogPath (if socketPath \<noteq> [] then socketPath else de_defaultSocket env) pid)))"
proof (intro conjI)
  show "\<not> dt_logOpen st'" "\<forall>pid. dt_child st' = Running pid \<longrightarrow> de_release env \<noteq> None"
    using run st
    by (auto simp: ensureDaemonDetached_def Let_def split: sum.splits bool.splits prod.splits
      dest: awaitDaemon_child(1,3))
  show "r = Inr () \<longrightarrow> de_probe env = Inr True \<and> st' = st
      \<or> de_probe env = Inr False \<and> Inr True \<in> fst ` set (de_polls env) \<and> (\<exists>pid. dt_child st' = Released pid)"
    using run
    by (auto simp: ensureDaemonDetached_def Let_def split: sum.splits bool.splits prod.splits
      dest: awaitDaemon_child(4))
qed (use ensureDaemonDetached_fs [OF run] in blast)

text \<open>A daemon that answers at the second poll, and one that exits with status 1.\<close>

definition demo_startEnv :: "(bool outcome \<times> wait4Result) list \<Rightarrow> startEnv" where
  "demo_startEnv polls = \<lparr>de_defaultSocket = ''/r/s'', de_probe = Inr False, de_exe = Inr ''/bin/ht'', de_rnd = ''x'',
     de_start = (\<lambda>_ _. Inr 7), de_polls = polls, de_release = None\<rparr>"

definition demo_started :: startState where
  "demo_started = \<lparr>dt_fs = \<lparr>fs_env = [], fs_nodes = [], fs_faults = [], fs_trace = []\<rparr>, dt_child = NoChild, dt_logOpen = False\<rparr>"

lemma demo_startEnv_runs:
  "fst (ensureDaemonDetached (demo_startEnv [(Inr False, Wait4Running), (Inr True, Wait4Running)]) [] False [] demo_started) = Inr ()"
  "dt_child (snd (ensureDaemonDetached (demo_startEnv [(Inr False, Wait4Running), (Inr True, Wait4Running)])
     [] False [] demo_started)) = Released 7"
  "map_of (fs_nodes (dt_fs (snd (ensureDaemonDetached (demo_startEnv [(Inr False, Wait4Running), (Inr True, Wait4Running)])
     [] False [] demo_started)))) ''/r/hauntty-server-7.log'' = Some (File [])"
  by code_simp+

theorem ensureDaemonDetached_leaves_witness:
  "\<exists>r st'. ensureDaemonDetached (demo_startEnv [(Inr False, Wait4Running), (Inr True, Wait4Running)]) [] False [] demo_started = (r, st')
     \<and> r = Inr () \<and> (\<exists>pid. dt_child st' = Released pid)
     \<and> map_of (fs_nodes (dt_fs st')) ''/r/hauntty-server-7.log'' = Some (File [])
     \<and> map_of (fs_nodes (dt_fs st')) ''/r/hauntty-server-x.log'' \<noteq> Some (File [])"
proof -
  let ?env = "demo_startEnv [(Inr False, Wait4Running), (Inr True, Wait4Running)]"
  obtain r st' where run: "ensureDaemonDetached ?env [] False [] demo_started = (r, st')" by fastforce
  have start: "dt_child demo_started = NoChild" "\<not> dt_logOpen demo_started" "fs_nodes (dt_fs demo_started) = []"
    "fs_faults (dt_fs demo_started) = []" "de_defaultSocket ?env = ''/r/s''"
    by (simp_all add: demo_started_def demo_startEnv_def)
  note post = ensureDaemonDetached_leaves [OF run start(1,2)]
  have ran: "r = Inr ()" "dt_child st' = Released 7"
    "map_of (fs_nodes (dt_fs st')) ''/r/hauntty-server-7.log'' = Some (File [])"
    using demo_startEnv_runs run by simp_all
  have "serverLogPath ''/r/s'' 7 = ''/r/hauntty-server-7.log''" by code_simp
  then have "map_of (fs_nodes (dt_fs st')) ''/r/hauntty-server-x.log'' \<noteq> Some (File [])"
    using post ran(2) start(3-5) by auto
  with run ran show ?thesis by blast
qed

end
