(* ===== verification/Cli_Base.thy ===== *)
theory Cli_Base
  imports Daemon_Start Client_Attach
begin

text \<open>
  What the commands of \<open>cmd/ht\<close> share: the process a command runs in (\<open>cliHost\<close>: environment,
  terminal, working directory, the result of dialling the daemon, the readings of the clock in
  nanoseconds, what the attached terminal and connection deliver), what it changes (\<open>cliIO\<close>), early
  return on an error, the connection every command opens and closes, and the pure helpers of
  \<open>main.go\<close> that build requests and render replies. The regular expression engine, the local time zone,
  the key encoders and the TOML encoder are parameters.
\<close>

definition nl :: string where "nl = [CHR 0x0A]"

section \<open>Commands as state passing functions\<close>

record cliHost =
  ch_env :: "string list"
  ch_uid :: nat
  ch_tty :: bool
  ch_cwd :: "string result"
  ch_winsize :: "(u16 \<times> u16 \<times> u16 \<times> u16) result"
  ch_version :: string
  ch_dial :: "string \<Rightarrow> conn result \<times> sysErr option"
  ch_localTime :: "u32 \<Rightarrow> string"
  ch_regexp :: "string \<Rightarrow> (string \<Rightarrow> bool) result"
  ch_toml :: "config \<Rightarrow> byte list result"
  ch_clock :: "int list"
  ch_start :: startEnv
  ch_keySetup :: "gerror option"
  ch_encLegacy :: "keyEvent \<Rightarrow> byte list result"
  ch_encKitty :: "keyEvent \<Rightarrow> byte list result"
  ch_report :: "byte list option list option"
  ch_rawErr :: "gerror option"
  ch_reads :: "message result list"

record cliIO =
  io_term :: hostTerm
  io_conn :: conn
  io_open :: bool
  io_start :: startState

type_synonym 'a cmd = "cliIO \<Rightarrow> 'a cliOutcome \<times> cliIO"

definition cret :: "'a \<Rightarrow> 'a cmd" where
  "cret v io = (Inr v, io)"

definition cfail :: "cliError \<Rightarrow> 'a cmd" where
  "cfail e io = (Inl e, io)"

definition cbind :: "'a cmd \<Rightarrow> ('a \<Rightarrow> 'b cmd) \<Rightarrow> 'b cmd" where
  "cbind m f io = (case m io of (Inl e, io) \<Rightarrow> (Inl e, io) | (Inr v, io) \<Rightarrow> f v io)"

text \<open>\<open>fmt.Printf\<close> and \<open>fmt.Fprint(os.Stderr)\<close>, whose errors the code drops.\<close>

definition cprint :: "string \<Rightarrow> unit cmd" where
  "cprint s io = (Inr (), io\<lparr>io_term := snd (stdoutWrite (bytes_of_string s) (io_term io))\<rparr>)"

definition cwrite :: "byte list \<Rightarrow> unit cmd" where
  "cwrite data io = (case stdoutWrite data (io_term io) of (r, ht) \<Rightarrow> (map_sum CliErr id r, io\<lparr>io_term := ht\<rparr>))"

definition ceprint :: "string \<Rightarrow> unit cmd" where
  "ceprint s io = (Inr (), io\<lparr>io_term := stderrPrint s (io_term io)\<rparr>)"

definition ccall :: "(conn \<Rightarrow> 'a outcome \<times> conn) \<Rightarrow> 'a cmd" where
  "ccall f io = (case f (io_conn io) of (r, c) \<Rightarrow> (map_sum CliClient id r, io\<lparr>io_conn := c\<rparr>))"

definition cguard :: "'a result \<Rightarrow> ('a \<Rightarrow> 'b cmd) \<Rightarrow> 'b cmd" where
  "cguard r f = (case r of Inl e \<Rightarrow> cfail (CliErr e) | Inr v \<Rightarrow> f v)"

text \<open>\<open>client.Connect\<close>, the command's body, and the deferred \<open>c.Close\<close>.\<close>

definition dialPath :: "cliHost \<Rightarrow> string \<Rightarrow> string" where
  "dialPath h socketPath = (if socketPath \<noteq> [] then socketPath else SocketPath (ch_env h) (ch_uid h))"

definition withClientOr :: "cliHost \<Rightarrow> string \<Rightarrow> (sysErr option \<Rightarrow> clientError \<Rightarrow> 'r)
     \<Rightarrow> (cliIO \<Rightarrow> 'r \<times> cliIO) \<Rightarrow> cliIO \<Rightarrow> 'r \<times> cliIO" where
  "withClientOr h socketPath onErr body io =
     (case ch_dial h (dialPath h socketPath) of (dial, opErr) \<Rightarrow>
        (case Connect (ch_version h) dial of
           Inl e \<Rightarrow> (onErr opErr e, io)
         | Inr c \<Rightarrow> (case body (io\<lparr>io_conn := c, io_open := True\<rparr>) of (r, io) \<Rightarrow> (r, io\<lparr>io_open := False\<rparr>))))"

definition withClient :: "cliHost \<Rightarrow> string \<Rightarrow> 'a cmd \<Rightarrow> 'a cmd" where
  "withClient h socketPath body = withClientOr h socketPath (\<lambda>_ e. Inl (CliClient e)) body"

text \<open>\<open>hauntty.Version\<close> on the build settings the binary carries; later settings of a key win.\<close>

definition Version :: "(string \<times> string) list option \<Rightarrow> string" where
  "Version info =
     (case info of
        None \<Rightarrow> ''unknown''
      | Some settings \<Rightarrow>
          let (revision, dirty) = foldl (\<lambda>(rev, dirty) (key, val).
                if key = ''vcs.revision'' then (val, dirty)
                else if key = ''vcs.modified'' then (rev, val = ''true'')
                else (rev, dirty)) ([], False) settings
          in if revision = [] then ''unknown''
             else (if length revision > 12 then take 12 revision else revision) @ (if dirty then ''-dirty'' else []))"

section \<open>Exit codes\<close>

text \<open>The errors with an \<open>ExitCode\<close> method, and the text of those with \<open>Stderr\<close>.\<close>

fun exitCoder :: "cliError \<Rightarrow> int option" where
  "exitCoder (CliExit code stderr) = Some code"
| "exitCoder (CliClient (ExitError code)) = Some code"
| "exitCoder _ = None"

fun stderrProvider :: "cliError \<Rightarrow> string option" where
  "stderrProvider (CliExit code stderr) = Some stderr"
| "stderrProvider _ = None"

datatype processEnd = MainReturns | OsExit int | FatalIfErrorf cliError

text \<open>\<open>main\<close> after a command has run.\<close>

definition mainExit :: "unit cliOutcome \<Rightarrow> hostTerm \<Rightarrow> processEnd \<times> hostTerm" where
  "mainExit r ht =
     (case r of
        Inr _ \<Rightarrow> (MainReturns, ht)
      | Inl e \<Rightarrow>
          (case exitCoder e of
             Some code \<Rightarrow>
               (OsExit code,
                case stderrProvider e of
                  Some stderr \<Rightarrow> if stderr \<noteq> [] then stderrPrint stderr ht else ht
                | None \<Rightarrow> ht)
           | None \<Rightarrow> (FatalIfErrorf e, ht)))"

section \<open>Environment and default command\<close>

text \<open>\<open>os.LookupEnv\<close>: the first entry with the key before its first equals sign.\<close>

definition lookupEnv :: "string list \<Rightarrow> string \<Rightarrow> string option" where
  "lookupEnv env key =
     (if key = [] then None
      else map_option (\<lambda>e. fst (snd (cutAt (CHR ''='') e)))
             (List.find (\<lambda>e. fst (cutAt (CHR ''='') e) = key \<and> snd (snd (cutAt (CHR ''='') e))) env))"

definition alwaysForwardEnv :: "string list" where
  "alwaysForwardEnv = [''TERM'', ''SHELL'']"

definition forwardKeys :: "(string \<Rightarrow> string option) \<Rightarrow> string list \<Rightarrow> string list" where
  "forwardKeys lookup keys = List.map_filter (\<lambda>key. map_option (\<lambda>val. key @ ''='' @ val) (lookup key)) keys"

definition collectForwardedEnv :: "string list \<Rightarrow> (string \<Rightarrow> string option) \<Rightarrow> string list" where
  "collectForwardedEnv extra lookup = forwardKeys lookup alwaysForwardEnv @ forwardKeys lookup extra"

definition attachMetadataFunc ::
  "string list \<Rightarrow> (string \<Rightarrow> string option) \<Rightarrow> (u16 \<times> u16 \<times> u16 \<times> u16) result \<Rightarrow> string result \<Rightarrow> attachMetadata result" where
  "attachMetadataFunc extraEnv lookup winsize cwd =
     (case winsize of
        Inl e \<Rightarrow> Inl (Wrap ''get terminal size'' e)
      | Inr (wsCol, wsRow, wsXpixel, wsYpixel) \<Rightarrow>
          (case cwd of
             Inl e \<Rightarrow> Inl (Wrap ''get cwd'' e)
           | Inr dir \<Rightarrow>
               Inr \<lparr>am_Cols = wsCol, am_Rows = wsRow, am_Xpixel = wsXpixel, am_Ypixel = wsYpixel,
                    am_Env = collectForwardedEnv extraEnv lookup, am_CWD = dir\<rparr>))"

text \<open>\<open>strings.Fields\<close> on ASCII white space.\<close>

function stringsFields :: "string \<Rightarrow> string list" where
  "stringsFields s =
     (case dropWhile isSpaceAscii s of
        [] \<Rightarrow> []
      | c # cs \<Rightarrow> (c # takeWhile (\<lambda>d. \<not> isSpaceAscii d) cs) # stringsFields (dropWhile (\<lambda>d. \<not> isSpaceAscii d) cs))"
  by auto

lemma stringsFields_shrinks: "dropWhile isSpaceAscii s = c # cs \<Longrightarrow> length (dropWhile P cs) < length s"
  using length_dropWhile_le [of isSpaceAscii s] length_dropWhile_le [of P cs] by simp

termination stringsFields
  by (relation "measure length") (auto simp: stringsFields_shrinks)

declare stringsFields.simps [simp del]

definition resolveDefaultCommand :: "string list \<Rightarrow> config \<Rightarrow> string list" where
  "resolveDefaultCommand command cfg =
     (if command \<noteq> [] then command
      else if sf_DefaultCommand (cfg_Session cfg) = [] then []
      else stringsFields (sf_DefaultCommand (cfg_Session cfg)))"

section \<open>Rendering replies\<close>

definition decimal :: "'a::len word \<Rightarrow> string" where
  "decimal n = string_of_nat (unat n)"

text \<open>The home directory shortened to a tilde, as \<open>sessionListRows\<close> and \<open>StatusCmd\<close> do it.\<close>

definition abbreviateHome :: "string \<Rightarrow> string \<Rightarrow> string" where
  "abbreviateHome home cwd = (if home \<noteq> [] \<and> hasPrefix cwd home then ''~'' @ drop (length home) cwd else cwd)"

definition formatSessionPID :: "u32 \<Rightarrow> string" where
  "formatSessionPID pid = (if pid = 0 then ''-'' else decimal pid)"

definition formatSessionTimestamp :: "(u32 \<Rightarrow> string) \<Rightarrow> u32 \<Rightarrow> string" where
  "formatSessionTimestamp localTime ts = (if ts = 0 then ''-'' else localTime ts)"

definition sessionHeader :: "string list" where
  "sessionHeader = [''NAME'', ''STATE'', ''SIZE'', ''CWD'', ''PID'', ''CREATED'', ''SAVED'']"

definition sessionListRows :: "(u32 \<Rightarrow> string) \<Rightarrow> clientSession list \<Rightarrow> bool \<Rightarrow> string \<Rightarrow> string list list" where
  "sessionListRows localTime sessions showAll home =
     sessionHeader #
     map (\<lambda>s. [cs_Name s, cs_State s, decimal (cs_Cols s) @ ''x'' @ decimal (cs_Rows s),
               abbreviateHome home (cs_CWD s), formatSessionPID (cs_PID s),
               formatSessionTimestamp localTime (cs_CreatedAt s), formatSessionTimestamp localTime (cs_SavedAt s)])
       (filter (\<lambda>s. showAll \<or> cs_State s \<noteq> SessionStateDead) sessions)"

text \<open>
  \<open>text/tabwriter\<close> with padding 2 on rows of equally many cells: each column but the last is as wide as
  its widest cell and the padding. The cells hold no tabs or line breaks; a width counts UTF-8
  sequences.
\<close>

definition cellWidth :: "string \<Rightarrow> nat" where
  "cellWidth s = length (filter (\<lambda>c. \<not> (128 \<le> (of_char c :: nat) \<and> (of_char c :: nat) < 192)) s)"

definition columnWidth :: "string list list \<Rightarrow> nat \<Rightarrow> nat" where
  "columnWidth tbl j = foldr (\<lambda>row w. max (cellWidth (row ! j)) w) tbl 0 + 2"

definition tabCell :: "string list list \<Rightarrow> string list \<Rightarrow> nat \<Rightarrow> string" where
  "tabCell tbl row j = row ! j @ replicate (columnWidth tbl j - cellWidth (row ! j)) (CHR '' '')"

definition tabRow :: "string list list \<Rightarrow> string list \<Rightarrow> string" where
  "tabRow tbl row = concat (map (tabCell tbl row) [0..<6]) @ row ! 6 @ [CHR 0x0A]"

definition writeSessionRows :: "string list list \<Rightarrow> unit cmd" where
  "writeSessionRows tbl = cwrite (bytes_of_string (concat (map (tabRow tbl) tbl)))"

text \<open>
  The conversions through \<open>time.Duration\<close> and \<open>float64\<close> are exact enough for every \<open>uint32\<close>: truncating
  the hours, minutes and seconds is integer division.
\<close>

definition formatUptime :: "u32 \<Rightarrow> string" where
  "formatUptime seconds =
     (let h = unat seconds div 3600; m = unat seconds div 60 mod 60; s = unat seconds mod 60
      in if h > 0 then string_of_nat h @ ''h '' @ string_of_nat m @ ''m''
         else if m > 0 then string_of_nat m @ ''m '' @ string_of_nat s @ ''s''
         else string_of_nat s @ ''s'')"

section \<open>Dump formats and waiting\<close>

definition dumpRequestFormat :: "string \<Rightarrow> bool \<Rightarrow> bool \<Rightarrow> u8" where
  "dumpRequestFormat format join scrollback =
     (let value = (if format = ''vt'' then DumpVT else if format = ''html'' then DumpHTML else 0);
          value = (if join then value OR DumpFlagUnwrap else value)
      in if scrollback then value OR DumpFlagScrollback else value)"

definition compileWaitMatcher :: "(string \<Rightarrow> (string \<Rightarrow> bool) result) \<Rightarrow> string \<Rightarrow> bool \<Rightarrow> (string \<Rightarrow> bool) result" where
  "compileWaitMatcher regexpCompile pattern regex =
     (if regex
      then (case regexpCompile pattern of
              Inl e \<Rightarrow> Inl (Wrap ''invalid regex'' e)
            | Inr matchString \<Rightarrow> Inr matchString)
      else Inr (\<lambda>s. indexSub s pattern \<noteq> None))"

definition waitContent :: "string \<Rightarrow> int \<Rightarrow> string" where
  "waitContent content row =
     (if row < 0 then content
      else let lines = splitOn (CHR 0x0A) content
           in if row \<ge> int (length lines) then [] else lines ! nat row)"

end
