(* ===== verification/Cli_Completion.thy ===== *)
theory Cli_Completion
  imports Cli_Base
begin

text \<open>
  Shell completion: \<open>internal/completion/completion.go\<close> and \<open>cmd/ht/completion.go\<close>. The command tree
  is what the code reads of the parser's nodes (a nil entry is \<open>None\<close>; a flag's short name is a
  character, 0 for none). The three scripts are the text templates, executed: \<open>{{-\<close> removes the white
  space before it, so each line of a loop starts with its line break.
\<close>

section \<open>The command tree and the specification\<close>

record kongFlag =
  kf_Name :: string
  kf_Short :: char
  kf_Help :: string
  kf_Hidden :: bool
  kf_IsBool :: bool
  kf_EnumSlice :: "string list"

record kongCommand =
  kc_Name :: string
  kc_Aliases :: "string list"
  kc_Help :: string
  kc_Hidden :: bool
  kc_Flags :: "kongFlag option list"
  kc_Positional :: "string list"

record kongNode =
  kn_Name :: string
  kn_Flags :: "kongFlag option list"
  kn_Children :: "kongCommand option list"

record flag =
  fl_Name :: string
  fl_Short :: char
  fl_Help :: string
  fl_HasValue :: bool
  fl_Enum :: "string list"

record positional =
  po_Name :: string
  po_DynamicTopic :: string

record command =
  cm_Name :: string
  cm_Aliases :: "string list"
  cm_Help :: string
  cm_Flags :: "flag list"
  cm_Positionals :: "positional list"

record spec =
  sp_GlobalFlags :: "flag list"
  sp_Commands :: "command list"

definition nonEmptyValues :: "string list \<Rightarrow> string list" where
  "nonEmptyValues values = filter (\<lambda>v. trimSpace v \<noteq> []) values"

definition collectFlags :: "kongFlag option list \<Rightarrow> flag list" where
  "collectFlags flags =
     List.map_filter (\<lambda>f. case f of
         None \<Rightarrow> None
       | Some f \<Rightarrow> if kf_Hidden f then None
           else Some \<lparr>fl_Name = kf_Name f, fl_Short = kf_Short f, fl_Help = kf_Help f, fl_HasValue = (\<not> kf_IsBool f),
                      fl_Enum = nonEmptyValues (kf_EnumSlice f)\<rparr>) flags"

definition collectPositionals :: "kongCommand \<Rightarrow> string \<Rightarrow> positional list" where
  "collectPositionals node firstPositionalTopic =
     map (\<lambda>(i, p). \<lparr>po_Name = map toLowerAscii p, po_DynamicTopic = (if i = 0 then firstPositionalTopic else [])\<rparr>)
       (enumerate 0 (kc_Positional node))"

text \<open>A missing key of the topic map reads as the empty string.\<close>

definition topicOf :: "(string \<times> string) list \<Rightarrow> string \<Rightarrow> string" where
  "topicOf topics name = (case map_of topics name of None \<Rightarrow> [] | Some t \<Rightarrow> t)"

definition BuildSpec :: "kongNode option \<Rightarrow> (string \<times> string) list \<Rightarrow> spec" where
  "BuildSpec root topics =
     (case root of
        None \<Rightarrow> \<lparr>sp_GlobalFlags = [], sp_Commands = []\<rparr>
      | Some root \<Rightarrow>
          \<lparr>sp_GlobalFlags = collectFlags (kn_Flags root),
           sp_Commands = List.map_filter (\<lambda>child. case child of
               None \<Rightarrow> None
             | Some c \<Rightarrow> if kc_Hidden c then None
                 else Some \<lparr>cm_Name = kc_Name c, cm_Aliases = kc_Aliases c, cm_Help = kc_Help c,
                            cm_Flags = collectFlags (kc_Flags c),
                            cm_Positionals = collectPositionals c (topicOf topics (kc_Name c))\<rparr>) (kn_Children root)\<rparr>)"

section \<open>Render data\<close>

definition dq :: string where "dq = [CHR 0x22]"
definition sq :: string where "sq = [CHR 0x27]"
definition bsl :: string where "bsl = [CHR 0x5C]"

record commandRender =
  cx_Name :: string
  cx_Help :: string
  cx_AllNames :: "string list"
  cx_SeenNames :: string
  cx_CasePattern :: string
  cx_Flags :: "flag list"
  cx_Positionals :: "positional list"
  cx_DynamicName :: string
  cx_DynamicTopic :: string
  cx_BashFlags :: string
  cx_ZshArgsBlock :: string

record renderData =
  rd_Bin :: string
  rd_Helper :: string
  rd_GlobalFlags :: "flag list"
  rd_Commands :: "commandRender list"
  rd_BashCommands :: string
  rd_ZshCommandValues :: string

fun joinWithContinuation :: "string list \<Rightarrow> string \<Rightarrow> string" where
  "joinWithContinuation [] indent = []"
| "joinWithContinuation [line] indent = indent @ line @ nl"
| "joinWithContinuation (line # next # rest) indent =
     indent @ line @ '' '' @ bsl @ nl @ joinWithContinuation (next # rest) indent"

definition fishFlagOpts :: "flag \<Rightarrow> string" where
  "fishFlagOpts f =
     (if fl_HasValue f
      then if fl_Enum f \<noteq> [] then '' -xa '' @ sq @ joinWith '' '' (fl_Enum f) @ sq else '' -x''
      else [])
     @ (if fl_Short f \<noteq> CHR 0x00 then '' -s '' @ [fl_Short f] else [])"

definition zshFlagSpec :: "flag \<Rightarrow> string" where
  "zshFlagSpec f =
     (let help = filter (\<lambda>c. c \<noteq> CHR 0x27) (fl_Help f); short = ''-'' @ [fl_Short f]; long = ''--'' @ fl_Name f
      in if fl_Short f \<noteq> CHR 0x00
         then if fl_HasValue f
              then sq @ ''('' @ short @ '' '' @ long @ '')'' @ sq @ ''{'' @ short @ '','' @ long @ ''=}'' @ sq @ ''['' @ help @ '']:value:'' @ sq
              else sq @ ''('' @ short @ '' '' @ long @ '')'' @ sq @ ''{'' @ short @ '','' @ long @ ''}'' @ sq @ ''['' @ help @ '']'' @ sq
         else if fl_HasValue f
         then if fl_Enum f \<noteq> [] then sq @ long @ ''=['' @ help @ '']:('' @ joinWith '' '' (fl_Enum f) @ '')'' @ sq
              else sq @ long @ ''=['' @ help @ '']:value:'' @ sq
         else sq @ long @ ''['' @ help @ '']'' @ sq)"

definition commandNames :: "command \<Rightarrow> string list" where
  "commandNames cmd = cm_Name cmd # cm_Aliases cmd"

text \<open>The dynamic positional, if the first one has a topic.\<close>

definition dynamicOf :: "positional list \<Rightarrow> string \<times> string" where
  "dynamicOf ps = (case ps of p # _ \<Rightarrow> if po_DynamicTopic p \<noteq> [] then (po_Name p, po_DynamicTopic p) else ([], []) | [] \<Rightarrow> ([], []))"

definition zshPositional :: "string \<Rightarrow> string \<Rightarrow> nat \<times> positional \<Rightarrow> string" where
  "zshPositional bin helper = (\<lambda>(i, p).
     if i = 0 \<and> po_DynamicTopic p \<noteq> []
     then sq @ string_of_nat (i + 1) @ '':'' @ po_Name p @ '':($('' @ bin @ '' '' @ helper @ '' '' @ po_DynamicTopic p @ ''))'' @ sq
     else sq @ string_of_nat (i + 1) @ '':'' @ po_Name p @ '':'' @ sq)"

definition zshArgs :: "string \<Rightarrow> string \<Rightarrow> command \<Rightarrow> string list" where
  "zshArgs bin helper cmd =
     (let args = map zshFlagSpec (cm_Flags cmd) @ map (zshPositional bin helper) (enumerate 0 (cm_Positionals cmd))
      in if args = [] then [sq @ ''*:arg:'' @ sq] else args)"

definition bashFlags :: "command \<Rightarrow> string list" where
  "bashFlags cmd =
     concat (map (\<lambda>f. (''--'' @ fl_Name f) # (if fl_Short f \<noteq> CHR 0x00 then [''-'' @ [fl_Short f]] else [])) (cm_Flags cmd))"

definition renderCommand :: "string \<Rightarrow> string \<Rightarrow> command \<Rightarrow> commandRender" where
  "renderCommand bin helper cmd =
     \<lparr>cx_Name = cm_Name cmd, cx_Help = cm_Help cmd, cx_AllNames = commandNames cmd,
      cx_SeenNames = joinWith '' '' (commandNames cmd), cx_CasePattern = joinWith ''|'' (commandNames cmd),
      cx_Flags = cm_Flags cmd, cx_Positionals = cm_Positionals cmd,
      cx_DynamicName = fst (dynamicOf (cm_Positionals cmd)), cx_DynamicTopic = snd (dynamicOf (cm_Positionals cmd)),
      cx_BashFlags = joinWith '' '' (bashFlags cmd),
      cx_ZshArgsBlock = joinWithContinuation (zshArgs bin helper cmd) ''    ''\<rparr>"

definition buildRenderData :: "string \<Rightarrow> string \<Rightarrow> spec \<Rightarrow> renderData" where
  "buildRenderData bin helper spec =
     \<lparr>rd_Bin = bin, rd_Helper = helper, rd_GlobalFlags = sp_GlobalFlags spec,
      rd_Commands = map (renderCommand bin helper) (sp_Commands spec),
      rd_BashCommands = joinWith '' '' (sort (concat (map commandNames (sp_Commands spec)))),
      rd_ZshCommandValues = joinWithContinuation
        (concat (map (\<lambda>cmd. map (\<lambda>name. quoted (name @ ''['' @ cm_Help cmd @ '']'')) (commandNames cmd)) (sp_Commands spec)))
        ''        ''\<rparr>"

section \<open>The scripts\<close>

definition renderFish :: "renderData \<Rightarrow> string" where
  "renderFish d =
     (let complete = nl @ ''complete -c '' @ rd_Bin d @ '' -f''
      in ''# fish shell completion for '' @ rd_Bin d @ nl @ ''# generated by hauntty''
         @ concat (map (\<lambda>f. complete @ fishFlagOpts f @ '' -l '' @ fl_Name f @ '' -d '' @ quoted (fl_Help f)) (rd_GlobalFlags d))
         @ concat (map (\<lambda>c.
             concat (map (\<lambda>n. complete @ '' -n '' @ sq @ ''__fish_use_subcommand'' @ sq @ '' -a '' @ n
               @ '' -d '' @ quoted (cx_Help c)) (cx_AllNames c))
             @ concat (map (\<lambda>f. complete @ '' -n '' @ sq @ ''__fish_seen_subcommand_from '' @ cx_SeenNames c @ sq
               @ fishFlagOpts f @ '' -l '' @ fl_Name f @ '' -d '' @ quoted (fl_Help f)) (cx_Flags c))
             @ (if cx_DynamicTopic c \<noteq> []
                then complete @ '' -n '' @ sq @ ''__fish_seen_subcommand_from '' @ cx_SeenNames c @ sq @ '' -a '' @ dq @ ''(''
                  @ rd_Bin d @ '' '' @ rd_Helper d @ '' '' @ cx_DynamicTopic c @ '')'' @ dq @ '' -d '' @ quoted (cx_DynamicName c)
                else [])) (rd_Commands d))
         @ nl)"

definition renderZsh :: "renderData \<Rightarrow> string" where
  "renderZsh d =
     (let bin = rd_Bin d
      in ''#compdef '' @ bin @ nl @ ''compdef _'' @ bin @ '' '' @ bin @ nl @ ''_'' @ bin @ ''() {'' @ nl
         @ ''  local line state'' @ nl @ ''  _arguments -S -C -s '' @ bsl
         @ concat (map (\<lambda>f. nl @ ''    '' @ zshFlagSpec f @ '' '' @ bsl) (rd_GlobalFlags d))
         @ nl @ ''    '' @ dq @ ''1: :->cmds'' @ dq @ '' '' @ bsl @ nl @ ''    '' @ dq @ ''*::arg:->args'' @ dq @ nl
         @ ''  case '' @ dq @ ''$state'' @ dq @ '' in'' @ nl @ ''    cmds)'' @ nl
         @ ''      _values '' @ quoted (bin @ '' command'') @ '' '' @ bsl @ nl
         @ rd_ZshCommandValues d @ ''      ;;'' @ nl @ ''    args)'' @ nl
         @ ''      case '' @ dq @ ''$line[1]'' @ dq @ '' in''
         @ concat (map (\<lambda>c. nl @ ''        '' @ cx_CasePattern c @ '') _'' @ bin @ ''_'' @ cx_Name c @ '';;'') (rd_Commands d))
         @ nl @ ''      esac'' @ nl @ ''      ;;'' @ nl @ ''  esac'' @ nl @ ''}''
         @ concat (map (\<lambda>c. nl @ ''_'' @ bin @ ''_'' @ cx_Name c @ ''() {'' @ nl @ ''  _arguments '' @ bsl @ nl
             @ cx_ZshArgsBlock c @ ''}'') (rd_Commands d))
         @ nl)"

definition renderBash :: "renderData \<Rightarrow> string" where
  "renderBash d =
     (let bin = rd_Bin d; reply = ''COMPREPLY=( $(compgen -W ''; rest = '' -- '' @ dq @ ''$cur'' @ dq @ '') )'' @ nl
      in ''# bash completion for '' @ bin @ nl @ ''_'' @ bin @ ''_complete() {'' @ nl @ ''  local cur prev cmd'' @ nl
         @ ''  COMPREPLY=()'' @ nl @ ''  cur=${COMP_WORDS[COMP_CWORD]}'' @ nl @ ''  prev=${COMP_WORDS[COMP_CWORD-1]}'' @ nl
         @ ''  cmd=${COMP_WORDS[1]}'' @ nl @ nl @ ''  if [[ ${COMP_CWORD} -eq 1 ]]; then'' @ nl
         @ ''    '' @ reply @ quoted (rd_BashCommands d) @ rest @ ''    return 0'' @ nl @ ''  fi'' @ nl @ nl
         @ ''  case '' @ dq @ ''$cmd'' @ dq @ '' in''
         @ concat (map (\<lambda>c. nl @ ''    '' @ cx_CasePattern c @ '')''
             @ (if cx_DynamicTopic c \<noteq> []
                then nl @ ''      if [[ ${COMP_CWORD} -eq 2 ]]; then'' @ nl @ ''        '' @ reply @ dq @ ''$('' @ bin @ '' ''
                  @ rd_Helper d @ '' '' @ cx_DynamicTopic c @ '')'' @ dq @ rest @ ''        return 0'' @ nl @ ''      fi''
                else [])
             @ (if cx_BashFlags c \<noteq> [] then nl @ ''      '' @ reply @ quoted (cx_BashFlags c) @ rest @ ''      return 0'' else [])
             @ nl @ ''      ;;'') (rd_Commands d))
         @ nl @ ''  esac'' @ nl @ ''}'' @ nl @ ''complete -F _'' @ bin @ ''_complete '' @ bin @ nl)"

definition Generate :: "string \<Rightarrow> string \<Rightarrow> string \<Rightarrow> spec \<Rightarrow> string result" where
  "Generate shell bin helperCommand spec =
     (let data = buildRenderData bin helperCommand spec
      in if shell = ''fish'' then Inr (renderFish data)
         else if shell = ''zsh'' then Inr (renderZsh data)
         else if shell = ''bash'' then Inr (renderBash data)
         else Inl (Errorf (''unsupported shell: '' @ shell)))"

section \<open>The completion commands\<close>

definition completionDynamicTopics :: "(string \<times> string) list" where
  "completionDynamicTopics =
     [(''attach'', ''live_sessions''), (''dump'', ''dumpable_sessions''), (''kill'', ''live_sessions''),
      (''kick'', ''live_sessions''), (''restore'', ''dead_sessions''), (''send'', ''live_sessions''),
      (''status'', ''sessions''), (''wait'', ''dumpable_sessions'')]"

definition includeCompletionSession :: "string \<Rightarrow> clientSession \<Rightarrow> bool" where
  "includeCompletionSession topic session =
     (if topic = ''live_sessions'' then cs_State session = SessionStateRunning
      else if topic = ''dead_sessions'' then cs_State session = SessionStateDead
      else if topic = ''dumpable_sessions'' \<or> topic = ''sessions'' then True
      else False)"

definition completionTopicNames :: "string \<Rightarrow> clientSession list \<Rightarrow> string list" where
  "completionTopicNames topic sessions = map cs_Name (filter (includeCompletionSession topic) sessions)"

definition resolveCompletionShell :: "string list \<Rightarrow> string \<Rightarrow> string result" where
  "resolveCompletionShell env shell =
     (let shell = (if shell = [] then filepathBase (getEnv env ''SHELL'') else shell)
      in if shell \<in> set [''bash'', ''zsh'', ''fish''] then Inr shell
         else if shell = [] then Inl (Errorf (''couldn'' @ sq @ ''t determine user'' @ sq @ ''s shell''))
         else Inl (Errorf (''this shell is not supported ('' @ shell @ '')'')))"

definition completionInitCommand :: "string \<Rightarrow> string \<Rightarrow> string" where
  "completionInitCommand binName shell =
     (if shell = ''fish'' then binName @ '' completion -c fish | source''
      else ''source <('' @ binName @ '' completion -c '' @ shell @ '')'')"

definition completionScript :: "string \<Rightarrow> kongNode option \<Rightarrow> byte list result" where
  "completionScript shell node =
     (case node of
        None \<Rightarrow> Inl (Errorf ''nil command tree'')
      | Some n \<Rightarrow>
          (case Generate shell (kn_Name n) ''__complete'' (BuildSpec node completionDynamicTopics) of
             Inl e \<Rightarrow> Inl e
           | Inr script \<Rightarrow> Inr (bytes_of_string script)))"

text \<open>\<open>ctx.Exit(0)\<close> ends the process as a return does.\<close>

definition CompletionCmd_Run :: "cliHost \<Rightarrow> kongNode \<Rightarrow> string \<Rightarrow> bool \<Rightarrow> unit cmd" where
  "CompletionCmd_Run h node shell code =
     cguard (resolveCompletionShell (ch_env h) shell) (\<lambda>shell.
       if code
       then cguard (completionScript shell (Some node)) (\<lambda>script io.
              case stdoutWrite script (io_term io) of
                (Inl e, ht) \<Rightarrow> (Inl (CliErr (Wrap ''write completion script'' e)), io\<lparr>io_term := ht\<rparr>)
              | (Inr _, ht) \<Rightarrow> (Inr (), io\<lparr>io_term := ht\<rparr>))
       else cprint (''Execute the following command to activate tab completion for '' @ kn_Name node @ '' in '' @ shell @ '':''
              @ nl @ nl @ ''    '' @ completionInitCommand (kn_Name node) shell @ nl @ nl
              @ ''Note that this only takes effect for your current shell session. For permanent activation, add the command to your shell init file.''
              @ nl))"

definition CompletionDataCmd_Run :: "cliHost \<Rightarrow> config \<Rightarrow> string \<Rightarrow> unit cmd" where
  "CompletionDataCmd_Run h cfg topic =
     withClientOr h (dc_SocketPath (cfg_Daemon cfg)) (\<lambda>_ _. Inr ())
       (\<lambda>io. case ccall (ListSessions False) io of
          (Inl e, io) \<Rightarrow> (Inr (), io)
        | (Inr sessions, io) \<Rightarrow> cprint (concat (map (\<lambda>name. name @ nl) (completionTopicNames topic sessions))) io)"

section \<open>Properties\<close>

text \<open>
  The case of an unknown shell is never reached: the base name of an empty path is a dot, so an unset
  \<open>SHELL\<close> is reported as an unsupported shell named by a dot.
\<close>

theorem unset_shell_is_dot:
  assumes "getEnv env ''SHELL'' = []"
  shows "resolveCompletionShell env [] = Inl (Errorf ''this shell is not supported (.)'')"
proof -
  have "filepathBase [] = ''.''" by code_simp
  with assms show ?thesis by (simp add: resolveCompletionShell_def)
qed

text \<open>Every shell that is resolved gets a script, and every topic the scripts ask for is a known one.\<close>

theorem resolved_shell_has_script:
  "resolveCompletionShell env shell = Inr s \<Longrightarrow> \<exists>script. completionScript s (Some node) = Inr script"
  by (auto simp: resolveCompletionShell_def completionScript_def Generate_def Let_def split: if_splits)

theorem topics_known:
  "topicOf completionDynamicTopics name \<noteq> [] \<Longrightarrow>
     topicOf completionDynamicTopics name \<in> {''sessions'', ''live_sessions'', ''dead_sessions'', ''dumpable_sessions''}"
  by (auto simp: topicOf_def completionDynamicTopics_def split: if_splits)

text \<open>The words bash offers are the names and aliases of the visible commands.\<close>

definition is_word :: "string \<Rightarrow> bool" where
  "is_word x \<longleftrightarrow> x \<noteq> [] \<and> (\<forall>c \<in> set x. \<not> isSpaceAscii c)"

lemma fields_Nil [simp]: "stringsFields [] = []"
  by (simp add: stringsFields.simps)

lemma fields_blank: "isSpaceAscii c \<Longrightarrow> stringsFields (c # s) = stringsFields s"
  by (simp add: stringsFields.simps [of "c # s"] stringsFields.simps [of s])

lemma fields_word:
  assumes "is_word x" and "rest = [] \<or> isSpaceAscii (hd rest)"
  shows "stringsFields (x @ rest) = x # stringsFields rest"
proof -
  obtain c cs where x: "x = c # cs" using assms(1) by (cases x) (auto simp: is_word_def)
  have "takeWhile (\<lambda>d. \<not> isSpaceAscii d) (cs @ rest) = cs" "dropWhile (\<lambda>d. \<not> isSpaceAscii d) (cs @ rest) = rest"
    using assms x by (cases rest; auto simp: is_word_def takeWhile_append2 dropWhile_append2)+
  then show ?thesis using x assms(1) by (simp add: stringsFields.simps [of "c # cs @ rest"] is_word_def)
qed

lemma fields_joinWith: "\<forall>x \<in> set xs. is_word x \<Longrightarrow> stringsFields (joinWith '' '' xs) = xs"
proof (induction xs)
  case (Cons x xs)
  show ?case
  proof (cases xs)
    case Nil
    with Cons show ?thesis using fields_word [of x "[]"] by simp
  next
    case (Cons y ys)
    with Cons.IH Cons.prems show ?thesis
      using fields_word [of x "'' '' @ joinWith '' '' xs"] by (simp add: fields_blank isSpaceAscii_def)
  qed
qed simp

theorem bash_offers_commands:
  assumes "\<forall>cmd \<in> set (sp_Commands spec). \<forall>n \<in> set (commandNames cmd). is_word n"
  shows "set (stringsFields (rd_BashCommands (buildRenderData bin helper spec))) = (\<Union>cmd \<in> set (sp_Commands spec). set (commandNames cmd))"
proof -
  have "\<forall>x \<in> set (sort (concat (map commandNames (sp_Commands spec)))). is_word x" using assms by auto
  from fields_joinWith [OF this] show ?thesis by (simp add: buildRenderData_def)
qed

end
