(* ===== verification/Cli_Commands.thy ===== *)
theory Cli_Commands
  imports Cli_Completion Server_Conn
begin

text \<open>
  The commands of \<open>cmd/ht/main.go\<close>: one \<open>Run\<close> function per command, their dispatch, and \<open>main\<close> after the
  command line has been parsed (the parser is a third-party package; what it yields is a
  \<open>cliCommand\<close>). Each function has the guards of the code in its order.
\<close>

section \<open>Attaching and creating\<close>

definition errorf :: "string \<Rightarrow> 'a cmd" where
  "errorf s = cfail (CliErr (Errorf s))"

definition parseDetach :: "cliHost \<Rightarrow> config \<Rightarrow> detachKey result" where
  "parseDetach h cfg =
     (case ParseDetachKey (ch_keySetup h) (ch_encLegacy h) (ch_encKitty h) (cc_DetachKeybind (cfg_Client cfg)) of
        Inl e \<Rightarrow> Inl (Wrap (''invalid detach_keybind '' @ quoted (cc_DetachKeybind (cfg_Client cfg))) e)
      | Inr dk \<Rightarrow> Inr dk)"

definition ensureDaemonCmd :: "cliHost \<Rightarrow> string \<Rightarrow> unit cmd" where
  "ensureDaemonCmd h socketPath io =
     (case ensureDaemon ((ch_start h)\<lparr>de_defaultSocket := SocketPath (ch_env h) (ch_uid h)\<rparr>) socketPath (io_start io) of
        (r, st) \<Rightarrow> (r, io\<lparr>io_start := st\<rparr>))"

definition runAttachCmd :: "cliHost \<Rightarrow> attachOpts \<Rightarrow> unit cmd" where
  "runAttachCmd h opts io =
     (case RunAttach opts (\<lambda>req. fst (clientAttach req (io_conn io))) 
            (map_option (\<lambda>turns. cursorReport turns []) (ch_report h)) (ch_rawErr h) (ch_reads h) (io_term io) of
        (r, ht) \<Rightarrow> (map_sum CliClient id r, io\<lparr>io_term := ht\<rparr>))"

definition metadataOf :: "cliHost \<Rightarrow> config \<Rightarrow> attachMetadata result" where
  "metadataOf h cfg = attachMetadataFunc (cc_ForwardEnv (cfg_Client cfg)) (lookupEnv (ch_env h)) (ch_winsize h) (ch_cwd h)"

definition AttachCmd_Run :: "cliHost \<Rightarrow> config \<Rightarrow> string \<Rightarrow> string list \<Rightarrow> bool \<Rightarrow> unit cmd" where
  "AttachCmd_Run h cfg name command readOnly =
     (let s = getEnv (ch_env h) ''HAUNTTY_SESSION''; sock = dc_SocketPath (cfg_Daemon cfg)
      in if s \<noteq> [] then errorf (''already inside session '' @ quoted s @ '', nested sessions are not supported'')
         else if \<not> ch_tty h
         then if name = [] then errorf ''interactive attach requires a TTY; use `ht new`''
              else errorf (''interactive attach requires a TTY; use `ht new '' @ name @ ''`'')
         else cguard (parseDetach h cfg) (\<lambda>dk.
              cbind (ensureDaemonCmd h sock) (\<lambda>_.
              withClient h sock
                (runAttachCmd h \<lparr>ao_Name = name, ao_Command = resolveDefaultCommand command cfg, ao_DetachKey = dk,
                   ao_Metadata = Some (metadataOf h cfg), ao_ReadOnly = readOnly, ao_Restore = False\<rparr>))))"

definition RestoreCmd_Run :: "cliHost \<Rightarrow> config \<Rightarrow> string \<Rightarrow> bool \<Rightarrow> unit cmd" where
  "RestoreCmd_Run h cfg name readOnly =
     (let s = getEnv (ch_env h) ''HAUNTTY_SESSION''; sock = dc_SocketPath (cfg_Daemon cfg)
      in if s \<noteq> [] then errorf (''already inside session '' @ quoted s @ '', nested sessions are not supported'')
         else if \<not> ch_tty h then errorf ''restore requires a TTY''
         else cguard (parseDetach h cfg) (\<lambda>dk.
              cbind (ensureDaemonCmd h sock) (\<lambda>_.
              withClient h sock
                (runAttachCmd h \<lparr>ao_Name = name, ao_Command = [], ao_DetachKey = dk,
                   ao_Metadata = Some (metadataOf h cfg), ao_ReadOnly = readOnly, ao_Restore = True\<rparr>))))"

definition NewCmd_Run :: "cliHost \<Rightarrow> config \<Rightarrow> string \<Rightarrow> string list \<Rightarrow> bool \<Rightarrow> unit cmd" where
  "NewCmd_Run h cfg name command force =
     (let sock = dc_SocketPath (cfg_Daemon cfg)
      in cbind (ensureDaemonCmd h sock) (\<lambda>_.
         withClient h sock
           (case ch_cwd h of
              Inl e \<Rightarrow> cfail (CliErr (Wrap ''get cwd'' e))
            | Inr cwd \<Rightarrow>
                cbind (ccall (CreateSession \<lparr>opt_Name = name, opt_Command = resolveDefaultCommand command cfg,
                         opt_Env = collectForwardedEnv (cc_ForwardEnv (cfg_Client cfg)) (lookupEnv (ch_env h)),
                         opt_CWD = cwd, opt_Scrollback = 0, opt_Force = force\<rparr>)) (\<lambda>created.
                cprint (''created session '' @ quoted (cr_Name created) @ '' (pid '' @ decimal (cr_PID created) @ '')'' @ nl)))))"

section \<open>Inspecting\<close>

text \<open>Without a daemon, listing and status exit with a hint instead of the dial error.\<close>

definition unavailableExit :: "sysErr option \<Rightarrow> clientError \<Rightarrow> 'a cliOutcome" where
  "unavailableExit opErr e =
     (if DaemonUnavailable opErr
      then Inl (CliExit 1 (''can'' @ sq @ ''t connect to socket, daemon probably not running'' @ nl))
      else Inl (CliClient e))"

definition ListCmd_Run :: "cliHost \<Rightarrow> config \<Rightarrow> bool \<Rightarrow> unit cmd" where
  "ListCmd_Run h cfg showAll =
     withClientOr h (dc_SocketPath (cfg_Daemon cfg)) unavailableExit
       (cbind (ccall (ListSessions False)) (\<lambda>sessions.
        let tbl = sessionListRows (ch_localTime h) sessions showAll (getEnv (ch_env h) ''HOME'')
        in if length tbl = 1 then ceprint (''no sessions'' @ nl) else writeSessionRows tbl))"

definition statusClientLine :: "clientOf \<Rightarrow> string" where
  "statusClientLine cl =
     ''  ['' @ co_ClientID cl @ '']:   '' @ co_Version cl @ (if co_ReadOnly cl then '' (read-only)'' else []) @ nl"

definition statusText :: "string \<Rightarrow> string \<Rightarrow> clientStatus \<Rightarrow> string" where
  "statusText version home resp =
     (let d = cu_Daemon resp
      in ''daemon:   running (pid '' @ decimal (ds_PID d) @ '', uptime '' @ formatUptime (ds_Uptime d) @ '')'' @ nl
         @ ''version:  client='' @ version @ '' server='' @ ds_Version d @ nl
         @ ''socket:   '' @ ds_SocketPath d @ nl
         @ ''sessions: '' @ decimal (ds_RunningCount d) @ '' running, '' @ decimal (ds_DeadCount d) @ '' dead'' @ nl
         @ (case cu_Session resp of
              None \<Rightarrow> []
            | Some s \<Rightarrow>
                nl @ ''session:  '' @ ct_Name s @ nl @ ''state:    '' @ ct_State s @ nl
                @ ''size:     '' @ decimal (ct_Cols s) @ ''x'' @ decimal (ct_Rows s) @ nl
                @ ''cwd:      '' @ abbreviateHome home (ct_CWD s) @ nl
                @ ''pid:      '' @ decimal (ct_PID s) @ nl
                @ ''clients:  '' @ string_of_nat (length (ct_Clients s)) @ nl
                @ concat (map statusClientLine (ct_Clients s))))"

definition StatusCmd_Run :: "cliHost \<Rightarrow> config \<Rightarrow> unit cmd" where
  "StatusCmd_Run h cfg =
     withClientOr h (dc_SocketPath (cfg_Daemon cfg)) unavailableExit
       (cbind (ccall (clientStatusOf (getEnv (ch_env h) ''HAUNTTY_SESSION''))) (\<lambda>resp.
        cprint (statusText (ch_version h) (getEnv (ch_env h) ''HOME'') resp)))"

definition DumpCmd_Run :: "cliHost \<Rightarrow> config \<Rightarrow> string \<Rightarrow> string \<Rightarrow> bool \<Rightarrow> bool \<Rightarrow> unit cmd" where
  "DumpCmd_Run h cfg name format join history =
     (let name = (if name = [] then getEnv (ch_env h) ''HAUNTTY_SESSION'' else name)
      in if name = [] then errorf ''session name required (or run inside a hauntty session)''
         else withClient h (dc_SocketPath (cfg_Daemon cfg))
                (cbind (ccall (clientDump name (dumpRequestFormat format join history))) cwrite))"

record waitCmd =
  wa_Name :: string
  wa_Pattern :: string
  wa_Regex :: bool
  wa_Timeout :: int
  wa_Row :: int

text \<open>
  The polling loop: each turn dumps the screen and then reads the clock. \<open>None\<close>: it is still waiting
  when the readings end. The deadline is computed with the 64 bits of a \<open>time.Duration\<close>.
\<close>

definition waitDeadline :: "int \<Rightarrow> int \<Rightarrow> int" where
  "waitDeadline start timeout = start + sint ((word_of_int timeout :: 64 word) * 1000000)"

fun waitLoop :: "(string \<Rightarrow> bool) \<Rightarrow> waitCmd \<Rightarrow> int \<Rightarrow> int list \<Rightarrow> conn \<Rightarrow> unit cliOutcome option \<times> conn" where
  "waitLoop match cmd deadline [] c = (None, c)"
| "waitLoop match cmd deadline (now # clock) c =
     (case clientDump (wa_Name cmd) DumpPlain c of
        (Inl e, c) \<Rightarrow> (Some (Inl (CliExit 2 (''error: '' @ clientErrorText e @ nl))), c)
      | (Inr data, c) \<Rightarrow>
          if match (waitContent (string_of_bytes data) (wa_Row cmd)) then (Some (Inr ()), c)
          else if now > deadline
          then (Some (Inl (CliExit 1 (''timeout waiting for '' @ quoted (wa_Pattern cmd) @ nl))), c)
          else waitLoop match cmd deadline clock c)"

definition WaitCmd_Run :: "cliHost \<Rightarrow> config \<Rightarrow> waitCmd \<Rightarrow> cliIO \<Rightarrow> unit cliOutcome option \<times> cliIO" where
  "WaitCmd_Run h cfg cmd =
     (case compileWaitMatcher (ch_regexp h) (wa_Pattern cmd) (wa_Regex cmd) of
        Inl e \<Rightarrow> (\<lambda>io. (Some (Inl (CliErr e)), io))
      | Inr match \<Rightarrow>
          withClientOr h (dc_SocketPath (cfg_Daemon cfg))
            (\<lambda>_ e. Some (Inl (CliExit 2 (''error: '' @ clientErrorText e @ nl))))
            (\<lambda>io. case ch_clock h of
               [] \<Rightarrow> (None, io)
             | start # clock \<Rightarrow>
                 (case waitLoop match cmd (waitDeadline start (wa_Timeout cmd)) clock (io_conn io) of
                    (r, c) \<Rightarrow> (r, io\<lparr>io_conn := c\<rparr>))))"

section \<open>Changing sessions\<close>

definition KillCmd_Run :: "cliHost \<Rightarrow> config \<Rightarrow> string \<Rightarrow> unit cmd" where
  "KillCmd_Run h cfg name =
     withClient h (dc_SocketPath (cfg_Daemon cfg))
       (cbind (ccall (clientKill name)) (\<lambda>_. cprint (''killed session '' @ quoted name @ nl)))"

definition KickCmd_Run :: "cliHost \<Rightarrow> config \<Rightarrow> string \<Rightarrow> string \<Rightarrow> unit cmd" where
  "KickCmd_Run h cfg name cid =
     withClient h (dc_SocketPath (cfg_Daemon cfg))
       (cbind (ccall (clientKick name cid)) (\<lambda>_.
        cprint (''kicked client '' @ cid @ '' from session '' @ quoted name @ nl)))"

fun sendTexts :: "string \<Rightarrow> string list \<Rightarrow> unit cmd" where
  "sendTexts name [] = cret ()"
| "sendTexts name (t # ts) = cbind (ccall (clientSend name (bytes_of_string t))) (\<lambda>_. sendTexts name ts)"

fun sendKeys :: "string \<Rightarrow> string list \<Rightarrow> unit cmd" where
  "sendKeys name [] = cret ()"
| "sendKeys name (k # ks) =
     cguard (ParseKeyNotation k) (\<lambda>ki.
     cbind (ccall (clientSendKey name (ki_Code ki) (ki_Mods ki))) (\<lambda>_. sendKeys name ks))"

definition SendCmd_Run :: "cliHost \<Rightarrow> config \<Rightarrow> string \<Rightarrow> string list \<Rightarrow> string list \<Rightarrow> unit cmd" where
  "SendCmd_Run h cfg name text key =
     (if text = [] \<and> key = [] then errorf ''send requires input''
      else withClient h (dc_SocketPath (cfg_Daemon cfg)) (cbind (sendTexts name text) (\<lambda>_. sendKeys name key)))"

definition PruneCmd_Run :: "cliHost \<Rightarrow> config \<Rightarrow> unit cmd" where
  "PruneCmd_Run h cfg =
     withClient h (dc_SocketPath (cfg_Daemon cfg))
       (cbind (ccall clientPrune) (\<lambda>count.
        if count = 0 then cprint (''no dead sessions to prune'' @ nl)
        else cprint (''pruned '' @ decimal count @ '' dead session(s)'' @ nl)))"

section \<open>Configuration and daemon\<close>

text \<open>\<open>os.Stat\<close>, \<open>os.Create\<close> and a write to the created file, which may stop half way.\<close>

definition osStat :: "string \<Rightarrow> fs \<Rightarrow> unit result \<times> fs" where
  "osStat p w =
     (case nextFault w of
        (Some (e, _), w) \<Rightarrow> (Inl (ErrIO e), w)
      | (None, w) \<Rightarrow> (if isDir (fs_nodes w) p \<or> map_of (fs_nodes w) p \<noteq> None then Inr () else Inl ErrNotExist, w))"

definition osCreate :: "string \<Rightarrow> fs \<Rightarrow> unit result \<times> fs" where
  "osCreate p w = osWriteFile p [] w"

definition osFileWrite :: "string \<Rightarrow> byte list \<Rightarrow> fs \<Rightarrow> unit result \<times> fs" where
  "osFileWrite p data w =
     (case nextFault w of
        (Some (e, k), w) \<Rightarrow> (Inl (ErrIO e), emit (map (EvAppend p) (take (case k of None \<Rightarrow> 0 | Some k \<Rightarrow> k) data)) w)
      | (None, w) \<Rightarrow> (Inr (), emit (map (EvAppend p) data) w))"

definition onFs :: "(fs \<Rightarrow> 'a \<times> fs) \<Rightarrow> cliIO \<Rightarrow> 'a \<times> cliIO" where
  "onFs f io = (case f (dt_fs (io_start io)) of (r, w) \<Rightarrow> (r, io\<lparr>io_start := (io_start io)\<lparr>dt_fs := w\<rparr>\<rparr>))"

definition InitCmd_Run :: "cliHost \<Rightarrow> unit cmd" where
  "InitCmd_Run h =
     cguard (DefaultPath (ch_env h)) (\<lambda>path io.
       case onFs (osStat path) io of
         (Inr _, io) \<Rightarrow> errorf (''config already exists: '' @ path) io
       | (Inl _, io) \<Rightarrow>
      (case onFs (osMkdirAll (filepathDir path)) io of
         (Inl e, io) \<Rightarrow> (Inl (CliErr (Wrap ''create config directory'' e)), io)
       | (Inr _, io) \<Rightarrow>
      (case onFs (osCreate path) io of
         (Inl e, io) \<Rightarrow> (Inl (CliErr (Wrap ''create config file'' e)), io)
       | (Inr _, io) \<Rightarrow>
      (case ch_toml h Default of
         Inl e \<Rightarrow> (Inl (CliErr (Wrap ''write config'' e)), io)
       | Inr text \<Rightarrow>
      (case onFs (osFileWrite path text) io of
         (Inl e, io) \<Rightarrow> (Inl (CliErr (Wrap ''write config'' e)), io)
       | (Inr _, io) \<Rightarrow> cprint (''created '' @ path @ nl) io)))))"

definition ConfigCmd_Run :: "cliHost \<Rightarrow> config \<Rightarrow> unit cmd" where
  "ConfigCmd_Run h cfg = cguard (ch_toml h cfg) cwrite"

definition DaemonCmd_validate :: "bool \<Rightarrow> string \<Rightarrow> unit result" where
  "DaemonCmd_validate detach logFile =
     (if logFile \<noteq> [] \<and> \<not> detach then Inl (Errorf ''--log-file requires --detach'') else Inr ())"

text \<open>\<open>listen\<close> is \<open>Server.Listen\<close> on the new server, which returns when the daemon ends;
  \<open>tmp\<close> is the directory for temporary files the daemon starts with.\<close>

definition DaemonCmd_Run :: "tmpfs \<Rightarrow> ('t server \<Rightarrow> unit result) \<Rightarrow> cliHost \<Rightarrow> config \<Rightarrow> bool \<Rightarrow> bool \<Rightarrow> string \<Rightarrow> unit cmd" where
  "DaemonCmd_Run tmp listen h cfg autoExit detach logFile =
     cguard (DaemonCmd_validate detach logFile) (\<lambda>_ io.
       if detach
       then (case ensureDaemonDetached ((ch_start h)\<lparr>de_defaultSocket := SocketPath (ch_env h) (ch_uid h)\<rparr>)
                    (dc_SocketPath (cfg_Daemon cfg)) autoExit logFile (io_start io) of
               (r, st) \<Rightarrow> (r, io\<lparr>io_start := st\<rparr>))
       else let dcfg = (if autoExit then (cfg_Daemon cfg)\<lparr>dc_AutoExit := True\<rparr> else cfg_Daemon cfg)
            in case newServer (ch_env h) (ch_uid h) dcfg (sf_ResizePolicy (cfg_Session cfg)) (dt_fs (io_start io)) tmp of
                 Inl e \<Rightarrow> (Inl (CliErr (Wrap ''init daemon'' e)), io)
               | Inr srv \<Rightarrow> (map_sum CliErr id (listen srv), io))"

section \<open>Dispatch and main\<close>

datatype cliCommand =
    Attach string "string list" bool
  | New string "string list" bool
  | Restore string bool
  | ListSess bool
  | Kill string
  | Send string "string list" "string list"
  | Dump string string bool bool
  | Kick string string
  | WaitFor waitCmd
  | Status
  | Prune
  | Init
  | Config
  | Daemon bool bool string
  | Completion string bool
  | Complete string

text \<open>\<open>ctx.Run\<close> calls the \<open>Run\<close> method of the chosen command.\<close>

definition runs :: "unit cmd \<Rightarrow> cliIO \<Rightarrow> unit cliOutcome option \<times> cliIO" where
  "runs c io = (case c io of (r, io) \<Rightarrow> (Some r, io))"

fun runCommand :: "tmpfs \<Rightarrow> ('t server \<Rightarrow> unit result) \<Rightarrow> kongNode \<Rightarrow> cliHost \<Rightarrow> config \<Rightarrow> cliCommand
    \<Rightarrow> cliIO \<Rightarrow> unit cliOutcome option \<times> cliIO" where
  "runCommand tmp listen node h cfg (Attach name command ro) = runs (AttachCmd_Run h cfg name command ro)"
| "runCommand tmp listen node h cfg (New name command force) = runs (NewCmd_Run h cfg name command force)"
| "runCommand tmp listen node h cfg (Restore name ro) = runs (RestoreCmd_Run h cfg name ro)"
| "runCommand tmp listen node h cfg (ListSess showAll) = runs (ListCmd_Run h cfg showAll)"
| "runCommand tmp listen node h cfg (Kill name) = runs (KillCmd_Run h cfg name)"
| "runCommand tmp listen node h cfg (Send name text key) = runs (SendCmd_Run h cfg name text key)"
| "runCommand tmp listen node h cfg (Dump name format join history) = runs (DumpCmd_Run h cfg name format join history)"
| "runCommand tmp listen node h cfg (Kick name cid) = runs (KickCmd_Run h cfg name cid)"
| "runCommand tmp listen node h cfg (WaitFor cmd) = WaitCmd_Run h cfg cmd"
| "runCommand tmp listen node h cfg Status = runs (StatusCmd_Run h cfg)"
| "runCommand tmp listen node h cfg Prune = runs (PruneCmd_Run h cfg)"
| "runCommand tmp listen node h cfg Init = runs (InitCmd_Run h)"
| "runCommand tmp listen node h cfg Config = runs (ConfigCmd_Run h cfg)"
| "runCommand tmp listen node h cfg (Daemon autoExit detach logFile) = runs (DaemonCmd_Run tmp listen h cfg autoExit detach logFile)"
| "runCommand tmp listen node h cfg (Completion shell code) = runs (CompletionCmd_Run h node shell code)"
| "runCommand tmp listen node h cfg (Complete topic) = runs (CompletionDataCmd_Run h cfg topic)"

text \<open>\<open>main\<close> after parsing; \<open>socketFlag\<close> is the value of \<open>--socket\<close>.\<close>

definition mainAfterParse ::
  "(string \<Rightarrow> config \<Rightarrow> config result) \<Rightarrow> tmpfs \<Rightarrow> ('t server \<Rightarrow> unit result) \<Rightarrow> kongNode \<Rightarrow> cliHost \<Rightarrow> string \<Rightarrow> cliCommand
     \<Rightarrow> cliIO \<Rightarrow> processEnd option \<times> cliIO" where
  "mainAfterParse decodeFile tmp listen node h socketFlag command io =
     (case Load decodeFile (ch_env h) of
        Inl e \<Rightarrow> (Some (FatalIfErrorf (CliErr e)), io)
      | Inr cfg \<Rightarrow>
          let cfg = (if socketFlag \<noteq> [] then cfg\<lparr>cfg_Daemon := (cfg_Daemon cfg)\<lparr>dc_SocketPath := socketFlag\<rparr>\<rparr> else cfg)
          in case runCommand tmp listen node h cfg command io of
               (None, io) \<Rightarrow> (None, io)
             | (Some r, io) \<Rightarrow> (case mainExit r (io_term io) of (ending, ht) \<Rightarrow> (Some ending, io\<lparr>io_term := ht\<rparr>)))"

end
