(* ===== verification/Cli_Props.thy ===== *)
theory Cli_Props
  imports Cli_Commands Terminal_State Server_Props Wire_Props
begin

text \<open>
  Properties of the command line: a dump reaches the emulator's formatter with the flags the user gave and
  comes back unchanged, waiting ends as its exit code says, and no command leaves its connection open.
\<close>

section \<open>Connections are closed\<close>

named_theorems closing \<open>commands that leave no connection open\<close>

definition closes :: "(cliIO \<Rightarrow> 'r \<times> cliIO) \<Rightarrow> bool" where
  "closes c \<longleftrightarrow> (\<forall>io. \<not> io_open io \<longrightarrow> \<not> io_open (snd (c io)))"

lemma closes_base [closing]:
  "closes (cfail e)" "closes (errorf s)" "closes (cprint s)" "closes (cwrite d)" "closes (ensureDaemonCmd h sock)"
  by (simp_all add: closes_def cfail_def errorf_def cprint_def cwrite_def ensureDaemonCmd_def split: prod.split)

lemma closes_withClientOr [closing]: "closes (withClientOr h sock onErr body)"
  by (simp add: closes_def withClientOr_def split: prod.split sum.split)

lemma closes_withClient [closing]: "closes (withClient h sock body)"
  unfolding withClient_def by (rule closes_withClientOr)

lemma closes_cbind [closing]: "closes m \<Longrightarrow> (\<And>v. closes (f v)) \<Longrightarrow> closes (cbind m f)"
  unfolding closes_def cbind_def by (auto split: prod.split sum.split)

lemma closes_if [closing]: "closes a \<Longrightarrow> closes b \<Longrightarrow> closes (if P then a else b)"
  by simp

lemma closes_cguard [closing]: "(\<And>v. closes (f v)) \<Longrightarrow> closes (cguard r f)"
  by (simp add: cguard_def closes_base split: sum.split)

lemma closes_InitCmd [closing]: "closes (InitCmd_Run h)"
  by (simp add: closes_def InitCmd_Run_def cguard_def cfail_def errorf_def cprint_def onFs_def split: prod.split sum.split)

lemma closes_DaemonCmd [closing]: "closes (DaemonCmd_Run tmp listen h cfg autoExit detach logFile)"
  by (simp add: closes_def DaemonCmd_Run_def cguard_def cfail_def Let_def split: prod.split sum.split)

lemma closes_CompletionCmd [closing]: "closes (CompletionCmd_Run h node shell code)"
  by (simp add: closes_def CompletionCmd_Run_def cguard_def cfail_def cprint_def split: prod.split sum.split)

lemma closes_WaitCmd [closing]: "closes (WaitCmd_Run h cfg cmd)"
  unfolding WaitCmd_Run_def by (auto simp: closes_withClientOr split: sum.split) (simp add: closes_def)

lemmas command_defs = AttachCmd_Run_def RestoreCmd_Run_def NewCmd_Run_def ListCmd_Run_def StatusCmd_Run_def DumpCmd_Run_def
  KillCmd_Run_def KickCmd_Run_def SendCmd_Run_def PruneCmd_Run_def ConfigCmd_Run_def CompletionDataCmd_Run_def

lemma closes_command [closing]:
  "closes (AttachCmd_Run h cfg name command ro)" "closes (RestoreCmd_Run h cfg name ro)"
  "closes (NewCmd_Run h cfg name command force)" "closes (ListCmd_Run h cfg showAll)" "closes (StatusCmd_Run h cfg)"
  "closes (DumpCmd_Run h cfg name format join history)" "closes (KillCmd_Run h cfg name)" "closes (KickCmd_Run h cfg name cid)"
  "closes (SendCmd_Run h cfg name text key)" "closes (PruneCmd_Run h cfg)" "closes (ConfigCmd_Run h cfg)"
  "closes (CompletionDataCmd_Run h cfg topic)"
  unfolding command_defs Let_def by (intro closing)+

lemma closes_runs [closing]: "closes c \<Longrightarrow> closes (runs c)"
  by (auto simp: closes_def runs_def split_beta)

text \<open>However a command ends, its connection to the daemon is closed.\<close>

theorem commands_close_connection:
  "\<not> io_open io \<Longrightarrow> \<not> io_open (snd (runCommand tmp listen node h cfg command io))"
proof -
  have "closes (runCommand tmp listen node h cfg command)" by (cases command) (simp_all add: closing)
  then show "\<not> io_open io \<Longrightarrow> ?thesis" by (simp add: closes_def)
qed

section \<open>Listing\<close>

text \<open>
  The home directory is matched as a string, not as a path: a directory beside it whose name starts
  with the same characters is abbreviated too.
\<close>

theorem home_prefix_of_sibling:
  "home \<noteq> [] \<Longrightarrow> abbreviateHome home (home @ beyond) = ''~'' @ beyond"
  by (simp add: abbreviateHome_def hasPrefix_def)

section \<open>Dumping\<close>

text \<open>The dump format the flags of \<open>ht dump\<close> name.\<close>

definition flagsFormat :: "string \<Rightarrow> bool \<Rightarrow> bool \<Rightarrow> terminalFormat" where
  "flagsFormat format join history =
     \<lparr>tf_emit = (if format = ''vt'' then FormatterFormatVT else if format = ''html'' then FormatterFormatHTML else FormatterFormatPlain),
      tf_unwrap = join, tf_scrollback = history, tf_full = False, tf_safe = (format = ''vt'')\<rparr>"

lemma request_format: "terminalDumpFormat (dumpRequestFormat format join history) = flagsFormat format join history"
  by (simp add: terminalDumpFormat_def dumpRequestFormat_def flagsFormat_def Let_def DumpVT_def DumpHTML_def
      DumpFlagUnwrap_def DumpFlagScrollback_def DumpFormatMask_def)

text \<open>What the formatter is asked for, with the selection \<open>dumpScreen\<close> made.\<close>

lemma dump_options:
  "formatterOptsOf (dumpOptions (flagsFormat format join history) sel) =
     (formatterOptsOf [])\<lparr>fo_format := tf_emit (flagsFormat format join history), fo_unwrap := join, fo_trim := True,
        fo_selection := sel, fo_palette := (format = ''html'')\<rparr>"
  by (cases sel)
    (simp_all add: dumpOptions_def formatterOptsOf_def flagsFormat_def FormatterFormatVT_def FormatterFormatHTML_def
      FormatterFormatPlain_def WithFormatterFormat_def WithFormatterUnwrap_def WithFormatterTrim_def
      WithFormatterSelection_def WithFormatterExtraPalette_def)

definition dumpRequest :: "string \<Rightarrow> string \<Rightarrow> bool \<Rightarrow> bool \<Rightarrow> message" where
  "dumpRequest name format join history = MDump \<lparr>dump_Name = name, dump_Format = dumpRequestFormat format join history\<rparr>"

lemma daemon_answers_dump:
  assumes "liveSession name sv = Some ls"
    and "ho_dump hst (flagsFormat format join history) (se_term (ls_sess ls)) = Inr dump"
  shows "controlStep hst itf clientRev (dumpRequest name format join history) sv
    = ((Some (MDumpResponse \<lparr>dumpResponse_Data = dump_Data dump\<rparr>), None, True), sv)"
  using assms by (simp add: controlStep_def dumpRequest_def handleDump_def request_format)

lemma clientDump_reply:
  assumes "wire_ok (MDump \<lparr>dump_Name = name, dump_Format = f\<rparr>)" and "sink_room (c_sink c) = None"
    and "wire_ok (MDumpResponse \<lparr>dumpResponse_Data = data\<rparr>)"
    and "c_in c = wire_bytes (MDumpResponse \<lparr>dumpResponse_Data = data\<rparr>) @ rest"
  obtains c' where "clientDump name f c = (Inr data, c')" and "c_in c' = rest" and "sink_room (c_sink c') = None"
    and "sink_out (c_sink c') = sink_out (c_sink c) @ wire_bytes (MDump \<lparr>dump_Name = name, dump_Format = f\<rparr>)"
proof
  let ?req = "MDump \<lparr>dump_Name = name, dump_Format = f\<rparr>"
  have "WriteMessage ?req (c_sink c) = (Inr (), (c_sink c)\<lparr>sink_out := sink_out (c_sink c) @ wire_bytes ?req\<rparr>)"
    using assms(1,2) by (simp add: wire_ok_def WriteMessage_run sput_def)
  moreover have "ReadMessage (c_in c) = (Inr (MDumpResponse \<lparr>dumpResponse_Data = data\<rparr>), rest)"
    using ReadMessage_wire [OF assms(3)] assms(4) by simp
  ultimately show "clientDump name f c =
      (Inr data, c\<lparr>c_sink := (c_sink c)\<lparr>sink_out := sink_out (c_sink c) @ wire_bytes ?req\<rparr>, c_in := rest\<rparr>)"
    by (simp add: clientDump_def mapOutcome_def request_def asDumpResponse_def)
qed (use assms(2) in simp_all)

lemma DumpCmd_prints:
  assumes "Connect (ch_version h) (fst (ch_dial h (dialPath h (dc_SocketPath (cfg_Daemon cfg))))) = Inr c"
    and "sink_room (c_sink c) = None" and "c_in c = wire_bytes (MDumpResponse \<lparr>dumpResponse_Data = data\<rparr>) @ rest"
    and "wire_ok (dumpRequest name format join history)" and "wire_ok (MDumpResponse \<lparr>dumpResponse_Data = data\<rparr>)"
    and "name \<noteq> []" and "ht_broken (io_term io) = None"
    and run: "DumpCmd_Run h cfg name format join history io = (r, io')"
  shows "r = Inr () \<and> ht_out (io_term io') = ht_out (io_term io) @ data \<and> ht_err (io_term io') = ht_err (io_term io)
    \<and> sink_out (c_sink (io_conn io')) = sink_out (c_sink c) @ wire_bytes (dumpRequest name format join history)"
proof -
  obtain c' where c': "clientDump name (dumpRequestFormat format join history) c = (Inr data, c')"
    "sink_out (c_sink c') = sink_out (c_sink c) @ wire_bytes (dumpRequest name format join history)"
    using clientDump_reply [OF assms(4) [unfolded dumpRequest_def] assms(2,5,3)] by (metis dumpRequest_def)
  obtain opErr where dial: "ch_dial h (dialPath h (dc_SocketPath (cfg_Daemon cfg))) =
      (fst (ch_dial h (dialPath h (dc_SocketPath (cfg_Daemon cfg)))), opErr)" by (metis prod.collapse)
  with c'(1) assms(1,6,7) run have "r = Inr ()" "io_conn io' = c'" "ht_out (io_term io') = ht_out (io_term io) @ data"
    "ht_err (io_term io') = ht_err (io_term io)"
    by (auto simp: DumpCmd_Run_def withClient_def withClientOr_def cbind_def ccall_def cwrite_def stdoutWrite_def split: prod.splits)
  with c'(2) show ?thesis by simp
qed

text \<open>
  C31. \<open>ht dump\<close> prints the screen the user asked for. The flags survive the one-byte encoding of the
  request: the daemon dumps the session's terminal in exactly the named format, joining wrapped lines
  and including the scrollback exactly when asked to; the formatter gets these options (and the
  palette exactly for HTML); and what the terminal yields is printed byte for byte, with nothing on
  standard error.
\<close>

theorem dump_flags_reach_formatter:
  assumes "liveSession name sv = Some ls"
    and "ho_dump hst (flagsFormat format join history) (se_term (ls_sess ls)) = Inr dump"
    and "Connect (ch_version h) (fst (ch_dial h (dialPath h (dc_SocketPath (cfg_Daemon cfg))))) = Inr c"
    and "sink_room (c_sink c) = None" and "c_in c = wire_bytes (MDumpResponse \<lparr>dumpResponse_Data = dump_Data dump\<rparr>) @ rest"
    and "wire_ok (dumpRequest name format join history)" and "wire_ok (MDumpResponse \<lparr>dumpResponse_Data = dump_Data dump\<rparr>)"
    and "name \<noteq> []" and "ht_broken (io_term io) = None"
    and "DumpCmd_Run h cfg name format join history io = (r, io')"
  shows "(\<exists>sent. sink_out (c_sink (io_conn io')) = sink_out (c_sink c) @ sent
      \<and> ReadMessage sent = (Inr (dumpRequest name format join history), []))
    \<and> controlStep hst itf clientRev (dumpRequest name format join history) sv
        = ((Some (MDumpResponse \<lparr>dumpResponse_Data = dump_Data dump\<rparr>), None, True), sv)
    \<and> r = Inr () \<and> ht_out (io_term io') = ht_out (io_term io) @ dump_Data dump \<and> ht_err (io_term io') = ht_err (io_term io)
    \<and> formatterOptsOf (dumpOptions (terminalDumpFormat (dumpRequestFormat format join history)) sel) =
        (formatterOptsOf [])\<lparr>fo_format := tf_emit (flagsFormat format join history), fo_unwrap := join, fo_trim := True,
          fo_selection := sel, fo_palette := (format = ''html'')\<rparr>"
  using DumpCmd_prints [OF assms(3-10)] daemon_answers_dump [OF assms(1,2)] ReadMessage_wire [OF assms(6), of "[]"] dump_options
  by (auto simp: request_format)

text \<open>A client process whose dial yields a daemon's version reply followed by \<open>answer\<close>.\<close>

definition demo_conn :: "byte list \<Rightarrow> conn" where
  "demo_conn answer = \<lparr>c_sink = buffer, c_in = ProtocolVersion # str_bytes ''v1'' @ answer\<rparr>"

definition demo_cli :: "byte list \<Rightarrow> int list \<Rightarrow> cliHost" where
  "demo_cli answer clock = \<lparr>ch_env = [''HOME=/home/u''], ch_uid = 1000, ch_tty = False, ch_cwd = Inr ''/home/u'',
     ch_winsize = Inr (80, 24, 0, 0), ch_version = ''v1'', ch_dial = (\<lambda>_. (Inr (demo_conn answer), None)),
     ch_localTime = (\<lambda>_. []), ch_regexp = (\<lambda>_. Inl (Errorf [])), ch_toml = (\<lambda>_. Inr []), ch_clock = clock,
     ch_start = demo_startEnv [], ch_keySetup = None, ch_encLegacy = (\<lambda>_. Inr []), ch_encKitty = (\<lambda>_. Inr []),
     ch_report = None, ch_rawErr = None, ch_reads = []\<rparr>"

definition demo_io :: cliIO where
  "demo_io = \<lparr>io_term = \<lparr>ht_out = [], ht_err = [], ht_raw = False, ht_broken = None\<rparr>, io_conn = demo_conn [],
     io_open = False, io_start = demo_started\<rparr>"

definition demo_live_server :: "(byte list) server" where
  "demo_live_server = demo_server\<lparr>sv_sessions := [(''work'', \<lparr>ls_id = 0,
     ls_sess = startSession ''work'' 42 ResizePolicySmallest \<lparr>cols = 80, rows = 24, xpixel = 0, ypixel = 0\<rparr> [104, 105] (\<lambda>_. no_client),
     ls_CreatedAt = 0, ls_tempDir = [], ls_ptyErr = None, ls_input = [], ls_hup = False\<rparr>)]\<rparr>"

lemma demo_connects:
  "\<exists>c. Connect ''v1'' (Inr (demo_conn answer)) = Inr c \<and> sink_room (c_sink c) = None \<and> c_in c = answer"
proof -
  have ok: "str_ok ''v1''" by (simp add: str_ok_def)
  then have "eall [WriteU8 ProtocolVersion, WriteString ''v1''] = sput (ProtocolVersion # str_bytes ''v1'')"
    by (simp add: codec_simps)
  with readVersion_put [OF ok] show ?thesis
    by (simp add: Connect_def Handshake_def demo_conn_def sput_def buffer_def)
qed

theorem dump_flags_reach_formatter_witness:
  "\<exists>r io'. DumpCmd_Run (demo_cli (wire_bytes (MDumpResponse \<lparr>dumpResponse_Data = [104, 105]\<rparr>)) []) Default ''work'' ''vt'' True False demo_io
      = (r, io')
    \<and> r = Inr () \<and> ht_out (io_term io') = [104, 105]"
proof -
  let ?reply = "MDumpResponse \<lparr>dumpResponse_Data = [104, 105]\<rparr>"
  let ?h = "demo_cli (wire_bytes ?reply) []"
  let ?dump = "\<lparr>dump_Data = [104, 105], dump_CursorRow = 0, dump_CursorCol = 0, dump_IsAltScreen = False\<rparr>"
  obtain c where c: "Connect ''v1'' (Inr (demo_conn (wire_bytes ?reply))) = Inr c" "sink_room (c_sink c) = None" "c_in c = wire_bytes ?reply"
    using demo_connects by blast
  obtain ls where live: "liveSession ''work'' demo_live_server = Some ls" and screen: "se_term (ls_sess ls) = [104, 105]"
    by (simp add: liveSession_def demo_live_server_def startSession_def setSize_def)
  have wire: "wire_ok (dumpRequest ''work'' ''vt'' True False)" "wire_ok ?reply"
    by (simp_all add: demo_unfold dumpRequest_def ok_Dump_def encode_Dump_def ok_DumpResponse_def encode_DumpResponse_def codec_simps)
  obtain r io' where run: "DumpCmd_Run ?h Default ''work'' ''vt'' True False demo_io = (r, io')" by fastforce
  have "ho_dump demo_host (flagsFormat ''vt'' True False) (se_term (ls_sess ls)) = Inr ?dump"
    using screen by (simp add: demo_host_def)
  from dump_flags_reach_formatter [OF live this, of ?h Default c "[]" demo_io r io'] c wire run
  show ?thesis by (simp add: demo_cli_def demo_io_def)
qed

section \<open>Waiting\<close>

text \<open>The results of the first \<open>n\<close> dumps of a connection.\<close>

fun pollDumps :: "string \<Rightarrow> nat \<Rightarrow> conn \<Rightarrow> byte list outcome list" where
  "pollDumps name 0 c = []"
| "pollDumps name (Suc n) c = (case clientDump name DumpPlain c of (r, c) \<Rightarrow> r # pollDumps name n c)"

text \<open>How one turn ends: it goes on, or with a result.\<close>

fun waitTurn :: "(string \<Rightarrow> bool) \<Rightarrow> waitCmd \<Rightarrow> int \<Rightarrow> byte list outcome \<Rightarrow> int \<Rightarrow> unit cliOutcome option" where
  "waitTurn match cmd deadline (Inl e) now = Some (Inl (CliExit 2 (''error: '' @ clientErrorText e @ nl)))"
| "waitTurn match cmd deadline (Inr data) now =
     (if match (waitContent (string_of_bytes data) (wa_Row cmd)) then Some (Inr ())
      else if now > deadline then Some (Inl (CliExit 1 (''timeout waiting for '' @ quoted (wa_Pattern cmd) @ nl)))
      else None)"

lemma waitLoop_turns:
  "fst (waitLoop match cmd deadline clock c) =
     foldr (\<lambda>(dump, now) r. case waitTurn match cmd deadline dump now of None \<Rightarrow> r | Some x \<Rightarrow> Some x)
       (zip (pollDumps (wa_Name cmd) (length clock) c) clock) None"
  by (induction clock arbitrary: c) (auto split: prod.splits sum.splits)

lemma first_turn:
  assumes "length ds = length ts"
  shows "foldr (\<lambda>(d, t) r. case f d t of None \<Rightarrow> r | Some x \<Rightarrow> Some x) (zip ds ts) None = r \<longleftrightarrow>
    (case r of
       None \<Rightarrow> \<forall>i < length ts. f (ds ! i) (ts ! i) = None
     | Some x \<Rightarrow> \<exists>i < length ts. f (ds ! i) (ts ! i) = Some x \<and> (\<forall>j < i. f (ds ! j) (ts ! j) = None))"
  using assms
proof (induction ds ts rule: list_induct2)
  case (Cons d ds t ts)
  show ?case
  proof (cases "f d t")
    case None
    then show ?thesis using Cons.IH by (auto simp: All_less_Suc2 Ex_less_Suc2 split: option.splits)
  next
    case (Some x)
    then show ?thesis by (auto simp: All_less_Suc2 Ex_less_Suc2 split: option.splits)
  qed
qed (auto split: option.splits)

lemma pollDumps_length [simp]: "length (pollDumps name n c) = n"
  by (induction n arbitrary: c) (auto split: prod.split)

lemma WaitCmd_result:
  assumes "compileWaitMatcher (ch_regexp h) (wa_Pattern cmd) (wa_Regex cmd) = Inr match"
    and "Connect (ch_version h) (fst (ch_dial h (dialPath h (dc_SocketPath (cfg_Daemon cfg))))) = Inr c"
    and "ch_clock h = start # clock"
  shows "fst (WaitCmd_Run h cfg cmd io) = fst (waitLoop match cmd (waitDeadline start (wa_Timeout cmd)) clock c)"
  using assms by (simp add: WaitCmd_Run_def withClientOr_def split_beta)

text \<open>A turn after which the loop goes on: the screen was dumped, does not match, and the deadline has not passed.\<close>

definition still_waiting :: "(string \<Rightarrow> bool) \<Rightarrow> waitCmd \<Rightarrow> int \<Rightarrow> byte list outcome list \<Rightarrow> int list \<Rightarrow> nat \<Rightarrow> bool" where
  "still_waiting match cmd deadline dumps clock j \<longleftrightarrow>
     (\<exists>data. dumps ! j = Inr data \<and> \<not> match (waitContent (string_of_bytes data) (wa_Row cmd)) \<and> clock ! j \<le> deadline)"

lemma waitTurn_cases:
  "waitTurn match cmd deadline d now = None \<longleftrightarrow>
     (\<exists>data. d = Inr data \<and> \<not> match (waitContent (string_of_bytes data) (wa_Row cmd)) \<and> now \<le> deadline)"
  "waitTurn match cmd deadline d now = Some (Inr ()) \<longleftrightarrow>
     (\<exists>data. d = Inr data \<and> match (waitContent (string_of_bytes data) (wa_Row cmd)))"
  "waitTurn match cmd deadline d now = Some (Inl (CliExit 1 msg)) \<longleftrightarrow>
     (\<exists>data. d = Inr data \<and> \<not> match (waitContent (string_of_bytes data) (wa_Row cmd)) \<and> now > deadline)
     \<and> msg = ''timeout waiting for '' @ quoted (wa_Pattern cmd) @ nl"
  "waitTurn match cmd deadline d now = Some (Inl (CliExit 2 msg)) \<longleftrightarrow>
     (\<exists>e. d = Inl e \<and> msg = ''error: '' @ clientErrorText e @ nl)"
  by (cases d; auto)+

text \<open>
  C39. \<open>ht wait\<close> ends as its exit code says. It succeeds exactly if some dump of the screen matches (the
  whole screen or the chosen row) while every earlier one was fetched, did not match and was not past
  the deadline; it exits with 1 exactly if such a dump does not match and the deadline has passed,
  and with 2 exactly if a dump fails. So the screen is looked at at least once, a match is never
  given up for the deadline, and the command ends as soon as a reading of the clock is past it.
\<close>

theorem wait_command_ends:
  assumes "compileWaitMatcher (ch_regexp h) (wa_Pattern cmd) (wa_Regex cmd) = Inr match"
    and "Connect (ch_version h) (fst (ch_dial h (dialPath h (dc_SocketPath (cfg_Daemon cfg))))) = Inr c"
    and "ch_clock h = start # clock"
    and "dumps = pollDumps (wa_Name cmd) (length clock) c" and "deadline = waitDeadline start (wa_Timeout cmd)"
  shows "(fst (WaitCmd_Run h cfg cmd io) = Some (Inr ()) \<longleftrightarrow>
        (\<exists>i < length clock. (\<exists>data. dumps ! i = Inr data \<and> match (waitContent (string_of_bytes data) (wa_Row cmd)))
           \<and> (\<forall>j < i. still_waiting match cmd deadline dumps clock j)))
    \<and> ((\<exists>msg. fst (WaitCmd_Run h cfg cmd io) = Some (Inl (CliExit 1 msg))) \<longleftrightarrow>
        (\<exists>i < length clock. (\<exists>data. dumps ! i = Inr data \<and> \<not> match (waitContent (string_of_bytes data) (wa_Row cmd)) \<and> clock ! i > deadline)
           \<and> (\<forall>j < i. still_waiting match cmd deadline dumps clock j)))
    \<and> ((\<exists>msg. fst (WaitCmd_Run h cfg cmd io) = Some (Inl (CliExit 2 msg))) \<longleftrightarrow>
        (\<exists>i < length clock. (\<exists>e. dumps ! i = Inl e) \<and> (\<forall>j < i. still_waiting match cmd deadline dumps clock j)))
    \<and> ((\<exists>now \<in> set clock. now > deadline) \<longrightarrow> fst (WaitCmd_Run h cfg cmd io) \<noteq> None)"
proof -
  have lens: "length dumps = length clock" using assms(4) by simp
  have result: "fst (WaitCmd_Run h cfg cmd io) = r \<longleftrightarrow>
      (case r of
         None \<Rightarrow> \<forall>i < length clock. still_waiting match cmd deadline dumps clock i
       | Some x \<Rightarrow> \<exists>i < length clock. waitTurn match cmd deadline (dumps ! i) (clock ! i) = Some x
           \<and> (\<forall>j < i. still_waiting match cmd deadline dumps clock j))" for r
    using first_turn [OF lens, of "waitTurn match cmd deadline" r] WaitCmd_result [OF assms(1-3), of io] assms(4,5)
    by (cases r) (simp_all add: waitLoop_turns waitTurn_cases(1) still_waiting_def)
  show ?thesis
  proof (intro conjI)
    show "(\<exists>now \<in> set clock. now > deadline) \<longrightarrow> fst (WaitCmd_Run h cfg cmd io) \<noteq> None"
      using result [of None] by (force simp: in_set_conv_nth still_waiting_def)
  qed (auto simp: result waitTurn_cases)
qed

text \<open>A screen that matches at the second look.\<close>

theorem wait_command_ends_witness:
  "fst (WaitCmd_Run (demo_cli (wire_bytes (MDumpResponse \<lparr>dumpResponse_Data = [104]\<rparr>)
       @ wire_bytes (MDumpResponse \<lparr>dumpResponse_Data = [104, 105]\<rparr>)) [0, 5, 10]) Default
     \<lparr>wa_Name = ''work'', wa_Pattern = ''hi'', wa_Regex = False, wa_Timeout = 1, wa_Row = -1\<rparr> demo_io) = Some (Inr ())"
proof -
  let ?one = "MDumpResponse \<lparr>dumpResponse_Data = [104]\<rparr>" and ?two = "MDumpResponse \<lparr>dumpResponse_Data = [104, 105]\<rparr>"
  let ?h = "demo_cli (wire_bytes ?one @ wire_bytes ?two) [0, 5, 10]"
  let ?cmd = "\<lparr>wa_Name = ''work'', wa_Pattern = ''hi'', wa_Regex = False, wa_Timeout = 1, wa_Row = -1\<rparr>"
  let ?match = "\<lambda>s. indexSub s ''hi'' \<noteq> None"
  obtain c where c: "Connect ''v1'' (Inr (demo_conn (wire_bytes ?one @ wire_bytes ?two))) = Inr c"
    "sink_room (c_sink c) = None" "c_in c = wire_bytes ?one @ wire_bytes ?two"
    using demo_connects by blast
  have compiled: "compileWaitMatcher (ch_regexp ?h) (wa_Pattern ?cmd) (wa_Regex ?cmd) = Inr ?match"
    by (simp add: compileWaitMatcher_def)
  have dialled: "Connect (ch_version ?h) (fst (ch_dial ?h (dialPath ?h (dc_SocketPath (cfg_Daemon Default))))) = Inr c"
    using c(1) by (simp add: demo_cli_def)
  have clock: "ch_clock ?h = 0 # [5, 10]" by (simp add: demo_cli_def)
  note ends = wait_command_ends [OF compiled dialled clock refl refl]
  have wire: "wire_ok (MDump \<lparr>dump_Name = ''work'', dump_Format = DumpPlain\<rparr>)" "wire_ok ?one" "wire_ok ?two"
    by (simp_all add: demo_unfold ok_Dump_def encode_Dump_def ok_DumpResponse_def encode_DumpResponse_def codec_simps)
  from clientDump_reply [OF wire(1) c(2) wire(2) c(3)]
  obtain c1 where c1: "clientDump ''work'' DumpPlain c = (Inr [104], c1)" "c_in c1 = wire_bytes ?two @ []" "sink_room (c_sink c1) = None"
    by auto
  from clientDump_reply [OF wire(1) c1(3) wire(3) c1(2)]
  obtain c2 where c2: "clientDump ''work'' DumpPlain c1 = (Inr [104, 105], c2)" by auto
  have dumps: "pollDumps (wa_Name ?cmd) (length [5, 10 :: int]) c = [Inr [104], Inr [104, 105]]"
    using c1(1) c2 by (simp add: numeral_2_eq_2)
  have screens: "string_of_bytes [104] = ''h''" "string_of_bytes [104, 105] = ''hi''" by code_simp+
  have deadline: "waitDeadline 0 1 = 1000000" by code_simp
  have "still_waiting ?match ?cmd 1000000 [Inr [104], Inr [104, 105]] [5, 10] 0"
    by (simp add: still_waiting_def screens waitContent_def hasPrefix_def)
  moreover have "?match (waitContent (string_of_bytes [104, 105]) (wa_Row ?cmd))"
    by (simp add: screens waitContent_def hasPrefix_def)
  ultimately show ?thesis
    using ends [unfolded dumps] deadline by (auto simp: less_Suc_eq intro!: exI [of _ "1::nat"])
qed

end
