(* ===== verification/Session_Close.thy ===== *)
theory Session_Close
  imports Ht_Prelude
begin

text \<open>
  The end of a session: \<open>Session.close\<close>, \<open>kill\<close>, \<open>ptyRead\<close> and \<open>readPTY\<close> of
  \<open>internal/daemon/session_lifecycle.go\<close>, with what they wait for: the gatherer, the run loop, the
  writers and the child. Each goroutine is a program counter at its blocking operations; an event is
  one step of one of them. What the bytes are, and what the run loop does between its selects, is the
  subject of \<open>Pty_Gather\<close> and \<open>Session_Loop\<close>; here it only matters who waits for whom. The events of
  the outside are the child's exit, what a read of the PTY returns, and requests by other connections.
\<close>

section \<open>The goroutines\<close>

text \<open>\<open>readPTY\<close>: in the read, handing data over (the read may also have failed), in \<open>cmd.Wait\<close>, returned.\<close>

datatype readerPc = InRead | InSend bool | InWait | ReaderDone

text \<open>\<open>gatherPTYReads\<close>: waiting for the first read of a batch, for more, for room in \<open>ptyOut\<close>, returned.\<close>

datatype gatherPc = GatherFirst | GatherMore | GatherSend | GatherEnd

text \<open>\<open>close\<close>: not called, then its statements in order.\<close>

datatype closePc = NotCalled | CStop | CKill | CPtmx | CDone | CPty | CPtyKilled | CWriters | CTerm | CTempDir | CEnd

record closeState =
  x_reader :: readerPc
  x_gather :: gatherPc
  x_out :: nat
  x_ended :: bool
  x_queued :: nat
  x_stop :: bool
  x_writers :: nat
  x_connsClosed :: bool
  x_childGone :: bool
  x_hup :: bool
  x_killed :: bool
  x_ptmx :: bool
  x_term :: bool
  x_tempDir :: bool
  x_pc :: closePc

definition startedState :: closeState where
  "startedState = \<lparr>x_reader = InRead, x_gather = GatherFirst, x_out = 0, x_ended = False, x_queued = 0, x_stop = False,
     x_writers = 0, x_connsClosed = False, x_childGone = False, x_hup = False, x_killed = False, x_ptmx = True,
     x_term = True, x_tempDir = True, x_pc = NotCalled\<rparr>"

definition ptyOutCap :: nat where "ptyOutCap = 64"
definition actionsCap :: nat where "actionsCap = 16"

datatype closeEvent =
    EvRead bool bool
  | EvHandOver gatherPc
  | EvReaderStop
  | EvReap
  | EvReadsClosed
  | EvTimer
  | EvBatch gatherPc
  | EvGatherStop
  | EvTakeBatch
  | EvRequest
  | EvRunAction bool
  | EvRunStop
  | EvRunExit
  | EvWriterEnds
  | EvChildExit
  | EvCallClose
  | EvClose
  | EvTimeout

section \<open>Steps\<close>

text \<open>
  The reader. A read yields data, an error or both; a closed PTY yields no data. Handing over takes a
  gatherer that receives, which then waits for more or sends; when the session is done the reader
  returns instead. Its deferred function waits for the child and then closes \<open>reads\<close> and \<open>ptyDone\<close>.
\<close>

fun readPTY :: "closeEvent \<Rightarrow> closeState \<Rightarrow> closeState option" where
  "readPTY (EvRead got err) st =
     (if x_reader st = InRead \<and> (got \<or> err) \<and> (got \<longrightarrow> x_ptmx st)
      then Some (st\<lparr>x_reader := (if got then InSend err else InWait)\<rparr>) else None)"
| "readPTY (EvHandOver next) st =
     (case x_reader st of
        InSend err \<Rightarrow>
          if x_gather st \<in> {GatherFirst, GatherMore} \<and> next \<in> {GatherMore, GatherSend}
          then Some (st\<lparr>x_reader := (if err then InWait else InRead), x_gather := next\<rparr>) else None
      | _ \<Rightarrow> None)"
| "readPTY EvReaderStop st =
     (case x_reader st of InSend err \<Rightarrow> if x_ended st then Some (st\<lparr>x_reader := InWait\<rparr>) else None | _ \<Rightarrow> None)"
| "readPTY EvReap st =
     (if x_reader st = InWait \<and> x_childGone st then Some (st\<lparr>x_reader := ReaderDone\<rparr>) else None)"
| "readPTY _ st = None"

text \<open>The gatherer: the end of the reads, the batch timer, a batch sent (what comes next depends on what is left), the end.\<close>

fun gatherStep :: "closeEvent \<Rightarrow> closeState \<Rightarrow> closeState option" where
  "gatherStep EvReadsClosed st =
     (if x_reader st = ReaderDone
      then (case x_gather st of
              GatherFirst \<Rightarrow> Some (st\<lparr>x_gather := GatherEnd\<rparr>)
            | GatherMore \<Rightarrow> Some (st\<lparr>x_gather := GatherSend\<rparr>)
            | _ \<Rightarrow> None)
      else None)"
| "gatherStep EvTimer st = (if x_gather st = GatherMore then Some (st\<lparr>x_gather := GatherSend\<rparr>) else None)"
| "gatherStep (EvBatch next) st =
     (if x_gather st = GatherSend \<and> x_out st < ptyOutCap \<and> next \<noteq> GatherEnd
      then Some (st\<lparr>x_gather := next, x_out := x_out st + 1\<rparr>) else None)"
| "gatherStep EvGatherStop st =
     (if x_gather st \<noteq> GatherEnd \<and> x_ended st then Some (st\<lparr>x_gather := GatherEnd\<rparr>) else None)"
| "gatherStep _ st = None"

text \<open>
  The run loop at its select: a batch, a request of a connection (an attach starts a writer), the stop
  request behind the requests queued before it, the end of the PTY. Stopping closes the clients'
  connections, the end of the PTY leaves them to the writers.
\<close>

fun runStep :: "closeEvent \<Rightarrow> closeState \<Rightarrow> closeState option" where
  "runStep EvTakeBatch st = (if \<not> x_ended st \<and> x_out st > 0 then Some (st\<lparr>x_out := x_out st - 1\<rparr>) else None)"
| "runStep EvRequest st =
     (if \<not> x_ended st \<and> \<not> x_stop st \<and> x_queued st < actionsCap then Some (st\<lparr>x_queued := x_queued st + 1\<rparr>) else None)"
| "runStep (EvRunAction attaches) st =
     (if \<not> x_ended st \<and> x_queued st > 0
      then Some (st\<lparr>x_queued := x_queued st - 1, x_writers := (if attaches then x_writers st + 1 else x_writers st)\<rparr>) else None)"
| "runStep EvRunStop st =
     (if \<not> x_ended st \<and> x_queued st = 0 \<and> x_stop st then Some (st\<lparr>x_ended := True, x_connsClosed := True\<rparr>) else None)"
| "runStep EvRunExit st =
     (if \<not> x_ended st \<and> x_gather st = GatherEnd \<and> x_out st = 0 then Some (st\<lparr>x_ended := True\<rparr>) else None)"
| "runStep EvWriterEnds st = (if x_writers st > 0 then Some (st\<lparr>x_writers := x_writers st - 1\<rparr>) else None)"
| "runStep EvChildExit st = (if \<not> x_childGone st then Some (st\<lparr>x_childGone := True\<rparr>) else None)"
| "runStep _ st = None"

definition sessionKill :: "closeState \<Rightarrow> closeState" where
  "sessionKill st = st\<lparr>x_hup := True\<rparr>"

text \<open>\<open>close\<close>, statement by statement; \<open>EvTimeout\<close> is the branch of the five seconds.\<close>

fun closeStep :: "closeEvent \<Rightarrow> closeState \<Rightarrow> closeState option" where
  "closeStep EvCallClose st = (if x_pc st = NotCalled then Some (st\<lparr>x_pc := CStop\<rparr>) else None)"
| "closeStep EvTimeout st =
     (if x_pc st = CPty then Some (st\<lparr>x_killed := True, x_pc := CPtyKilled\<rparr>) else None)"
| "closeStep EvClose st =
     (case x_pc st of
        CStop \<Rightarrow>
          if x_ended st then Some (st\<lparr>x_pc := CKill\<rparr>)
          else if x_queued st < actionsCap then Some (st\<lparr>x_stop := True, x_pc := CKill\<rparr>) else None
      | CKill \<Rightarrow> Some ((sessionKill st)\<lparr>x_pc := CPtmx\<rparr>)
      | CPtmx \<Rightarrow> Some (st\<lparr>x_ptmx := False, x_pc := CDone\<rparr>)
      | CDone \<Rightarrow> if x_ended st then Some (st\<lparr>x_pc := CPty\<rparr>) else None
      | CPty \<Rightarrow> if x_reader st = ReaderDone then Some (st\<lparr>x_pc := CWriters\<rparr>) else None
      | CPtyKilled \<Rightarrow> if x_reader st = ReaderDone then Some (st\<lparr>x_pc := CWriters\<rparr>) else None
      | CWriters \<Rightarrow> if x_writers st = 0 then Some (st\<lparr>x_pc := CTerm\<rparr>) else None
      | CTerm \<Rightarrow> Some (st\<lparr>x_term := False, x_pc := CTempDir\<rparr>)
      | CTempDir \<Rightarrow> Some (st\<lparr>x_tempDir := False, x_pc := CEnd\<rparr>)
      | _ \<Rightarrow> None)"
| "closeStep _ st = None"

definition closeExec :: "closeEvent \<Rightarrow> closeState \<Rightarrow> closeState option" where
  "closeExec ev st =
     (case readPTY ev st of
        Some st' \<Rightarrow> Some st'
      | None \<Rightarrow>
     (case gatherStep ev st of
        Some st' \<Rightarrow> Some st'
      | None \<Rightarrow>
     (case runStep ev st of
        Some st' \<Rightarrow> Some st'
      | None \<Rightarrow> closeStep ev st)))"

fun closeExecAll :: "closeEvent list \<Rightarrow> closeState \<Rightarrow> closeState option" where
  "closeExecAll [] st = Some st"
| "closeExecAll (ev # evs) st = (case closeExec ev st of None \<Rightarrow> None | Some st' \<Rightarrow> closeExecAll evs st')"

inductive close_reachable :: "closeState \<Rightarrow> bool" where
  start: "close_reachable startedState"
| step: "close_reachable st \<Longrightarrow> closeExec ev st = Some st' \<Longrightarrow> close_reachable st'"

section \<open>Invariant\<close>

text \<open>How many statements \<open>close\<close> still has before it.\<close>

fun closeLeft :: "closePc \<Rightarrow> nat" where
  "closeLeft NotCalled = 11"
| "closeLeft CStop = 10"
| "closeLeft CKill = 9"
| "closeLeft CPtmx = 8"
| "closeLeft CDone = 7"
| "closeLeft CPty = 6"
| "closeLeft CPtyKilled = 5"
| "closeLeft CWriters = 4"
| "closeLeft CTerm = 3"
| "closeLeft CTempDir = 2"
| "closeLeft CEnd = 1"

definition close_inv :: "closeState \<Rightarrow> bool" where
  "close_inv st \<longleftrightarrow>
     (closeLeft (x_pc st) \<le> 9 \<longrightarrow> x_ended st \<or> x_stop st) \<and> (closeLeft (x_pc st) \<le> 8 \<longrightarrow> x_hup st)
     \<and> (closeLeft (x_pc st) \<le> 7 \<longrightarrow> \<not> x_ptmx st) \<and> (closeLeft (x_pc st) \<le> 6 \<longrightarrow> x_ended st)
     \<and> (x_pc st = CPtyKilled \<longrightarrow> x_killed st) \<and> (closeLeft (x_pc st) \<le> 4 \<longrightarrow> x_reader st = ReaderDone)
     \<and> (closeLeft (x_pc st) \<le> 3 \<longrightarrow> x_writers st = 0) \<and> (\<not> x_term st \<longleftrightarrow> closeLeft (x_pc st) \<le> 2)
     \<and> (\<not> x_tempDir st \<longleftrightarrow> x_pc st = CEnd) \<and> (x_reader st = ReaderDone \<longrightarrow> x_childGone st)"

text \<open>The steps of the others leave \<open>close\<close> where it is and only move forward.\<close>

definition forward :: "closeState \<Rightarrow> closeState \<Rightarrow> bool" where
  "forward st st' \<longleftrightarrow> x_pc st' = x_pc st \<and> x_hup st' = x_hup st \<and> x_ptmx st' = x_ptmx st \<and> x_killed st' = x_killed st
     \<and> x_term st' = x_term st \<and> x_tempDir st' = x_tempDir st \<and> x_stop st' = x_stop st
     \<and> (x_ended st \<longrightarrow> x_ended st') \<and> (x_childGone st \<longrightarrow> x_childGone st')
     \<and> (x_reader st = ReaderDone \<longrightarrow> x_reader st' = ReaderDone)
     \<and> (x_reader st' = ReaderDone \<longrightarrow> x_reader st = ReaderDone \<or> x_childGone st')
     \<and> (x_ended st \<longrightarrow> x_writers st' \<le> x_writers st)"

lemma forward_readPTY: "readPTY ev st = Some st' \<Longrightarrow> forward st st'"
  by (cases ev) (auto simp: forward_def split: if_splits readerPc.splits)

lemma forward_gather: "gatherStep ev st = Some st' \<Longrightarrow> forward st st'"
  by (cases ev) (auto simp: forward_def split: if_splits gatherPc.splits)

lemma forward_run: "runStep ev st = Some st' \<Longrightarrow> forward st st'"
  by (cases ev) (auto simp: forward_def split: if_splits)

lemma close_inv_forward: "close_inv st \<Longrightarrow> forward st st' \<Longrightarrow> close_inv st'"
  by (cases "x_pc st") (simp_all add: close_inv_def forward_def, auto)

lemma close_inv_close: "close_inv st \<Longrightarrow> closeStep ev st = Some st' \<Longrightarrow> close_inv st'"
  by (cases ev; cases "x_pc st") (auto simp: close_inv_def sessionKill_def split: if_splits)

lemma closeExec_cases:
  "closeExec ev st = Some st' \<Longrightarrow>
     readPTY ev st = Some st' \<or> gatherStep ev st = Some st' \<or> runStep ev st = Some st' \<or> closeStep ev st = Some st'"
  by (auto simp: closeExec_def split: option.splits)

lemma close_inv_exec: "close_inv st \<Longrightarrow> closeExec ev st = Some st' \<Longrightarrow> close_inv st'"
  using closeExec_cases [of ev st st'] forward_readPTY forward_gather forward_run close_inv_forward close_inv_close by blast

lemma close_reachable_inv: "close_reachable st \<Longrightarrow> close_inv st"
proof (induction rule: close_reachable.induct)
  case start
  show ?case by (simp add: close_inv_def startedState_def)
qed (rule close_inv_exec)

section \<open>Progress and termination\<close>

text \<open>
  The steps that will happen without help from outside once they are possible: those of the code, a
  read of a closed PTY, the exit of a child that was sent SIGKILL, and the end of a writer whose
  connection is closed or whose peer reads.
\<close>

fun forced :: "bool \<Rightarrow> closeState \<Rightarrow> closeEvent \<Rightarrow> bool" where
  "forced peersRead st (EvRead got err) = (\<not> x_ptmx st)"
| "forced peersRead st EvRequest = False"
| "forced peersRead st EvCallClose = False"
| "forced peersRead st EvChildExit = x_killed st"
| "forced peersRead st EvWriterEnds = (x_connsClosed st \<or> peersRead)"
| "forced peersRead st _ = True"

text \<open>A bound on the number of steps once the run loop has ended and the PTY is closed.\<close>

fun readerLeft :: "readerPc \<Rightarrow> nat" where
  "readerLeft (InSend err) = 3"
| "readerLeft InRead = 2"
| "readerLeft InWait = 1"
| "readerLeft ReaderDone = 0"

fun gatherLeft :: "gatherPc \<Rightarrow> nat" where
  "gatherLeft GatherMore = 3"
| "gatherLeft GatherSend = 2"
| "gatherLeft GatherFirst = 1"
| "gatherLeft GatherEnd = 0"

definition stepsLeft :: "closeState \<Rightarrow> nat" where
  "stepsLeft st = 4 * readerLeft (x_reader st) + 4 * (ptyOutCap - x_out st) + gatherLeft (x_gather st) + x_writers st
     + (if x_childGone st then 0 else 1) + closeLeft (x_pc st)"

definition winding_down :: "closeState \<Rightarrow> closeState \<Rightarrow> bool" where
  "winding_down st st' \<longleftrightarrow> stepsLeft st' < stepsLeft st \<and> x_ended st' \<and> \<not> x_ptmx st'"

lemma winding_readPTY: "readPTY ev st = Some st' \<Longrightarrow> x_ended st \<Longrightarrow> \<not> x_ptmx st \<Longrightarrow> winding_down st st'"
  by (cases ev) (auto simp: winding_down_def stepsLeft_def split: if_splits readerPc.splits)

lemma winding_gather: "gatherStep ev st = Some st' \<Longrightarrow> x_ended st \<Longrightarrow> \<not> x_ptmx st \<Longrightarrow> winding_down st st'"
proof (cases ev)
  case (EvBatch n)
  assume "gatherStep ev st = Some st'" "x_ended st" "\<not> x_ptmx st"
  with EvBatch show ?thesis by (cases n) (auto simp: winding_down_def stepsLeft_def ptyOutCap_def split: if_splits)
next
  case EvGatherStop
  assume "gatherStep ev st = Some st'" "x_ended st" "\<not> x_ptmx st"
  with EvGatherStop show ?thesis by (cases "x_gather st") (auto simp: winding_down_def stepsLeft_def)
qed (auto simp: winding_down_def stepsLeft_def split: if_splits gatherPc.splits)

lemma winding_run: "runStep ev st = Some st' \<Longrightarrow> x_ended st \<Longrightarrow> \<not> x_ptmx st \<Longrightarrow> winding_down st st'"
  by (cases ev) (auto simp: winding_down_def stepsLeft_def split: if_splits)

lemma winding_close: "closeStep ev st = Some st' \<Longrightarrow> x_ended st \<Longrightarrow> \<not> x_ptmx st \<Longrightarrow> winding_down st st'"
  by (cases ev; cases "x_pc st") (auto simp: winding_down_def stepsLeft_def sessionKill_def split: if_splits)

lemma stepsLeft_decreases:
  assumes "closeExec ev st = Some st'" and "x_ended st" and "\<not> x_ptmx st"
  shows "winding_down st st'"
  using closeExec_cases [OF assms(1)] winding_readPTY winding_gather winding_run winding_close assms(2,3) by blast

lemma closing_runs_bounded:
  "closeExecAll evs st = Some st' \<Longrightarrow> x_ended st \<Longrightarrow> \<not> x_ptmx st \<Longrightarrow> length evs + stepsLeft st' \<le> stepsLeft st"
proof (induction evs arbitrary: st)
  case (Cons ev evs)
  then obtain st1 where "closeExec ev st = Some st1" "closeExecAll evs st1 = Some st'" by (auto split: option.splits)
  with Cons.IH [of st1] stepsLeft_decreases [of ev st st1] Cons.prems(2,3) show ?case by (simp add: winding_down_def)
qed simp

lemma closeExec_enabled:
  "readPTY ev st = Some a \<Longrightarrow> \<exists>st'. closeExec ev st = Some st'"
  "gatherStep ev st = Some a \<Longrightarrow> \<exists>st'. closeExec ev st = Some st'"
  "runStep ev st = Some a \<Longrightarrow> \<exists>st'. closeExec ev st = Some st'"
  "closeStep ev st = Some a \<Longrightarrow> \<exists>st'. closeExec ev st = Some st'"
  by (auto simp: closeExec_def split: option.split)

definition can_go_on :: "bool \<Rightarrow> closeState \<Rightarrow> bool" where
  "can_go_on peersRead st \<longleftrightarrow> (\<exists>ev st'. closeExec ev st = Some st' \<and> forced peersRead st ev)"

lemma can_go_onI:
  assumes "forced peersRead st ev"
  shows "closeStep ev st \<noteq> None \<Longrightarrow> can_go_on peersRead st" "runStep ev st \<noteq> None \<Longrightarrow> can_go_on peersRead st"
    "readPTY ev st \<noteq> None \<Longrightarrow> can_go_on peersRead st"
  using assms closeExec_enabled unfolding can_go_on_def by (metis option.exhaust)+

lemma close_waits_for_run:
  assumes "\<not> x_ended st" and "x_stop st \<or> x_queued st > 0"
  shows "can_go_on peersRead st"
proof (cases "x_queued st > 0")
  case True
  then show ?thesis using assms by (intro can_go_onI(2) [where ev = "EvRunAction False"]) simp_all
next
  case False
  then show ?thesis using assms by (intro can_go_onI(2) [where ev = EvRunStop]) simp_all
qed

lemma close_waits_for_reader:
  assumes "x_ended st" and "\<not> x_ptmx st" and "x_killed st" and "x_reader st \<noteq> ReaderDone"
  shows "can_go_on peersRead st"
proof (cases "x_reader st")
  case InRead
  then show ?thesis using assms by (intro can_go_onI(3) [where ev = "EvRead False True"]) simp_all
next
  case (InSend err)
  then show ?thesis using assms by (intro can_go_onI(3) [where ev = EvReaderStop]) simp_all
next
  case InWait
  then show ?thesis
    using assms can_go_onI(2) [of peersRead st EvChildExit] can_go_onI(3) [of peersRead st EvReap] by (cases "x_childGone st") simp_all
qed (use assms in simp)

lemma close_never_stuck:
  assumes inv: "close_inv st" and pc: "x_pc st \<noteq> NotCalled" "x_pc st \<noteq> CEnd"
    and writers: "x_pc st = CWriters \<longrightarrow> peersRead \<or> x_connsClosed st"
  shows "can_go_on peersRead st"
proof (cases "closeStep EvClose st = None")
  case blocked: True
  consider "x_pc st = CStop" | "x_pc st = CDone" | "x_pc st = CPty" | "x_pc st = CPtyKilled" | "x_pc st = CWriters"
    using blocked pc by (cases "x_pc st") auto
  then show ?thesis
  proof cases
    case 1
    with blocked show ?thesis by (intro close_waits_for_run) (simp_all add: actionsCap_def split: if_splits)
  next
    case 2
    with blocked inv show ?thesis by (intro close_waits_for_run) (simp_all add: close_inv_def split: if_splits)
  next
    case 3
    then show ?thesis by (intro can_go_onI(1) [where ev = EvTimeout]) simp_all
  next
    case 4
    with blocked inv show ?thesis by (intro close_waits_for_reader) (simp_all add: close_inv_def split: if_splits)
  next
    case 5
    with blocked writers show ?thesis by (intro can_go_onI(2) [where ev = EvWriterEnds]) (auto split: if_splits)
  qed
qed (use can_go_onI(1) [where ev = EvClose] in simp)

lemma closeExecAll_reachable: "close_reachable st \<Longrightarrow> closeExecAll evs st = Some st' \<Longrightarrow> close_reachable st'"
  by (induction evs arbitrary: st) (auto split: option.splits intro: close_reachable.step)


text \<open>A child that ignores SIGHUP: the close waits, sends SIGKILL, and returns.\<close>

definition demo_stubborn :: "closeEvent list" where
  "demo_stubborn = [EvRequest, EvRunAction True, EvRead True False, EvCallClose, EvClose, EvClose, EvClose, EvRunStop,
     EvClose, EvTimeout]"

definition demo_closed :: "closeEvent list" where
  "demo_closed = [EvReaderStop, EvChildExit, EvReap, EvClose, EvWriterEnds, EvClose, EvClose, EvClose]"


end
