(* ===== verification/Server_Loop.thy ===== *)
theory Server_Loop
  imports Server_Inv
begin

text \<open>
  The loops of the daemon: \<open>Listen\<close> with its accept loop (\<open>internal/daemon/server.go\<close>) and the
  persister's (\<open>persist.go\<close>), over scripts in which every entry carries what the rest of the daemon
  did in the meantime; and the two halves of \<open>shutdown\<close>, between which the lock is free.
\<close>

section \<open>Accepting connections\<close>

text \<open>
  One entry for each return of \<open>Accept\<close>: a connection, which is served by a goroutine of its own, or an
  error. The result: the connections accepted, whether the loop has returned, the server.
\<close>

type_synonym 't acceptEvent = "('t server \<Rightarrow> 't server) \<times> nat option"

fun acceptLoop :: "'t acceptEvent list \<Rightarrow> 't server \<Rightarrow> nat list \<times> bool \<times> 't server" where
  "acceptLoop [] sv = ([], False, sv)"
| "acceptLoop ((others, Some c) # evs) sv =
     (case acceptLoop evs (others sv) of (conns, returned, sv) \<Rightarrow> (c # conns, returned, sv))"
| "acceptLoop ((others, None) # evs) sv =
     (if sv_ctxDone (others sv) then ([], True, others sv) else acceptLoop evs (others sv))"

definition Listen :: "listenEnv \<Rightarrow> u32 \<Rightarrow> 't acceptEvent list \<Rightarrow> 't server \<Rightarrow> unit result option \<times> nat list \<times> 't server" where
  "Listen le pid evs sv =
     (case listenSetup le pid sv of
        (Inl e, sv) \<Rightarrow> (Some (Inl e), [], sv)
      | (Inr _, sv) \<Rightarrow>
          (case acceptLoop evs sv of
             (conns, True, sv) \<Rightarrow> (Some (Inr ()), conns, releaseLock sv)
           | (conns, False, sv) \<Rightarrow> (None, conns, sv)))"

section \<open>Periodic saving\<close>

definition saveTick :: "'t host \<Rightarrow> 't server \<Rightarrow> 't server" where
  "saveTick h sv = snd (withFs (saveAllWith (persistOne h sv) (sv_sessions sv)) sv)"

text \<open>\<open>True\<close>: the ticker, with the clock and the terminals at that moment in its host; \<open>False\<close>: the persister was stopped.\<close>

fun persistLoop :: "(('t server \<Rightarrow> 't server) \<times> 't host \<times> bool) list \<Rightarrow> 't server \<Rightarrow> 't server" where
  "persistLoop [] sv = sv"
| "persistLoop ((others, h, tick) # evs) sv =
     (if tick then persistLoop evs (saveTick h (others sv)) else others sv)"

lemma saveTick_same_table: "same_table sv (saveTick h sv)"
  unfolding saveTick_def by (metis fs_only_same_table prod.collapse withFs_fs_only)

text \<open>Saving never changes the table of sessions.\<close>

theorem persistLoop_keeps_table:
  "\<forall>(others, h, tick) \<in> set evs. \<forall>sv. table_ok sv \<longrightarrow> table_ok (others sv) \<Longrightarrow> table_ok sv \<Longrightarrow> table_ok (persistLoop evs sv)"
proof (induction evs sv rule: persistLoop.induct)
  case (2 others h tick evs sv)
  then have "table_ok (others sv)" by auto
  with 2 same_table_ok(1) [OF saveTick_same_table, of h "others sv"] show ?case by auto
qed simp

text \<open>A daemon returns from \<open>Listen\<close> without error only when it is shutting down, and then without the lock.\<close>

lemma acceptLoop_returns: "acceptLoop evs sv = (conns, True, sv') \<Longrightarrow> sv_ctxDone sv'"
  by (induction evs sv arbitrary: conns rule: acceptLoop.induct) (auto split: prod.splits if_splits)

theorem Listen_returns:
  "Listen le pid evs sv = (Some (Inr ()), conns, sv') \<Longrightarrow> sv_ctxDone sv' \<and> \<not> sv_lockHeld sv'"
  by (auto simp: Listen_def releaseLock_def split: prod.splits sum.splits bool.splits dest: acceptLoop_returns)

section \<open>Two daemons\<close>

text \<open>\<open>shutdown\<close> up to the sessions' end, when the lock has been given back, and its removal of files.\<close>

definition shutdownSessions :: "'t host \<Rightarrow> 't server \<Rightarrow> 't server" where
  "shutdownSessions h sv =
     (let sv = (if sv_persist sv then saveTick h sv else sv);
          sv = releaseLock (sv\<lparr>sv_ctxDone := True\<rparr>)
      in (foldl (\<lambda>sv (name, ls). closeSession ls sv) sv (sv_sessions sv))\<lparr>sv_sessions := []\<rparr>)"

definition shutdownFiles :: "'t server \<Rightarrow> 't server" where
  "shutdownFiles sv =
     (if sv_listening sv
      then snd (withFs (osRemove (sv_pidPath sv)) (snd (withFs (osRemove (sv_socketPath sv)) sv)))
      else sv)"

lemma shutdown_halves: "shutdown h sv = shutdownFiles (shutdownSessions h sv)"
  by (simp add: shutdown_def shutdownFiles_def shutdownSessions_def saveTick_def Let_def)

lemma osRemove_removes:
  "fs_faults w = [] \<Longrightarrow> map_of (fs_nodes w) p = Some (File d) \<Longrightarrow> map_of (fs_nodes (snd (osRemove p w))) p = None"
  by (simp add: osRemove_def nextFault_def emit_def delete_conv')

lemma osRemove_adds_nothing: "map_of (fs_nodes w) q = None \<Longrightarrow> map_of (fs_nodes (snd (osRemove p w))) q = None"
  by (auto simp: osRemove_def nextFault_def emit_def delete_conv' split: list.split option.split fsnode.split)

lemma closing_keeps_lock: "sv_lockHeld (foldl (\<lambda>sv (name, ls). closeSession ls sv) sv xs) = sv_lockHeld sv"
proof (induction xs arbitrary: sv)
  case (Cons x xs)
  have "sv_lockHeld (closeSession ls sv) = sv_lockHeld sv" for ls by (simp add: closeSession_def)
  with Cons show ?case by (cases x) simp
qed simp

lemma shutdownSessions_unlocks: "\<not> sv_lockHeld (shutdownSessions h sv)"
  by (simp add: shutdownSessions_def Let_def closing_keeps_lock releaseLock_def)

lemma shutdownFiles_removes:
  assumes "fs_faults (sv_fs sv) = []" and "sv_listening sv" and "map_of (fs_nodes (sv_fs sv)) (sv_socketPath sv) = Some (File d)"
  shows "map_of (fs_nodes (sv_fs (shutdownFiles sv))) (sv_socketPath sv) = None"
  using osRemove_adds_nothing [OF osRemove_removes [OF assms(1,3)]] assms(2)
  by (simp add: shutdownFiles_def withFs_def split_beta)

lemma acquireLock_holds: "acquireLock le sv = (Inr u, sv') \<Longrightarrow> sv_lockHeld sv'"
  by (auto simp: acquireLock_def split: option.splits if_splits)

lemma withFs_flags: "sv_lockHeld (snd (withFs f sv)) = sv_lockHeld sv" "sv_listening (snd (withFs f sv)) = sv_listening sv"
  by (simp_all add: withFs_def split_beta)

lemma listenSetup_holds:
  assumes "listenSetup le pid sv = (Inr (), sv')"
  shows "sv_listening sv' \<and> sv_lockHeld sv'"
proof -
  obtain sv1 sv2 u where lock: "acquireLock le sv1 = (Inr u, sv2)"
    and rest: "sv' = snd (writePID pid ((snd (withFs (osRemove (sv_socketPath sv2)) sv2))
        \<lparr>sv_fs := emit [EvCreate (sv_socketPath (snd (withFs (osRemove (sv_socketPath sv2)) sv2)))]
             (sv_fs (snd (withFs (osRemove (sv_socketPath sv2)) sv2))), sv_listening := True\<rparr>))"
    using assms unfolding listenSetup_def Let_def
    by (simp split: prod.splits sum.splits option.splits)
  with acquireLock_holds [OF lock] show ?thesis by (simp add: writePID_def withFs_flags)
qed

text \<open>
  Between the two halves the lock is free, so another daemon may take it, remove the stale socket, listen
  and write its process number. The second half then removes that daemon's socket and pid file: it
  runs, holds the lock and cannot be reached.
\<close>

theorem shutdown_removes_successor:
  assumes "listenSetup le pid new = (Inr (), new')" and "fs_faults (sv_fs new') = []"
    and "sv_listening (shutdownSessions h old)" and "sv_socketPath (shutdownSessions h old) = sv_socketPath new'"
    and "map_of (fs_nodes (sv_fs new')) (sv_socketPath new') = Some (File d)"
  shows "\<not> sv_lockHeld (shutdownSessions h old) \<and> sv_listening new' \<and> sv_lockHeld new'
    \<and> map_of (fs_nodes (sv_fs (shutdownFiles ((shutdownSessions h old)\<lparr>sv_fs := sv_fs new'\<rparr>)))) (sv_socketPath new') = None"
  using listenSetup_holds [OF assms(1)] shutdownSessions_unlocks assms(3-5)
    shutdownFiles_removes [of "(shutdownSessions h old)\<lparr>sv_fs := sv_fs new'\<rparr>" d] assms(2)
  by simp

end
