(* ===== verification/Ghostty_Queries.thy ===== *)
theory Ghostty_Queries
  imports Ghostty_Objects
begin

text \<open>
  The rest of the bindings: the getters of key events (\<open>libghostty/key_event.go\<close>) and the exported
  methods of a terminal that take the lock and call their locked counterparts (\<open>terminal.go\<close>). They
  hold nothing of the module when they return, fail or panic.
\<close>

section \<open>Key events\<close>

definition eventGet :: "'m exports \<Rightarrow> string \<Rightarrow> keyEventObj \<Rightarrow> ('m wasmRuntime, u32) go" where
  "eventGet X export e = xcall X export [kv_ptr e]"

definition eventAction :: "'m exports \<Rightarrow> keyEventObj \<Rightarrow> ('m wasmRuntime, u32) go" where
  "eventAction X = eventGet X ''ghostty_key_event_get_action''"
definition eventKey :: "'m exports \<Rightarrow> keyEventObj \<Rightarrow> ('m wasmRuntime, u32) go" where
  "eventKey X = eventGet X ''ghostty_key_event_get_key''"
definition eventMods :: "'m exports \<Rightarrow> keyEventObj \<Rightarrow> ('m wasmRuntime, u16) go" where
  "eventMods X e = gbind (eventGet X ''ghostty_key_event_get_mods'' e) (\<lambda>v. gret (ucast v))"
definition eventConsumedMods :: "'m exports \<Rightarrow> keyEventObj \<Rightarrow> ('m wasmRuntime, u16) go" where
  "eventConsumedMods X e = gbind (eventGet X ''ghostty_key_event_get_consumed_mods'' e) (\<lambda>v. gret (ucast v))"
definition eventComposing :: "'m exports \<Rightarrow> keyEventObj \<Rightarrow> ('m wasmRuntime, bool) go" where
  "eventComposing X e = gbind (eventGet X ''ghostty_key_event_get_composing'' e) (\<lambda>v. gret (v \<noteq> 0))"
definition eventUnshiftedCodepoint :: "'m exports \<Rightarrow> keyEventObj \<Rightarrow> ('m wasmRuntime, u32) go" where
  "eventUnshiftedCodepoint X = eventGet X ''ghostty_key_event_get_unshifted_codepoint''"

definition eventUTF8 :: "'m exports \<Rightarrow> keyEventObj \<Rightarrow> ('m wasmRuntime, string) go" where
  "eventUTF8 X e =
     gmust (withBuf X 4 (\<lambda>lengthPtr.
       gbind (xcall X ''ghostty_key_event_get_utf8'' [kv_ptr e, lengthPtr]) (\<lambda>ptr.
       gbind (bytes lengthPtr 4) (\<lambda>lengthData.
       gbind (bytes ptr (fromLe32 lengthData)) (\<lambda>data.
       gret (string_of_bytes data))))))"

section \<open>Terminals\<close>

definition terminalClose :: "'m exports \<Rightarrow> (terminal \<times> 'm wasmRuntime, unit) go" where
  "terminalClose X = closeLocked X"

definition terminalWrite :: "'m exports \<Rightarrow> terminal \<Rightarrow> byte list \<Rightarrow> ('m wasmRuntime, nat) go" where
  "terminalWrite X t p = gbind (VTWrite X t p) (\<lambda>_. gret (length p))"

definition SetContinuationMaxBytes :: "'m exports \<Rightarrow> terminal \<Rightarrow> u64 \<Rightarrow> ('m wasmRuntime, unit) go" where
  "SetContinuationMaxBytes X t limit = setContinuationMaxBytesLocked X t limit"

definition SetScrollbackMaxLines :: "'m exports \<Rightarrow> terminal \<Rightarrow> u64 option \<Rightarrow> ('m wasmRuntime, unit) go" where
  "SetScrollbackMaxLines X t limit = setScrollbackMaxLinesLocked X t limit"

lemma keeps_getters [uses_rules]:
  "rtl.keeps (eventAction X e)" "rtl.keeps (eventKey X e)" "rtl.keeps (eventMods X e)" "rtl.keeps (eventConsumedMods X e)"
  "rtl.keeps (eventComposing X e)" "rtl.keeps (eventUnshiftedCodepoint X e)" "rtl.keeps (eventUTF8 X e)"
  unfolding eventAction_def eventKey_def eventMods_def eventConsumedMods_def eventComposing_def
    eventUnshiftedCodepoint_def eventUTF8_def eventGet_def
  by (intro uses_rules rtl.keeps_must)+

lemma keeps_terminal_methods [uses_rules]:
  "rtl.keeps (terminalWrite X t p)" "rtl.keeps (SetContinuationMaxBytes X t limit)" "rtl.keeps (SetScrollbackMaxLines X t lines)"
  unfolding terminalWrite_def SetContinuationMaxBytes_def SetScrollbackMaxLines_def by (intro uses_rules)+

end
