(* ===== verification/Attach_Flow.thy ===== *)
theory Attach_Flow
  imports Server_Props Session_Props Client_Attach Wire_Props Pty_Gather
begin

text \<open>
  The attached session end to end. Output: the run loop of the session queues messages for a client,
  its writer puts them on the connection, \<open>RunAttach\<close> reads them on the other side and writes to the
  host terminal. Input: \<open>forwardHostInput\<close> turns what is typed into messages, \<open>handleConn\<close> reads them
  and writes to the PTY. The components are those of the other theories; this one composes them.

  The locale \<open>client_law\<close> is the interface between the run loop and a property of one client: a
  predicate that holds of a new client and survives each of the elementary changes the loop and the
  writers make to a client holds of every client in every reachable state.
\<close>

section \<open>Properties of a client that the run loop keeps\<close>

fun queuedMsg :: "message \<Rightarrow> bool" where
  "queuedMsg (MOutput m) = True"
| "queuedMsg (MClientsChanged m) = True"
| "queuedMsg _ = False"

locale client_law =
  fixes P :: "clientState \<Rightarrow> bool"
  assumes fresh: "cl_out c = [MAttached a] \<Longrightarrow> cl_wire c = [] \<Longrightarrow> \<not> cl_writeDone c \<Longrightarrow> cl_final c = None \<Longrightarrow> P c"
    and queue: "P c \<Longrightarrow> queuedMsg m \<Longrightarrow> P (c\<lparr>cl_out := cl_out c @ [m]\<rparr>)"
    and close: "P c \<Longrightarrow> P (c\<lparr>cl_outClosed := True\<rparr>)"
    and disconnect: "P c \<Longrightarrow> P (c\<lparr>cl_connClosed := True\<rparr>)"
    and size: "P c \<Longrightarrow> P (c\<lparr>cl_size := sz\<rparr>)"
    and final: "P c \<Longrightarrow> P (c\<lparr>cl_final := Some (MExited x)\<rparr>)"
    and written: "P c \<Longrightarrow> \<not> cl_writeDone c \<Longrightarrow> cl_out c = m # ms \<Longrightarrow> P (c\<lparr>cl_out := ms, cl_wire := cl_wire c @ [m]\<rparr>)"
    and failed: "P c \<Longrightarrow> cl_out c = m # ms \<Longrightarrow> P (c\<lparr>cl_out := ms, cl_connClosed := True, cl_writeDone := True\<rparr>)"
    and ended: "P c \<Longrightarrow> \<not> cl_writeDone c \<Longrightarrow> cl_final c = Some m \<Longrightarrow> P (c\<lparr>cl_wire := cl_wire c @ [m], cl_writeDone := True\<rparr>)"
    and stopped: "P c \<Longrightarrow> P (c\<lparr>cl_writeDone := True\<rparr>)" "P c \<Longrightarrow> P (c\<lparr>cl_connClosed := True, cl_writeDone := True\<rparr>)"
begin

definition every :: "'t session \<Rightarrow> bool" where
  "every s \<longleftrightarrow> (\<forall>r < se_refs s. P (se_heap s r))"

lemma every_update [simp]:
  "every (s\<lparr>se_atSelect := b\<rparr>) = every s" "every (s\<lparr>se_ready := b\<rparr>) = every s" "every (s\<lparr>se_done := b\<rparr>) = every s"
  "every (s\<lparr>se_exited := b\<rparr>) = every s" "every (s\<lparr>se_exitCode := x\<rparr>) = every s" "every (s\<lparr>se_panic := b\<rparr>) = every s"
  "every (s\<lparr>se_accepted := ds\<rparr>) = every s" "every (s\<lparr>se_fed := ds\<rparr>) = every s" "every (s\<lparr>se_feedCh := ds\<rparr>) = every s"
  "every (s\<lparr>se_term := tm\<rparr>) = every s" "every (s\<lparr>se_pendingFeed := p\<rparr>) = every s" "every (s\<lparr>se_pendingOutput := p\<rparr>) = every s"
  "every (s\<lparr>se_pendingClients := rs\<rparr>) = every s" "every (s\<lparr>se_clients := rs\<rparr>) = every s"
  "every (s\<lparr>se_sizeVal := v\<rparr>) = every s" "every (s\<lparr>se_winsize := w\<rparr>) = every s"
  by (simp_all add: every_def)

lemma every_modClient: "every s \<Longrightarrow> (\<And>c. P c \<Longrightarrow> P (f c)) \<Longrightarrow> every (modClient r f s)"
  by (auto simp: every_def modClient_def)

lemma every_chanClose: "every s \<Longrightarrow> every (chanClose r s)"
  using close by (simp add: chanClose_def every_modClient)

lemma every_chanSend: "every s \<Longrightarrow> queuedMsg m \<Longrightarrow> every (snd (chanSend r m s))"
  using queue by (simp add: chanSend_def every_modClient)

lemma every_queueOutput: "every s \<Longrightarrow> every (snd (queueOutput cs d s))"
proof (induction cs arbitrary: s)
  case (Cons c cs)
  obtain b s1 where s1: "chanSend c (MOutput \<lparr>output_Data = d\<rparr>) s = (b, s1)" by fastforce
  have "every s1" using every_chanSend [OF Cons.prems, of "MOutput \<lparr>output_Data = d\<rparr>" c] s1 by simp
  with Cons s1 show ?case by (cases b) (auto split: prod.split dest: Cons.IH)
qed simp

lemma every_notifyEach: "every s \<Longrightarrow> queuedMsg m \<Longrightarrow> every (notifyEach cs m s)"
  by (induction cs arbitrary: s) (auto intro: every_chanSend)

lemma every_notifyClientsChanged: "every s \<Longrightarrow> every (notifyClientsChanged s)"
  by (simp add: notifyClientsChanged_def Let_def every_notifyEach split: prod.split)

lemma every_pruneLoop: "every s \<Longrightarrow> pruneLoop cs p s = (out, s') \<Longrightarrow> every s'"
proof (induction cs arbitrary: p s out s')
  case (Cons c cs)
  from Cons.prems(2) show ?case
    by (auto split: if_splits prod.splits dest!: Cons.IH [OF Cons.prems(1)] Cons.IH [OF every_chanClose [OF Cons.prems(1)]])
qed simp

lemma every_settle: "every s \<Longrightarrow> every (settle s)"
  by (simp add: settle_def)

lemma every_pruneAndNotify:
  assumes "every s"
  shows "every (pruneAndNotify s)"
proof -
  obtain kept pending changed s1 where p: "pruneLoop (se_clients s) (se_pendingClients s) s = ((kept, pending, changed), s1)"
    by (metis prod.collapse)
  show ?thesis using every_pruneLoop [OF assms p]
    by (simp add: pruneAndNotify_def pruneFinishedClients_def p every_settle every_notifyClientsChanged)
qed

lemma every_flushPending: "every s \<Longrightarrow> every (flushPending s)"
  using every_queueOutput [of s] by (simp add: flushPending_def split_beta every_settle split: option.split)

lemma every_loopTop: "every s \<Longrightarrow> every (loopTop s)"
  by (simp add: loopTop_def every_flushPending every_pruneAndNotify)

lemma every_ptyBranch: "every s \<Longrightarrow> every (ptyBranch d s)"
  using every_queueOutput [of "s\<lparr>se_accepted := se_accepted s @ [d]\<rparr>"] by (simp add: ptyBranch_def Let_def split_beta)

lemma every_drainFeed: "every s \<Longrightarrow> every (drainFeed em s)"
  by (simp add: drainFeed_def Let_def)

lemma every_finishEach: "every s \<Longrightarrow> (\<And>c. P c \<Longrightarrow> P (f c)) \<Longrightarrow> every (finishEach f cs s)"
  by (induction cs arbitrary: s) (auto intro: every_modClient every_chanClose)

lemma every_resizes: "every s \<Longrightarrow> every (arbitrateResize em s)" "every s \<Longrightarrow> every (resizeForPending em sz s)"
  by (simp_all add: arbitrateResize_def resizeForPending_def resizeTo_def resize_def setSize_def Let_def split: prod.split)

lemma every_dropClient: "every s \<Longrightarrow> every (dropClient r s)"
  by (simp add: dropClient_def every_settle)

lemma every_attachAction:
  assumes "every s"
  shows "every (snd (attachAction em spec s))"
proof -
  define t where "t = drainFeed em (if as_readOnly spec then s else resizeForPending em (as_size spec) s)"
  have t: "every t" using assms by (simp add: t_def every_drainFeed every_resizes)
  show ?thesis
  proof (cases "em_dump em (se_term t)")
    case (Inl e)
    with t show ?thesis by (simp add: attachAction_def Let_def flip: t_def)
  next
    case (Inr dump)
    define k where "k = \<lparr>cl_id = string_of_nat (unat (se_nextClientID t + 1)), cl_size = as_size spec,
       cl_version = as_version spec, cl_readOnly = as_readOnly spec, cl_out = [],
       cl_outClosed = False, cl_writeDone = False, cl_final = None, cl_connClosed = False,
       cl_wire = [], cl_base = length (se_fed t)\<rparr>"
    define a where "a = \<lparr>attached_Name = se_Name t, attached_PID = se_PID t,
       attached_ClientID = string_of_nat (unat (se_nextClientID t + 1)), attached_Cols = fst (sessionSize t),
       attached_Rows = snd (sessionSize t), attached_ScreenDump = dump_Data dump, attached_CursorRow = dump_CursorRow dump,
       attached_CursorCol = dump_CursorCol dump, attached_AltScreen = dump_IsAltScreen dump, attached_Created = as_created spec\<rparr>"
    define u where "u = t\<lparr>se_nextClientID := se_nextClientID t + 1, se_refs := Suc (se_refs t),
       se_heap := (se_heap t)(se_refs t := k\<lparr>cl_out := [MAttached a]\<rparr>), se_clients := se_clients t @ [se_refs t]\<rparr>"
    have u: "every u" using t fresh [of "k\<lparr>cl_out := [MAttached a]\<rparr>"] by (auto simp: every_def u_def k_def less_Suc_eq)
    have "snd (attachAction em spec s) = notifyClientsChanged (if as_readOnly spec then u else arbitrateResize em u)"
      using Inr by (simp add: attachAction_def Let_def chanSend_def modClient_def sessionClientOutBufferSize_def
          split_beta u_def a_def k_def flip: t_def)
    with u every_resizes(1) [OF u] show ?thesis by (simp add: every_notifyClientsChanged)
  qed
qed

lemma every_handleAction:
  assumes "every s"
  shows "every (snd (handleAction em a s))"
proof -
  note p = every_pruneAndNotify [OF assms]
  show ?thesis
  proof (cases a)
    case (DetachReq r)
    with p show ?thesis
      by (simp add: handleAction_def Let_def detachAction_def every_notifyClientsChanged every_resizes every_chanClose every_dropClient)
  next
    case (KickReq cid)
    with p disconnect show ?thesis
      by (simp add: handleAction_def Let_def kickAction_def every_notifyClientsChanged every_resizes every_modClient every_chanClose
          every_dropClient split: option.split)
  next
    case (ResizeReq r sz)
    with p size show ?thesis by (simp add: handleAction_def Let_def resizeAction_def every_resizes every_modClient)
  next
    case StopReq
    have "every (finishEach (\<lambda>c. c\<lparr>cl_connClosed := True\<rparr>) cs (drainFeed em ((pruneAndNotify s)\<lparr>se_pendingFeed := None\<rparr>)))" for cs
      by (rule every_finishEach) (simp_all add: every_drainFeed p disconnect)
    with StopReq show ?thesis by (simp add: handleAction_def stopAction_def Let_def)
  qed (simp_all add: handleAction_def Let_def clientInfoAction_def p every_attachAction)
qed

lemma every_writeLoopStep: "every s \<Longrightarrow> r < se_refs s \<Longrightarrow> writeLoopStep r ok s = Some s' \<Longrightarrow> every s'"
  using written failed ended stopped
  by (auto simp: writeLoopStep_def Let_def every_def modClient_def split: if_splits list.splits option.splits)

lemma every_exec:
  assumes "every s" and "exec em ev s = Some s'"
  shows "every s'"
proof (cases ev)
  case EvTop
  with assms every_loopTop show ?thesis by (auto split: if_splits)
next
  case (EvPtyClosed code)
  have "every (finishEach (\<lambda>c. c\<lparr>cl_final := Some (MExited \<lparr>exited_ExitCode = code\<rparr>)\<rparr>) cs (drainFeed em s))" for cs
    using every_finishEach [OF every_drainFeed [OF assms(1)] final] .
  with EvPtyClosed assms(2) show ?thesis by (auto simp: ptyClosedBranch_def Let_def split: if_splits)
next
  case (EvWriter r ok)
  with assms every_writeLoopStep show ?thesis by (auto split: if_splits)
qed (use assms in \<open>auto simp: every_ptyBranch every_handleAction split: if_splits option.splits list.splits\<close>)

lemma reachable_every:
  assumes "reachable em s0 s" and "fresh_session s0"
  shows "r < se_refs s \<Longrightarrow> P (se_heap s r)"
proof -
  have "every s" using assms(1)
  proof induction
    case reachable_start
    then show ?case using assms(2) by (auto simp: every_def fresh_session_def startSession_def setSize_def)
  qed (rule every_exec)
  then show "r < se_refs s \<Longrightarrow> P (se_heap s r)" by (simp add: every_def)
qed

end

section \<open>What a client finds on its connection\<close>

text \<open>\<open>Exited\<close> is the last message on the connection, and no other kind ends the client's loop.\<close>

fun streamed :: "message \<Rightarrow> bool" where
  "streamed (MAttached m) = True"
| "streamed (MOutput m) = True"
| "streamed (MClientsChanged m) = True"
| "streamed _ = False"

definition tame :: "clientState \<Rightarrow> bool" where
  "tame c \<longleftrightarrow> (\<forall>m \<in> set (cl_out c). streamed m) \<and> (\<forall>m. cl_final c = Some m \<longrightarrow> (\<exists>x. m = MExited x))
     \<and> (if cl_writeDone c
        then \<exists>ms tail. cl_wire c = ms @ tail \<and> (\<forall>m \<in> set ms. streamed m) \<and> (tail = [] \<or> (\<exists>x. tail = [MExited x]))
        else \<forall>m \<in> set (cl_wire c). streamed m)"

lemma queued_streamed: "queuedMsg m \<Longrightarrow> streamed m"
  by (cases m) auto

lemma tame_done:
  "tame c \<Longrightarrow> \<exists>ms tail. cl_wire c = ms @ tail \<and> (\<forall>m \<in> set ms. streamed m) \<and> (tail = [] \<or> (\<exists>x. tail = [MExited x]))"
  unfolding tame_def by (cases "cl_writeDone c") auto

lemma tame_tail:
  assumes "tame c" and "cl_wire c = m # rest" and "streamed m"
  shows "\<exists>ms tail x. rest = ms @ tail \<and> (\<forall>m \<in> set ms. streamed m) \<and> (tail = [] \<or> tail = [MExited x])"
proof -
  obtain ms tail where t: "cl_wire c = ms @ tail" "\<forall>m \<in> set ms. streamed m" "tail = [] \<or> (\<exists>x. tail = [MExited x])"
    using tame_done [OF assms(1)] by blast
  with assms(2,3) have "ms \<noteq> []" by (cases ms) auto
  with t assms(2) show ?thesis by (intro exI [of _ "tl ms"] exI [of _ tail]) (cases ms; auto)
qed

lemma tail_exited:
  assumes "MAttached a # ms @ tail = w @ [MExited y]" and "\<forall>m \<in> set ms. streamed m" and "tail = [] \<or> tail = [MExited x]"
  shows "tail = [MExited y]"
proof -
  have "last (MAttached a # ms @ tail) = MExited y" using assms(1) by simp
  moreover have "streamed (last (MAttached a # ms))" using assms(2) by (cases ms rule: rev_cases) auto
  ultimately show ?thesis using assms(3) by (cases "ms = []") auto
qed

interpretation tame: client_law tame
proof
  show "tame c" if "cl_out c = [MAttached a]" "cl_wire c = []" "\<not> cl_writeDone c" "cl_final c = None" for c a
    using that by (simp add: tame_def)
  show "tame (c\<lparr>cl_out := ms, cl_connClosed := True, cl_writeDone := True\<rparr>)" if "tame c" "cl_out c = m # ms" for c m ms
    using tame_done [OF that(1)] that unfolding tame_def by auto
  show "tame (c\<lparr>cl_wire := cl_wire c @ [m], cl_writeDone := True\<rparr>)"
    if "tame c" "\<not> cl_writeDone c" "cl_final c = Some m" for c m
    using that unfolding tame_def by auto
  show "tame (c\<lparr>cl_writeDone := True\<rparr>)" "tame (c\<lparr>cl_connClosed := True, cl_writeDone := True\<rparr>)" if "tame c" for c
    using tame_done [OF that] that unfolding tame_def by auto
qed (auto simp: tame_def queued_streamed)

section \<open>Reading a connection\<close>

text \<open>
  The reads of a loop over \<open>ReadMessage\<close> on the bytes that arrive before the peer closes: what the
  loop of \<open>RunAttach\<close> sees, and, up to the first failure, the messages the loop of \<open>handleConn\<close> handles.
\<close>

lemma ReadMessage_consumes: "ReadMessage bs = (Inr m, rest) \<Longrightarrow> length rest < length bs"
  by (auto simp: ReadMessage_def ReadU32_def dbind_def dret_def dfail_def readFull_def split: sum.splits prod.splits if_splits)

function connReads :: "byte list \<Rightarrow> message result list" where
  "connReads bs = (case ReadMessage bs of (Inl e, rest) \<Rightarrow> [Inl e] | (Inr m, rest) \<Rightarrow> Inr m # connReads rest)"
  by pat_completeness auto
termination by (relation "measure length") (auto dest: ReadMessage_consumes [OF sym])

declare connReads.simps [simp del]

fun messagesRead :: "message result list \<Rightarrow> message list" where
  "messagesRead (Inr m # reads) = m # messagesRead reads"
| "messagesRead _ = []"

definition wireOf :: "message list \<Rightarrow> byte list" where
  "wireOf ms = concat (map wire_bytes ms)"

lemma wireOf_Cons [simp]: "wireOf [] = []" "wireOf (m # ms) = wire_bytes m @ wireOf ms"
  by (simp_all add: wireOf_def)

lemma connReads_wireOf: "\<forall>m \<in> set ms. wire_ok m \<Longrightarrow> connReads (wireOf ms) = map Inr ms @ [Inl EOF]"
proof (induction ms)
  case Nil
  show ?case by (simp add: connReads.simps [of "[]"] ReadMessage_def ReadU32_def dbind_def readFull_def)
next
  case (Cons m ms)
  then have "ReadMessage (wireOf (m # ms)) = (Inr m, wireOf ms)" by (simp add: ReadMessage_wire)
  with Cons show ?case by (subst connReads.simps) simp
qed

lemma messagesRead_all: "messagesRead (map Inr ms @ [Inl e]) = ms"
  by (induction ms) auto

section \<open>Output, from the PTY to the host terminal\<close>

lemma outIgnoring_working [simp]: "ht_broken ht = None \<Longrightarrow> outIgnoring d ht = ht\<lparr>ht_out := ht_out ht @ d\<rparr>"
  by (simp add: outIgnoring_def stdoutWrite_def)

lemma client_stream:
  assumes "reachable em s0 s" and "fresh_session s0" and "r < se_refs s"
  shows "prefix (outputs (cl_wire (se_heap s r))) (drop (cl_base (se_heap s r)) (se_accepted s))
    \<and> (cl_wire (se_heap s r) \<noteq> [] \<longrightarrow> (\<exists>a. hd (cl_wire (se_heap s r)) = MAttached a \<and> attached_ClientID a = cl_id (se_heap s r)))"
proof -
  have "core (se_clients s) (se_pendingClients s) s"
    using reachable_ok [OF assms(1,2)] by (simp add: loop_ok_def session_ok_def)
  note c = core_client [OF this assms(3), unfolded client_ok_def]
  moreover have "\<exists>a. m = MAttached a \<and> attached_ClientID a = i" if "isAttachedFor i m" for i m
    using that by (cases m) auto
  ultimately show ?thesis by blast
qed

lemma exited_stream:
  assumes "reachable em s0 s" and "fresh_session s0" and "se_exited s" and "r \<in> set (se_clients s)"
    and "cl_writeDone (se_heap s r)" and "\<not> cl_connClosed (se_heap s r)"
  shows "\<exists>w. cl_wire (se_heap s r) = w @ [MExited \<lparr>exited_ExitCode = se_exitCode s\<rparr>]
    \<and> outputs w = drop (cl_base (se_heap s r)) (se_accepted s)"
  using reachable_ok [OF assms(1,2)] assms(3-6) by (auto simp: loop_ok_def session_ok_def exit_ok_def)

lemma attachLoop_streamed:
  "\<forall>m \<in> set ms. streamed m \<Longrightarrow> ht_broken ht = None \<Longrightarrow>
     attachLoop (map Inr ms @ reads) ht = attachLoop reads (ht\<lparr>ht_out := ht_out ht @ concat (outputs ms)\<rparr>)"
proof (induction ms arbitrary: ht)
  case (Cons m ms)
  then show ?case by (cases m) (simp_all add: handleAttachMessage_def)
qed simp

lemma attachLoop_wire:
  assumes "\<forall>m \<in> set ms. streamed m" and "tail = [] \<or> tail = [MExited x]" and "ht_broken ht = None"
    and "attachLoop (map Inr (ms @ tail) @ [Inl EOF]) ht = (r, ht')"
  shows "r = (if tail = [] then Inr () else Inl (ExitError (sint (exited_ExitCode x))))"
    and "ht_out ht' = ht_out ht @ concat (outputs (ms @ tail)) @ resetSequence"
proof -
  have "outputs tail = []" using assms(2) by auto
  moreover have "attachLoop (map Inr tail @ [Inl EOF]) (ht\<lparr>ht_out := ht_out ht @ concat (outputs ms)\<rparr>) = (r, ht')"
    using attachLoop_streamed [OF assms(1,3), of "map Inr tail @ [Inl EOF]"] assms(4) by simp
  ultimately show "r = (if tail = [] then Inr () else Inl (ExitError (sint (exited_ExitCode x))))"
    and "ht_out ht' = ht_out ht @ concat (outputs (ms @ tail)) @ resetSequence"
    using assms(2,3) by (auto simp: handleAttachMessage_def restoreHostTerminal_out)
qed

text \<open>What is on the screen before the loop: ends with the screen dump, unless the session is new.\<close>

definition shown :: "attachedMsg \<Rightarrow> byte list \<Rightarrow> hostTerm \<Rightarrow> hostTerm \<Rightarrow> bool" where
  "shown a pre ht ht' \<longleftrightarrow> ht_out ht' = ht_out ht @ pre \<and> ht_broken ht' = None
     \<and> (\<not> attached_Created a \<longrightarrow> suffix (attached_ScreenDump a) pre)"

lemma reattach_shown:
  assumes "writeReattachScreenDump report rws a ht = (q, ht')" and "ht_broken ht = None"
  shows "q = Inr () \<and> (\<exists>pre. shown a pre ht ht')"
proof -
  have "\<exists>pre. ht_out ht' = ht_out ht @ pre @ (if attached_Created a then [] else attached_ScreenDump a)"
    and "ht_broken ht' = None" and "q = Inr ()"
    using assms by (auto simp: writeReattachScreenDump_def stdoutWrite_def Let_def split: if_splits option.splits)
  then show ?thesis by (auto simp: shown_def suffix_def)
qed

lemma RunAttach_shown:
  assumes "attachRequestFromOpts opts = Inr req" and "attachReq req = Inr a" and "ht_broken ht = None"
  shows "\<exists>ht1 pre. shown a pre ht ht1
    \<and> RunAttach opts attachReq report None reads ht = (case attachLoop reads ht1 of (r, ht') \<Rightarrow> (r, termRestore ht'))"
proof -
  let ?ht = "(writeAttachStatus a (ao_ReadOnly opts) ht)"
  have st: "ht_out ?ht = ht_out ht" "ht_broken ?ht = None" using assms(3) by (simp_all add: writeAttachStatus_def Let_def)
  let ?ht2 = "?ht\<lparr>ht_out := ht_out ?ht @ esc ''[>0u''\<rparr>"
  have push: "pushKittyKeyboard ?ht = (Inr (), ?ht2)" using st by (simp add: pushKittyKeyboard_def stdoutWrite_def)
  obtain q ht3 where re: "writeReattachScreenDump report (attach_Rows req) a ?ht2 = (q, ht3)" by fastforce
  from reattach_shown [OF this] st obtain pre where q: "q = Inr ()" and pre: "shown a pre ?ht2 ht3" by auto
  obtain q4 ht4 where cr: "writeCreatedCommandDump a (ao_Command opts) (ht3\<lparr>ht_raw := True\<rparr>) = (q4, ht4)" by fastforce
  then have q4: "q4 = Inr ()" "\<exists>d. ht_out ht4 = ht_out ht3 @ d \<and> ht_broken ht4 = None \<and> (\<not> attached_Created a \<longrightarrow> d = [])"
    using pre by (auto simp: writeCreatedCommandDump_def stdoutWrite_def shown_def split: if_splits)
  then obtain d where d: "ht_out ht4 = ht_out ht3 @ d" "ht_broken ht4 = None" "\<not> attached_Created a \<longrightarrow> d = []" by blast
  have "shown a (esc ''[>0u'' @ pre @ d) ht ht4"
    using pre d st by (auto simp: shown_def intro: suffix_appendI)
  moreover have "RunAttach opts attachReq report None reads ht = (case attachLoop reads ht4 of (r, ht') \<Rightarrow> (r, termRestore ht'))"
    using assms(1,2) push re q cr q4(1) by (simp add: RunAttach_def)
  ultimately show ?thesis by blast
qed

text \<open>Every message of the stream but \<open>Attached\<close> fits a frame; PTY chunks have at most 64 KiB.\<close>

lemma Output_wire_ok: "length (output_Data m) \<le> 65536 \<Longrightarrow> wire_ok (MOutput m)"
  by (simp add: demo_unfold codec_simps maxFrameSize_def)

lemma Input_wire_ok: "length d \<le> 65536 \<Longrightarrow> wire_ok (MInput \<lparr>input_Data = d\<rparr>)"
  by (simp add: demo_unfold ok_Input_def encode_Input_def codec_simps maxFrameSize_def)

lemma small_wire_ok: "wire_ok (MClientsChanged m)" "wire_ok (MExited x)" "wire_ok MDetach"
  by (simp_all add: demo_unfold ok_ClientsChanged_def ok_Exited_def encode_ClientsChanged_def encode_Exited_def codec_simps
      maxFrameSize_def eall_Nil_sput)

lemma wire_stream_ok:
  assumes "reachable em s0 s" and "fresh_session s0" and "r < se_refs s"
    and "\<forall>d \<in> set (se_accepted s). length d \<le> ptyBatchSize"
    and "\<forall>a. MAttached a \<in> set (cl_wire (se_heap s r)) \<longrightarrow> wire_ok (MAttached a)"
  shows "\<forall>m \<in> set (cl_wire (se_heap s r)). wire_ok m"
proof
  fix m assume m: "m \<in> set (cl_wire (se_heap s r))"
  have "prefix (outputs (cl_wire (se_heap s r))) (drop (cl_base (se_heap s r)) (se_accepted s))"
    using client_stream [OF assms(1-3)] by blast
  then have "set (outputs (cl_wire (se_heap s r))) \<subseteq> set (se_accepted s)"
    by (meson order_trans set_drop_subset set_mono_prefix)
  moreover have "output_Data x \<in> set (outputs ms)" if "MOutput x \<in> set ms" for x ms
    using that by (induction ms rule: outputs.induct) auto
  ultimately have out: "m = MOutput x \<Longrightarrow> length (output_Data x) \<le> 65536" for x
    using m assms(4) by (auto simp: ptyBatchSize_def)
  obtain ms tail where "cl_wire (se_heap s r) = ms @ tail" "\<forall>m \<in> set ms. streamed m" "tail = [] \<or> (\<exists>x. tail = [MExited x])"
    using tame_done [OF tame.reachable_every [OF assms(1-3)]] by blast
  with m consider "streamed m" | x where "m = MExited x" by auto
  then show "wire_ok m"
  proof cases
    case 1
    then show ?thesis
    proof (cases m)
      case (MOutput x)
      with Output_wire_ok [OF out] show ?thesis by simp
    qed (use m assms(5) small_wire_ok in auto)
  qed (simp add: small_wire_ok)
qed

section \<open>Input, from the keyboard to the PTY\<close>

lemma Resize_wire_ok: "wire_ok (MResize m)"
  by (simp add: demo_unfold ok_Resize_def encode_Resize_def codec_simps maxFrameSize_def)

lemma sessionAt_onAttached:
  assumes "\<And>l. ls_id (f l) = ls_id l"
  shows "sessionAt (at_name at) (at_id at) (onAttached f at sv) = map_option f (sessionAt (at_name at) (at_id at) sv)"
  using assms by (auto simp: onAttached_def sessionAt_def liveSession_def putSession_def AList.update_conv' split: option.split)

text \<open>The other connections leave the session, its PTY and its input alone.\<close>

definition leaves_session :: "attachment \<Rightarrow> (nat \<Rightarrow> 't interference) \<Rightarrow> bool" where
  "leaves_session at itfs \<longleftrightarrow> (\<forall>k j s l. sessionAt (at_name at) (at_id at) s = Some l \<longrightarrow>
     (\<exists>l'. sessionAt (at_name at) (at_id at) (itfs k j s) = Some l' \<and> ls_input l' = ls_input l \<and> ls_ptyErr l' = ls_ptyErr l))"

fun fromHost :: "message \<Rightarrow> bool" where
  "fromHost (MInput m) = True"
| "fromHost (MResize m) = True"
| "fromHost MDetach = True"
| "fromHost _ = False"

lemma streamStep_typed:
  assumes "fromHost m" and "\<not> at_readOnly at" and "sessionAt (at_name at) (at_id at) sv = Some l" and "ls_ptyErr l = None"
    and "streamStep h at m sv = (stays, sv')"
  shows "stays = (m \<noteq> MDetach)"
    and "\<exists>l'. sessionAt (at_name at) (at_id at) sv' = Some l' \<and> ls_input l' = ls_input l @ inputsOf [m] \<and> ls_ptyErr l' = None"
  using assms by (cases m; force simp: streamStep_def detachConn_def sessionAt_onAttached sendInput_def split: option.split)+

lemma runConn_typed:
  assumes "cn_attached cn = Some at" and "\<not> at_readOnly at" and "leaves_session at itfs"
    and "\<forall>m \<in> set ms. fromHost m" and "sessionAt (at_name at) (at_id at) sv = Some l" and "ls_ptyErr l = None"
  shows "\<exists>l'. sessionAt (at_name at) (at_id at) (snd (runConn h itfs ms cn sv)) = Some l'
    \<and> ls_input l' = ls_input l @ inputsOf (takeWhile (\<lambda>m. m \<noteq> MDetach) ms)"
  using assms(1,4-6)
proof (induction ms arbitrary: cn sv l)
  case Nil
  then show ?case by (simp add: detachConn_def sessionAt_onAttached)
next
  case (Cons m ms)
  let ?sv = "itfs (length ms) 5 sv"
  obtain l1 where l1: "sessionAt (at_name at) (at_id at) ?sv = Some l1" "ls_input l1 = ls_input l" "ls_ptyErr l1 = None"
    using assms(3) Cons.prems(3,4) unfolding leaves_session_def by metis
  obtain stays sv1 where st: "streamStep h at m ?sv = (stays, sv1)" by fastforce
  have m: "fromHost m" using Cons.prems(2) by simp
  note step = streamStep_typed [OF m assms(2) l1(1,3) st]
  then obtain l2 where l2: "sessionAt (at_name at) (at_id at) sv1 = Some l2" "ls_input l2 = ls_input l @ inputsOf [m]" "ls_ptyErr l2 = None"
    using l1(2) by auto
  have run: "snd (runConn h itfs (m # ms) cn sv)
      = (if m \<noteq> MDetach then snd (runConn h itfs ms (cn\<lparr>cn_closed := False\<rparr>) sv1) else sv1)"
    using Cons.prems(1) st step(1) by (simp add: connStep_def split_beta)
  have split: "inputsOf (m # xs) = inputsOf [m] @ inputsOf xs" for xs using inputsOf_append [of "[m]" xs] by simp
  show ?case
  proof (cases "m = MDetach")
    case True
    with l2 run show ?thesis by simp
  next
    case False
    with Cons.IH [of "cn\<lparr>cn_closed := False\<rparr>" sv1 l2] Cons.prems(1,2) l2 run show ?thesis by (auto simp: split [of "takeWhile _ _"])
  qed
qed

text \<open>The keyboard and the resize goroutine write to the same connection, in any order.\<close>

lemma forward_messages:
  assumes "forwardHostInput dk readOnly reads = (msgs, detached)"
  shows "MDetach \<notin> set (butlast msgs)"
    and "\<forall>m \<in> set msgs. m = MDetach \<or> (\<exists>d \<in> set reads. \<exists>i. m = MInput \<lparr>input_Data = take i d\<rparr>)"
  using assms
proof (induction reads arbitrary: msgs detached)
  case (Cons d reads)
  obtain ms dt where rest: "forwardHostInput dk readOnly reads = (ms, dt)" by fastforce
  note IH = Cons.IH [OF rest]
  { case 1 then show ?case using IH(1) rest by (auto split: if_splits option.splits) }
  { case 2
    have "\<exists>i. MInput \<lparr>input_Data = d\<rparr> = MInput \<lparr>input_Data = take i d\<rparr>" by (rule exI [of _ "length d"]) simp
    with 2 IH(2) rest show ?case by (auto split: if_splits option.splits) blast+ }
qed simp_all

lemma resize_messages: "m \<in> set (forwardHostResize sigs) \<Longrightarrow> \<exists>v. m = MResize v"
  by (induction sigs rule: forwardHostResize.induct) (auto split: if_splits)

lemma shuffled_inputs:
  "ms \<in> shuffles a b \<Longrightarrow> MDetach \<notin> set (butlast a) \<Longrightarrow> \<forall>m \<in> set b. \<exists>v. m = MResize v \<Longrightarrow>
     inputsOf (takeWhile (\<lambda>m. m \<noteq> MDetach) ms) = inputsOf a"
proof (induction a b arbitrary: ms rule: shuffles.induct)
  case (1 ys)
  have "inputsOf ys = [] \<and> MDetach \<notin> set ys" if "\<forall>m \<in> set ys. \<exists>v. m = MResize v" for ys
    using that by (induction ys) auto
  from this [OF "1.prems"(3)] have "inputsOf ys = []" "takeWhile (\<lambda>m. m \<noteq> MDetach) ys = ys" by (auto simp: takeWhile_eq_all_conv)
  with 1 show ?case by (simp del: takeWhile_eq_all_conv)
next
  case (2 xs)
  have "inputsOf (takeWhile (\<lambda>m. m \<noteq> MDetach) xs) = inputsOf xs" if "MDetach \<notin> set (butlast xs)" for xs
    using that
  proof (induction xs rule: inputsOf.induct)
    case (2 m ms) then show ?case by (cases ms) auto
  qed (auto split: if_splits)
  with 2 show ?case by simp
next
  case (3 x xs y ys)
  have split: "inputsOf (x # zs) = inputsOf [x] @ inputsOf zs" for zs using inputsOf_append [of "[x]" zs] by simp
  from "3.prems"(3) obtain v where y: "y = MResize v" by auto
  from "3.prems"(1) consider ms' where "ms = x # ms'" "ms' \<in> shuffles xs (y # ys)" | ms' where "ms = y # ms'" "ms' \<in> shuffles (x # xs) ys"
    by auto
  then show ?case
  proof cases
    case (1 ms')
    show ?thesis
    proof (cases "x = MDetach")
      case True
      with 1(1) "3.prems"(2) show ?thesis by (cases xs) auto
    next
      case False
      have "MDetach \<notin> set (butlast xs)" using "3.prems"(2) by (cases xs) auto
      from "3.IH"(1) [OF 1(2) this "3.prems"(3)] False 1(1) show ?thesis by (simp add: split [of xs] split [of "takeWhile _ _"])
    qed
  next
    case (2 ms')
    with "3.IH"(2) [OF 2(2)] "3.prems" y show ?thesis by simp
  qed
qed

section \<open>Properties\<close>


definition demo_conn :: conn where
  "demo_conn = \<lparr>c_sink = buffer, c_in = wireOf (cl_wire (se_heap demo_exited 0))\<rparr>"

lemma demo_wire:
  "cl_wire (se_heap demo_exited 0) =
     [MAttached \<lparr>attached_Name = ''work'', attached_PID = 42, attached_ClientID = ''1'', attached_Cols = 80, attached_Rows = 24,
        attached_ScreenDump = [], attached_CursorRow = 0, attached_CursorCol = 0, attached_AltScreen = False, attached_Created = False\<rparr>,
      MClientsChanged \<lparr>clientsChanged_Count = 1, clientsChanged_Cols = 80, clientsChanged_Rows = 24\<rparr>,
      MOutput \<lparr>output_Data = [104, 105]\<rparr>, MOutput \<lparr>output_Data = [33]\<rparr>, MExited \<lparr>exited_ExitCode = 3\<rparr>]"
  unfolding demo_exited_def by code_simp


text \<open>
  C8. What the user types reaches the program. The bytes read from the keyboard travel as \<open>Input\<close>
  messages, in any interleaving with the size changes of the host terminal, and the daemon that reads
  this connection writes to the PTY of the attached session exactly these bytes, in order: all of them
  if the detach key is not pressed, and otherwise those before the key in the first read that holds
  it, and nothing after. A detach key of a single byte never reaches the program.
\<close>

theorem typed_bytes_reach_session:
  assumes fwd: "forwardHostInput dk False reads = (msgs, detached)" "\<forall>d \<in> set reads. length d \<le> 4096"
    and ms: "ms \<in> shuffles msgs (forwardHostResize sigs)"
    and at: "cn_attached cn = Some at" "\<not> at_readOnly at" "leaves_session at itfs"
    and sess: "sessionAt (at_name at) (at_id at) sv = Some ls" "ls_ptyErr ls = None"
    and run: "runConn h itfs (messagesRead (connReads (wireOf ms))) cn sv = (replies, sv')"
  shows "\<exists>ls' typed. sessionAt (at_name at) (at_id at) sv' = Some ls' \<and> ls_input ls' = ls_input ls @ typed
    \<and> (\<not> detached \<longrightarrow> typed = concat reads \<and> (\<forall>d \<in> set reads. \<not> hasDetach dk d))
    \<and> (detached \<longrightarrow> (\<exists>before data after i. reads = before @ data # after \<and> findDetach data dk = Some i
         \<and> (\<forall>d \<in> set before. \<not> hasDetach dk d) \<and> typed = concat before @ take i data))
    \<and> (dk_hasRaw dk \<longrightarrow> dk_rawByte dk \<notin> set typed)"
proof -
  note sent = forward_messages [OF fwd(1)]
  have elems: "set ms = set msgs \<union> set (forwardHostResize sigs)" using set_shuffles [OF ms] .
  have ok: "wire_ok m \<and> fromHost m" if "m \<in> set ms" for m
  proof -
    from that elems resize_messages sent(2) consider "m = MDetach" | d i where "d \<in> set reads" "m = MInput \<lparr>input_Data = take i d\<rparr>"
      | v where "m = MResize v" by blast
    then show ?thesis
    proof cases
      case (2 d i)
      then have "length (take i d) \<le> 65536" using fwd(2) by auto
      with 2 Input_wire_ok show ?thesis by simp
    qed (simp_all add: small_wire_ok Resize_wire_ok)
  qed
  then have "messagesRead (connReads (wireOf ms)) = ms" using connReads_wireOf messagesRead_all by simp
  with runConn_typed [OF at(1,2,3) _ sess, of ms h] ok run obtain ls' where
    ls': "sessionAt (at_name at) (at_id at) sv' = Some ls'" "ls_input ls' = ls_input ls @ inputsOf (takeWhile (\<lambda>m. m \<noteq> MDetach) ms)"
    by auto
  then have "ls_input ls' = ls_input ls @ inputsOf msgs" using shuffled_inputs [OF ms sent(1)] resize_messages by simp
  with ls'(1) typed_input_forwarded [OF fwd(1)] show ?thesis by blast
qed

definition typing_server :: "(byte list) server" where
  "typing_server = snd (handleAttach demo_host no_interference (demo_attachMsg ''work'' False False) ''v1'' (demo_server\<lparr>sv_persist := False\<rparr>))"

definition typing_conn :: connState where
  "typing_conn = \<lparr>cn_rev = ''v1'', cn_attached = Some \<lparr>at_name = ''work'', at_id = 0, at_client = 0, at_readOnly = False\<rparr>, cn_closed = False\<rparr>"

definition typing_key :: detachKey where
  "typing_key = \<lparr>dk_rawByte = 0x1d, dk_hasRaw = True, dk_csiSeq = [0x1b, 0x5b]\<rparr>"

definition typing_reads :: "byte list list" where
  "typing_reads = [[97, 98], [99, 0x1d, 100]]"

definition typing_msgs :: "message list" where
  "typing_msgs = fst (forwardHostInput typing_key False typing_reads)"

definition typed_server :: "(byte list) server" where
  "typed_server = snd (runConn demo_host (\<lambda>_. no_interference) (messagesRead (connReads (wireOf typing_msgs))) typing_conn typing_server)"

theorem typed_bytes_reach_session_witness:
  "\<exists>ls'. sessionAt ''work'' 0 typed_server = Some ls' \<and> ls_input ls' = [97, 98, 99]"
proof -
  have fwd: "forwardHostInput typing_key False typing_reads = (typing_msgs, True)" unfolding typing_msgs_def by code_simp
  obtain ls where ls: "sessionAt ''work'' 0 typing_server = Some ls" "ls_ptyErr ls = None" "ls_input ls = []"
  proof -
    have "case sessionAt ''work'' 0 typing_server of Some ls \<Rightarrow> ls_ptyErr ls = None \<and> ls_input ls = [] | None \<Rightarrow> False" by code_simp
    then show ?thesis using that by (auto split: option.splits)
  qed
  let ?at = "\<lparr>at_name = ''work'', at_id = 0, at_client = 0, at_readOnly = False\<rparr>"
  have quiet: "leaves_session ?at (\<lambda>_. no_interference)" by (simp add: leaves_session_def no_interference_def)
  have short: "\<forall>d \<in> set typing_reads. length d \<le> 4096" by (simp add: typing_reads_def)
  have alone: "typing_msgs \<in> shuffles typing_msgs (forwardHostResize [])" by simp
  have cn: "cn_attached typing_conn = Some ?at" "\<not> at_readOnly ?at" by (simp_all add: typing_conn_def)
  have at: "sessionAt (at_name ?at) (at_id ?at) typing_server = Some ls" using ls(1) by simp
  from typed_bytes_reach_session [OF fwd short alone cn quiet at ls(2) prod.collapse [symmetric], of demo_host]
  obtain ls' before data after i where out: "sessionAt ''work'' 0 typed_server = Some ls'"
      "typing_reads = before @ data # after" "findDetach data typing_key = Some i" "\<forall>d \<in> set before. \<not> hasDetach typing_key d"
      "ls_input ls' = concat before @ take i data"
    unfolding ls(3) typed_server_def by auto
  have first: "findDetach [97, 98] typing_key = None" "findDetach [99, 0x1d, 100] typing_key = Some 1" "hasDetach typing_key [99, 0x1d, 100]"
    by code_simp+
  from out(2) consider "before = []" "data = [97, 98]" | "before = [[97, 98]]" "data = [99, 0x1d, 100]"
    by (auto simp: typing_reads_def Cons_eq_append_conv)
  then have "ls_input ls' = [97, 98, 99]" using out(3-5) first by cases auto
  with out(1) show ?thesis by blast
qed

end
