(* ===== verification/Term_Test.thy ===== *)
theory Term_Test
  imports Terminal_Props
begin

text \<open>
  \<open>internal/termtest/termtest.go\<close>: the harness that runs a program on a PTY under the terminal emulator
  and lets a test type, look at the screen and wait. \<open>t.Fatalf\<close> ends the test by running its deferred
  calls; here it is an error of the \<open>go\<close> monad, with the text that is reported. The program behind the
  PTY and the file system are parameters; what the PTY accepts is a script of write results; the reader
  goroutine, the ticker and the deadline of a wait are a script of events in the order the select
  statements see them.
\<close>

section \<open>Options\<close>

datatype dumpFormat = DumpPlain | DumpVTFull

record benchOptions =
  op_cols :: u32
  op_rows :: u32
  op_scrollback :: u32
  op_env :: "string list"
  op_dir :: string
  op_timeout :: int

type_synonym benchOption = "benchOptions \<Rightarrow> benchOptions"

definition testWithSize :: "u32 \<Rightarrow> u32 \<Rightarrow> benchOption" where
  "testWithSize c r opts = opts\<lparr>op_cols := c, op_rows := r\<rparr>"
definition testWithScrollback :: "u32 \<Rightarrow> benchOption" where
  "testWithScrollback n opts = opts\<lparr>op_scrollback := n\<rparr>"
definition testWithEnv :: "string list \<Rightarrow> benchOption" where
  "testWithEnv env opts = opts\<lparr>op_env := op_env opts @ env\<rparr>"
definition testWithDir :: "string \<Rightarrow> benchOption" where
  "testWithDir dir opts = opts\<lparr>op_dir := dir\<rparr>"
definition testWithTimeout :: "int \<Rightarrow> benchOption" where
  "testWithTimeout d opts = opts\<lparr>op_timeout := d\<rparr>"

text \<open>Durations are in nanoseconds.\<close>

definition benchOptionsOf :: "benchOption list \<Rightarrow> benchOptions" where
  "benchOptionsOf options = fold (\<lambda>fn opts. fn opts) options
     \<lparr>op_cols = 80, op_rows = 24, op_scrollback = 1000, op_env = [], op_dir = [], op_timeout = 5 * 10 ^ 9\<rparr>"

section \<open>Finding the program\<close>

text \<open>\<open>os.Stat\<close>: \<open>None\<close> when it fails, else whether the path is a directory.\<close>

type_synonym statFn = "string \<Rightarrow> bool option"

definition pathIn :: "string list \<Rightarrow> string" where
  "pathIn env = (case find (\<lambda>e. hasPrefix e ''PATH='') env of None \<Rightarrow> [] | Some e \<Rightarrow> drop 5 e)"

definition lookPathIn :: "statFn \<Rightarrow> string \<Rightarrow> string list \<Rightarrow> string result" where
  "lookPathIn stat name env =
     (if CHR ''/'' \<in> set name then Inr name
      else let path = pathIn env
           in if path = [] then Inl (Errorf ''PATH not set in environment'')
              else (case find (\<lambda>p. stat p = Some False) (map (\<lambda>dir. dir @ ''/'' @ name) (splitOn (CHR '':'') path)) of
                      Some p \<Rightarrow> Inr p
                    | None \<Rightarrow> Inl (Errorf (quoted name @ '' not found in PATH''))))"

section \<open>The terminal under test\<close>

datatype benchChild = NoChild | ChildRunning | ChildReaped

text \<open>
  The emulator's runtime, the three objects of the struct, and the PTY: what was written to the master,
  the results of the next writes and resizes (success when the script is over), its size, whether the
  master is open, and the child.
\<close>

record 'm bench =
  bn_ts :: terminalState
  bn_rt :: "'m wasmRuntime"
  bn_written :: "byte list"
  bn_writes :: "gerror option list"
  bn_setsizes :: "gerror option list"
  bn_winsize :: "u16 \<times> u16"
  bn_open :: bool
  bn_child :: benchChild
  bn_opts :: benchOptions

text \<open>Calls on the objects.\<close>

definition onTs :: "(terminalState \<times> 'm wasmRuntime, 'a) go \<Rightarrow> ('m bench, 'a) go" where
  "onTs f bn = (case f (bn_ts bn, bn_rt bn) of (r, (ts, rt)) \<Rightarrow> (r, bn\<lparr>bn_ts := ts, bn_rt := rt\<rparr>))"

definition onTerm :: "(terminal \<Rightarrow> ('m wasmRuntime, 'a) go) \<Rightarrow> ('m bench, 'a) go" where
  "onTerm f = onTs (gbind getObj (\<lambda>ts. onRt (f (ts_term ts))))"

definition newObjects :: "'m exports \<Rightarrow> benchOptions \<Rightarrow> ('m wasmRuntime, terminalState) go" where
  "newObjects X opts =
     gbind (gwrap ''termtest: new terminal'' (NewTerminal X
       [WithSize (ucast (op_cols opts)) (ucast (op_rows opts)), WithMaxScrollbackLines (ucast (op_scrollback opts))])) (\<lambda>term.
     gbind (gwrap ''termtest: new key encoder'' (gonerr (NewKeyEncoder X) (onLocal term (closeLocked X)))) (\<lambda>encoder.
     gbind (gwrap ''termtest: new key event''
              (gonerr (NewKeyEvent X) (gbind (onLocal encoder (closeKeyEncoder X)) (\<lambda>_. onLocal term (closeLocked X))))) (\<lambda>event.
     gret \<lparr>ts_term = term, ts_keyEncoder = encoder, ts_keyEvent = event\<rparr>)))"

text \<open>\<open>pty.StartWithSize\<close> on the resolved program, its arguments, environment, directory and size.\<close>

type_synonym startFn = "string \<Rightarrow> string list \<Rightarrow> string list \<Rightarrow> string \<Rightarrow> u16 \<times> u16 \<Rightarrow> gerror option"

definition closeObjects :: "'m exports \<Rightarrow> ('m bench, unit) go" where
  "closeObjects X = onTs (tsClose X)"

definition testNew :: "'m exports \<Rightarrow> statFn \<Rightarrow> startFn \<Rightarrow> string list \<Rightarrow> benchOption list \<Rightarrow> ('m bench, unit) go" where
  "testNew X stat start command options bn =
     (let opts = benchOptionsOf options; size = (ucast (op_cols opts), ucast (op_rows opts))
      in case newObjects X opts (bn_rt bn) of
           (Err e, rt) \<Rightarrow> (Err e, bn\<lparr>bn_rt := rt\<rparr>)
         | (Panics e, rt) \<Rightarrow> (Panics e, bn\<lparr>bn_rt := rt\<rparr>)
         | (Ret ts, rt) \<Rightarrow>
        let bn = bn\<lparr>bn_ts := ts, bn_rt := rt\<rparr>
        in case command of
             [] \<Rightarrow> (Panics (Errorf ''runtime error: index out of range [0] with length 0''), bn)
           | name # _ \<Rightarrow>
          (case lookPathIn stat name (op_env opts) of
             Inl e \<Rightarrow> (Err (Wrap (''termtest: lookup '' @ quoted name) e), snd (closeObjects X bn))
           | Inr path \<Rightarrow>
          (case start path command (op_env opts) (op_dir opts) size of
             Some e \<Rightarrow> (Err (Wrap ''termtest: start pty'' e), snd (closeObjects X bn))
           | None \<Rightarrow> (Ret (), bn\<lparr>bn_open := True, bn_child := ChildRunning, bn_winsize := size, bn_opts := opts\<rparr>))))"

text \<open>The reader goroutine over what the reads return: data and whether the read also failed.\<close>

fun readLoop :: "'m exports \<Rightarrow> (byte list \<times> bool) list \<Rightarrow> ('m bench, unit) go" where
  "readLoop X [] = gret ()"
| "readLoop X ((data, failed) # reads) =
     gbind (if data \<noteq> [] then onTerm (\<lambda>t. VTWrite X t data) else gret ()) (\<lambda>_.
     if failed then gret () else readLoop X reads)"

text \<open>
  The function registered with \<open>t.Cleanup\<close>: the child is killed and reaped, the reader drains what is left and
  ends (\<open>rest\<close>), the PTY and the objects are closed.
\<close>

definition cleanup :: "'m exports \<Rightarrow> (byte list \<times> bool) list \<Rightarrow> ('m bench, unit) go" where
  "cleanup X rest =
     gbind (\<lambda>bn. (Ret (), bn\<lparr>bn_child := ChildReaped\<rparr>)) (\<lambda>_.
     gbind (readLoop X rest) (\<lambda>_.
     gbind (\<lambda>bn. (Ret (), bn\<lparr>bn_open := False\<rparr>)) (\<lambda>_.
     closeObjects X)))"

section \<open>Typing\<close>

definition ptyWrite :: "byte list \<Rightarrow> ('m bench, unit) go" where
  "ptyWrite data bn =
     (case bn_writes bn of
        Some e # ws \<Rightarrow> (Err e, bn\<lparr>bn_writes := ws\<rparr>)
      | ws \<Rightarrow> (Ret (), bn\<lparr>bn_written := bn_written bn @ data, bn_writes := tl ws\<rparr>))"

definition Type :: "string \<Rightarrow> ('m bench, unit) go" where
  "Type s = gwrap ''termtest: type'' (ptyWrite (bytes_of_string s))"

definition unshiftedFor :: "int \<Rightarrow> u32" where
  "unshiftedFor key =
     (if key = KeyBracketRight then 0x5D else if key = KeyBackslash then 0x5C else if key = KeyEnter then 0x0D else 0)"

definition encodeTestKey :: "'m exports \<Rightarrow> int \<Rightarrow> u16 \<Rightarrow> (terminalState \<times> 'm wasmRuntime, byte list) go" where
  "encodeTestKey X key mods =
     gbind (onEvent (SetAction X KeyActionPress)) (\<lambda>_.
     gbind (onEvent (SetKey X (of_int key))) (\<lambda>_.
     gbind (onEvent (SetMods X mods)) (\<lambda>_.
     gbind (onEvent (SetConsumedMods X 0)) (\<lambda>_.
     gbind (onEvent (SetComposing X False)) (\<lambda>_.
     gbind (onEvent (SetUnshiftedCodepoint X (unshiftedFor key))) (\<lambda>_.
     gbind (onEvent (SetUTF8 X [])) (\<lambda>_.
     gbind getObj (\<lambda>t.
     onRt (gbind (SetOptFromTerminal X (ts_keyEncoder t) (ts_term t)) (\<lambda>_.
       gwrap ''termtest: encode key'' (Encode X (ts_keyEncoder t) (ts_keyEvent t))))))))))))"

definition Key :: "'m exports \<Rightarrow> int \<Rightarrow> u16 \<Rightarrow> ('m bench, unit) go" where
  "Key X key mods =
     gbind (onTs (encodeTestKey X key mods)) (\<lambda>data.
       if data \<noteq> [] then gwrap ''termtest: write key'' (ptyWrite data) else gret ())"

definition ptySetsize :: "u16 \<times> u16 \<Rightarrow> ('m bench, unit) go" where
  "ptySetsize ws bn =
     (case bn_setsizes bn of
        Some e # rs \<Rightarrow> (Err e, bn\<lparr>bn_setsizes := rs\<rparr>)
      | rs \<Rightarrow> (Ret (), bn\<lparr>bn_winsize := ws, bn_setsizes := tl rs\<rparr>))"

definition testResize :: "'m exports \<Rightarrow> u32 \<Rightarrow> u32 \<Rightarrow> ('m bench, unit) go" where
  "testResize X c r =
     gbind (gwrap ''termtest: setsize'' (ptySetsize (ucast c, ucast r))) (\<lambda>_.
     gwrap ''termtest: wasm resize'' (onTerm (\<lambda>t. terminalResize X t (ucast c) (ucast r) 0 0)))"

section \<open>Looking at the screen\<close>

definition testSelection :: "'m exports \<Rightarrow> terminal \<Rightarrow> ('m wasmRuntime, selection) go" where
  "testSelection X term =
     gbind (gwrap ''termtest: terminal columns'' (terminalCols X term)) (\<lambda>c.
     gbind (gwrap ''termtest: terminal rows'' (terminalRows X term)) (\<lambda>r.
     gbind (gwrap ''termtest: selection start'' (GridRef X term \<lparr>pt_Tag = PointTagActive, pt_X = 0, pt_Y = 0\<rparr>)) (\<lambda>start.
     gbind (gwrap ''termtest: selection end''
              (GridRef X term \<lparr>pt_Tag = PointTagActive, pt_X = c - 1, pt_Y = ucast (r - 1)\<rparr>)) (\<lambda>stop.
     gret \<lparr>sl_Start = start, sl_End = stop, sl_Rectangle = False\<rparr>))))"

definition testOptions :: "dumpFormat \<Rightarrow> selection option \<Rightarrow> formatterOption list" where
  "testOptions format sel =
     [WithFormatterTrim True] @ (case sel of None \<Rightarrow> [] | Some s \<Rightarrow> [WithFormatterSelection s])
     @ (if format = DumpVTFull
        then [WithFormatterFormat FormatterFormatVT, WithFormatterExtraModes True, WithFormatterExtraScrollingRegion True,
              WithFormatterExtraPwd True, WithFormatterExtraKeyboard True, WithFormatterExtraCursor True,
              WithFormatterExtraStyle True, WithFormatterExtraHyperlink True, WithFormatterExtraProtection True,
              WithFormatterExtraKittyKeyboard True, WithFormatterExtraCharsets True]
        else [])"

definition snapshotOf :: "'m exports \<Rightarrow> dumpFormat \<Rightarrow> terminal \<Rightarrow> ('m wasmRuntime, screenDump) go" where
  "snapshotOf X format term =
     gbind (if format = DumpPlain then gbind (testSelection X term) (\<lambda>sel. gret (Some sel)) else gret None) (\<lambda>sel.
     gbind (gwrap ''termtest: snapshot formatter'' (NewFormatter X term (testOptions format sel))) (\<lambda>formatter.
     gdefer (onLocal formatter (closeFormatter X))
       (gbind (gwrap ''termtest: snapshot'' (Format X formatter)) (\<lambda>data.
        gbind (gwrap ''termtest: cursor column'' (CursorX X term)) (\<lambda>cursorCol.
        gbind (gwrap ''termtest: cursor row'' (CursorY X term)) (\<lambda>cursorRow.
        gbind (gwrap ''termtest: active screen'' (ActiveScreen X term)) (\<lambda>activeScreen.
        gret \<lparr>dump_Data = data, dump_CursorRow = ucast cursorRow, dump_CursorCol = ucast cursorCol,
              dump_IsAltScreen = (activeScreen = ScreenAlternate)\<rparr>)))))))"

definition testSnapshot :: "'m exports \<Rightarrow> dumpFormat \<Rightarrow> ('m bench, screenDump) go" where
  "testSnapshot X format = onTerm (snapshotOf X format)"

definition Screen :: "'m exports \<Rightarrow> ('m bench, string) go" where
  "Screen X = gbind (testSnapshot X DumpPlain) (\<lambda>dump. gret (string_of_bytes (dump_Data dump)))"

definition ScreenVT :: "'m exports \<Rightarrow> ('m bench, byte list) go" where
  "ScreenVT X = gbind (testSnapshot X DumpVTFull) (\<lambda>dump. gret (dump_Data dump))"

definition rowLine :: "screenDump \<Rightarrow> int \<Rightarrow> string option" where
  "rowLine dump row =
     (let lines = splitOn (CHR 0x0A) (string_of_bytes (dump_Data dump))
      in if row < 0 \<or> row \<ge> int (length lines) then None else Some (lines ! nat row))"

definition stringsContains :: "string \<Rightarrow> string \<Rightarrow> bool" where
  "stringsContains s sub \<longleftrightarrow> indexSub s sub \<noteq> None"

definition rowContainsDump :: "screenDump \<Rightarrow> int \<Rightarrow> string \<Rightarrow> bool" where
  "rowContainsDump dump row sub = (case rowLine dump row of None \<Rightarrow> False | Some line \<Rightarrow> stringsContains line sub)"

definition trimRightCR :: "string \<Rightarrow> string" where
  "trimRightCR s = rev (dropWhile (\<lambda>c. c = CHR 0x0D) (rev s))"

definition promptOnRowMatch :: "screenDump \<Rightarrow> int \<Rightarrow> (string \<Rightarrow> bool) \<Rightarrow> bool" where
  "promptOnRowMatch dump row match = (case rowLine dump row of None \<Rightarrow> False | Some line \<Rightarrow> match (trimRightCR line))"

text \<open>The pattern \<open>[#$>] ?$\<close>: a prompt character at the end of the text, maybe followed by one space.\<close>

definition promptRE :: "string \<Rightarrow> bool" where
  "promptRE s =
     (let isPrompt = (\<lambda>c. c = CHR ''#'' \<or> c = CHR ''$'' \<or> c = CHR ''>'')
      in case rev s of
           [] \<Rightarrow> False
         | c # cs \<Rightarrow> isPrompt c \<or> c = CHR '' '' \<and> (case cs of [] \<Rightarrow> False | c # _ \<Rightarrow> isPrompt c))"

definition promptVisible :: "(string \<Rightarrow> bool) \<Rightarrow> screenDump \<Rightarrow> bool" where
  "promptVisible match dump =
     (let row = uint (dump_CursorRow dump) in promptOnRowMatch dump row match \<or> promptOnRowMatch dump (row - 1) match)"

definition RowContains :: "'m exports \<Rightarrow> int \<Rightarrow> string \<Rightarrow> ('m bench, bool) go" where
  "RowContains X row sub = gbind (testSnapshot X DumpPlain) (\<lambda>dump. gret (rowContainsDump dump row sub))"

definition CursorRowContains :: "'m exports \<Rightarrow> string \<Rightarrow> ('m bench, bool) go" where
  "CursorRowContains X sub =
     gbind (testSnapshot X DumpPlain) (\<lambda>dump. gret (rowContainsDump dump (uint (dump_CursorRow dump)) sub))"

definition PromptVisibleMatch :: "'m exports \<Rightarrow> (string \<Rightarrow> bool) \<Rightarrow> ('m bench, bool) go" where
  "PromptVisibleMatch X match = gbind (testSnapshot X DumpPlain) (\<lambda>dump. gret (promptVisible match dump))"

definition PromptVisible :: "'m exports \<Rightarrow> ('m bench, bool) go" where
  "PromptVisible X = PromptVisibleMatch X promptRE"

section \<open>Waiting\<close>

text \<open>\<open>time.Duration.String\<close>: units from nanoseconds to hours, fractions without trailing zeros.\<close>

definition fracText :: "nat \<Rightarrow> nat \<Rightarrow> string" where
  "fracText n prec =
     (let s = string_of_nat n; digits = rev (dropWhile (\<lambda>c. c = CHR ''0'') (rev (replicate (prec - length s) (CHR ''0'') @ s)))
      in if digits = [] then [] else CHR ''.'' # digits)"

definition durationString :: "int \<Rightarrow> string" where
  "durationString d =
     (let u = nat \<bar>d\<bar>
      in (if d < 0 then ''-'' else []) @
         (if u = 0 then ''0s''
          else if u < 10 ^ 3 then string_of_nat u @ ''ns''
          else if u < 10 ^ 6 then string_of_nat (u div 10 ^ 3) @ fracText (u mod 10 ^ 3) 3 @ [CHR 0xC2, CHR 0xB5, CHR ''s'']
          else if u < 10 ^ 9 then string_of_nat (u div 10 ^ 6) @ fracText (u mod 10 ^ 6) 6 @ ''ms''
          else let secs = u div 10 ^ 9; mins = secs div 60
               in (if mins > 0
                   then (if mins div 60 > 0 then string_of_nat (mins div 60) @ ''h'' else []) @ string_of_nat (mins mod 60) @ ''m''
                   else []) @ string_of_nat (secs mod 60) @ fracText (u mod 10 ^ 9) 9 @ ''s''))"

record waitOptions =
  wo_timeout :: int
  wo_interval :: int

type_synonym waitOption = "waitOptions \<Rightarrow> waitOptions"

definition WaitTimeout :: "int \<Rightarrow> waitOption" where
  "WaitTimeout d wo = wo\<lparr>wo_timeout := d\<rparr>"
definition WaitInterval :: "int \<Rightarrow> waitOption" where
  "WaitInterval d wo = wo\<lparr>wo_interval := d\<rparr>"

definition waitOptionsOf :: "'m bench \<Rightarrow> waitOption list \<Rightarrow> waitOptions" where
  "waitOptionsOf bn options = fold (\<lambda>fn wo. fn wo) options \<lparr>wo_timeout = op_timeout (bn_opts bn), wo_interval = 50 * 10 ^ 6\<rparr>"

text \<open>
  What happens while a wait is in its select: the reader feeds output to the emulator, the ticker fires
  (with the clock at that moment), the deadline passes. The script is in the order in which the select
  takes them, so a tick and a deadline that are due together come in either order.
\<close>

datatype waitEvent = WRead "byte list" | WTick int | WDeadline

text \<open>
  The loop that four of the waits share: success is \<open>True\<close>; \<open>False\<close> is a wait that still goes on when the
  script is over.
\<close>

fun waitScreen :: "'m exports \<Rightarrow> (screenDump \<Rightarrow> bool) \<Rightarrow> (string \<Rightarrow> gerror) \<Rightarrow> waitEvent list \<Rightarrow> string \<Rightarrow> ('m bench, bool) go" where
  "waitScreen X match timedOut [] shown = gret False"
| "waitScreen X match timedOut (WRead data # evs) shown =
     gbind (onTerm (\<lambda>t. VTWrite X t data)) (\<lambda>_. waitScreen X match timedOut evs shown)"
| "waitScreen X match timedOut (WDeadline # evs) shown = gfail (timedOut shown)"
| "waitScreen X match timedOut (WTick now # evs) shown =
     gbind (testSnapshot X DumpPlain) (\<lambda>dump.
       if match dump then gret True else waitScreen X match timedOut evs (string_of_bytes (dump_Data dump)))"

definition timedOutAfter :: "string \<Rightarrow> int \<Rightarrow> string \<Rightarrow> gerror" where
  "timedOutAfter what timeout shown =
     Errorf (''termtest: '' @ what @ '' timed out after '' @ durationString timeout @ [CHR 0x0A] @ ''last screen:'' @ [CHR 0x0A] @ shown)"

definition WaitFor :: "'m exports \<Rightarrow> string \<Rightarrow> waitOption list \<Rightarrow> waitEvent list \<Rightarrow> ('m bench, bool) go" where
  "WaitFor X sub options evs bn =
     waitScreen X (\<lambda>dump. stringsContains (string_of_bytes (dump_Data dump)) sub)
       (timedOutAfter (''WaitFor('' @ quoted sub @ '')'') (wo_timeout (waitOptionsOf bn options))) evs [] bn"

definition WaitRowContains :: "'m exports \<Rightarrow> int \<Rightarrow> string \<Rightarrow> waitOption list \<Rightarrow> waitEvent list \<Rightarrow> ('m bench, bool) go" where
  "WaitRowContains X row sub options evs bn =
     waitScreen X (\<lambda>dump. rowContainsDump dump row sub)
       (timedOutAfter (''WaitRowContains(row='' @ string_of_int row @ '', '' @ quoted sub @ '')'')
         (wo_timeout (waitOptionsOf bn options))) evs [] bn"

definition WaitCursorRowContains :: "'m exports \<Rightarrow> string \<Rightarrow> waitOption list \<Rightarrow> waitEvent list \<Rightarrow> ('m bench, bool) go" where
  "WaitCursorRowContains X sub options evs bn =
     waitScreen X (\<lambda>dump. rowContainsDump dump (uint (dump_CursorRow dump)) sub)
       (timedOutAfter (''WaitCursorRowContains('' @ quoted sub @ '')'') (wo_timeout (waitOptionsOf bn options))) evs [] bn"

definition WaitPromptMatch :: "'m exports \<Rightarrow> (string \<Rightarrow> bool) \<Rightarrow> waitOption list \<Rightarrow> waitEvent list \<Rightarrow> ('m bench, bool) go" where
  "WaitPromptMatch X match options evs bn =
     waitScreen X (promptVisible match) (timedOutAfter ''WaitPromptMatch'' (wo_timeout (waitOptionsOf bn options))) evs [] bn"

definition WaitPrompt :: "'m exports \<Rightarrow> waitOption list \<Rightarrow> waitEvent list \<Rightarrow> ('m bench, bool) go" where
  "WaitPrompt X = WaitPromptMatch X promptRE"

text \<open>\<open>sameSince\<close> is Go's zero time until the screen has differed from \<open>last\<close> for the first time.\<close>

fun stableLoop :: "'m exports \<Rightarrow> int \<Rightarrow> (string \<Rightarrow> gerror) \<Rightarrow> waitEvent list \<Rightarrow> string \<Rightarrow> int option \<Rightarrow> ('m bench, bool) go" where
  "stableLoop X stableFor timedOut [] shown sameSince = gret False"
| "stableLoop X stableFor timedOut (WRead data # evs) shown sameSince =
     gbind (onTerm (\<lambda>t. VTWrite X t data)) (\<lambda>_. stableLoop X stableFor timedOut evs shown sameSince)"
| "stableLoop X stableFor timedOut (WDeadline # evs) shown sameSince = gfail (timedOut shown)"
| "stableLoop X stableFor timedOut (WTick now # evs) shown sameSince =
     gbind (testSnapshot X DumpPlain) (\<lambda>dump.
       let cur = string_of_bytes (dump_Data dump)
       in if cur \<noteq> shown then stableLoop X stableFor timedOut evs cur (Some now)
          else if (case sameSince of None \<Rightarrow> False | Some since \<Rightarrow> now - since \<ge> stableFor) then gret True
          else stableLoop X stableFor timedOut evs shown sameSince)"

definition WaitStable :: "'m exports \<Rightarrow> int \<Rightarrow> waitOption list \<Rightarrow> waitEvent list \<Rightarrow> ('m bench, bool) go" where
  "WaitStable X stableFor options evs bn =
     stableLoop X stableFor
       (timedOutAfter (''WaitStable('' @ durationString stableFor @ '')'') (wo_timeout (waitOptionsOf bn options))) evs [] None bn"

section \<open>The harness and the daemon see the same screen\<close>

text \<open>Two functions that do the same, except that an error of the first has one more context.\<close>

fun inContext :: "'a goRes \<Rightarrow> 'a goRes \<Rightarrow> bool" where
  "inContext (Ret a) r \<longleftrightarrow> r = Ret a"
| "inContext (Err e) r \<longleftrightarrow> (\<exists>ctx. r = Err (Wrap ctx e))"
| "inContext (Panics e) r \<longleftrightarrow> r = Panics e"

definition contextOnly :: "('s, 'a) go \<Rightarrow> ('s, 'a) go \<Rightarrow> bool" where
  "contextOnly f g \<longleftrightarrow> (\<forall>s. snd (f s) = snd (g s) \<and> inContext (fst (g s)) (fst (f s)))"

lemma contextOnly_ret: "contextOnly (gret a) (gret a)"
  by (simp add: contextOnly_def gret_def)

lemma contextOnly_wrap: "contextOnly (gwrap ctx f) f"
  by (auto simp: contextOnly_def gwrap_def split: prod.split goRes.split)

lemma contextOnly_bind:
  assumes "contextOnly f g" and "\<And>a. contextOnly (k a) (l a)"
  shows "contextOnly (gbind f k) (gbind g l)"
  unfolding contextOnly_def
proof
  fix s
  obtain r t where g: "g s = (r, t)" by fastforce
  obtain q where f: "f s = (q, t)" "inContext r q"
    using assms(1) g unfolding contextOnly_def by (metis fst_conv prod.collapse snd_conv)
  then show "snd (gbind f k s) = snd (gbind g l s) \<and> inContext (fst (gbind g l s)) (fst (gbind f k s))"
    using g assms(2) unfolding contextOnly_def gbind_def by (cases r) auto
qed

lemma contextOnly_defer: "contextOnly f g \<Longrightarrow> contextOnly (gdefer c f) (gdefer c g)"
  unfolding contextOnly_def gdefer_def by (simp add: split_beta)

lemmas contextOnly_rules = contextOnly_ret contextOnly_wrap contextOnly_bind contextOnly_defer

definition daemonFormat :: "dumpFormat \<Rightarrow> terminalFormat" where
  "daemonFormat format = (case format of DumpPlain \<Rightarrow> terminalDumpFormat 0 | DumpVTFull \<Rightarrow> terminalFormatVTFull)"

lemma testOptions_same: "formatterOptsOf (testOptions format sel) = formatterOptsOf (dumpOptions (daemonFormat format) sel)"
  by (cases format; cases sel)
    (simp_all add: formatterOptsOf_def testOptions_def dumpOptions_def daemonFormat_def terminalDumpFormat_def terminalFormatVTFull_def
      FormatterFormatPlain_def FormatterFormatVT_def FormatterFormatHTML_def DumpVT_def DumpHTML_def WithFormatterFormat_def
      WithFormatterUnwrap_def WithFormatterTrim_def WithFormatterSelection_def WithFormatterExtraModes_def
      WithFormatterExtraScrollingRegion_def WithFormatterExtraPwd_def WithFormatterExtraKeyboard_def WithFormatterExtraCursor_def
      WithFormatterExtraStyle_def WithFormatterExtraHyperlink_def WithFormatterExtraProtection_def
      WithFormatterExtraKittyKeyboard_def WithFormatterExtraCharsets_def)

lemma daemonFormat_simps:
  "tf_safe (daemonFormat format) = False"
  "(\<not> tf_full (daemonFormat format) \<and> \<not> tf_scrollback (daemonFormat format)) = (format = DumpPlain)"
  by (cases format; simp add: daemonFormat_def terminalDumpFormat_def terminalFormatVTFull_def DumpVT_def DumpHTML_def Let_def)+

lemma NewFormatter_same:
  "formatterOptsOf a = formatterOptsOf b \<Longrightarrow> NewFormatter X t a = NewFormatter X t b"
  by (simp add: NewFormatter_def)

lemma snapshot_is_dump: "contextOnly (snapshotOf X format (ts_term t)) (dumpScreen X t (daemonFormat format))"
proof -
  have sel: "contextOnly (testSelection X (ts_term t)) (activeSelection X (ts_term t))"
    unfolding testSelection_def activeSelection_def by (intro contextOnly_rules)
  show ?thesis
    unfolding snapshotOf_def dumpScreen_def daemonFormat_simps
    by (cases format) (simp_all, (intro contextOnly_rules sel | simp add: NewFormatter_same [OF testOptions_same] contextOnly_wrap)+)
qed

section \<open>A test's life\<close>

text \<open>What a test does between \<open>New\<close> and its end; after a fatal error or a panic there is no next call.\<close>

datatype benchCall =
    BType string
  | BKey int u16
  | BScreen
  | BScreenVT
  | BResize u32 u32
  | BRow int string
  | BCursorRow string
  | BPrompt
  | BOutput "(byte list \<times> bool) list"
  | BWaitFor string "waitOption list" "waitEvent list"
  | BWaitRow int string "waitOption list" "waitEvent list"
  | BWaitCursorRow string "waitOption list" "waitEvent list"
  | BWaitPrompt "waitOption list" "waitEvent list"
  | BWaitStable int "waitOption list" "waitEvent list"

fun runBench :: "'m exports \<Rightarrow> benchCall \<Rightarrow> ('m bench, unit) go" where
  "runBench X (BType s) = Type s"
| "runBench X (BKey key mods) = Key X key mods"
| "runBench X BScreen = discard (Screen X)"
| "runBench X BScreenVT = discard (ScreenVT X)"
| "runBench X (BResize c r) = testResize X c r"
| "runBench X (BRow row sub) = discard (RowContains X row sub)"
| "runBench X (BCursorRow sub) = discard (CursorRowContains X sub)"
| "runBench X BPrompt = discard (PromptVisible X)"
| "runBench X (BOutput reads) = readLoop X reads"
| "runBench X (BWaitFor sub os evs) = discard (WaitFor X sub os evs)"
| "runBench X (BWaitRow row sub os evs) = discard (WaitRowContains X row sub os evs)"
| "runBench X (BWaitCursorRow sub os evs) = discard (WaitCursorRowContains X sub os evs)"
| "runBench X (BWaitPrompt os evs) = discard (WaitPrompt X os evs)"
| "runBench X (BWaitStable d os evs) = discard (WaitStable X d os evs)"

fun runBenches :: "'m exports \<Rightarrow> benchCall list \<Rightarrow> ('m bench, unit) go" where
  "runBenches X [] = gret ()"
| "runBenches X (c # cs) = gbind (runBench X c) (\<lambda>_. runBenches X cs)"

text \<open>The objects stay those of the struct, whatever a call does.\<close>

definition owned :: "resource multiset \<Rightarrow> 'm bench \<Rightarrow> bool" where
  "owned F bn \<longleftrightarrow> ok_ts (bn_ts bn) \<and> \<not> rt_bad (bn_rt bn) \<and> rt_live (bn_rt bn) = own_ts (bn_ts bn) + F"

definition holding :: "('m bench, 'a) go \<Rightarrow> bool" where
  "holding f \<longleftrightarrow> (\<forall>F bn r bn'. f bn = (r, bn') \<longrightarrow> owned F bn \<longrightarrow> ranged r \<or> owned F bn')"

named_theorems holding_rules \<open>operations of the harness that keep its objects\<close>

lemma holding_ret [holding_rules]: "holding (gret a)" and holding_fail [holding_rules]: "holding (gfail e)"
  by (auto simp: holding_def gret_def gfail_def)

lemma holding_bind [holding_rules]:
  assumes "holding f" and "\<And>a. holding (k a)"
  shows "holding (gbind f k)"
  unfolding holding_def
proof (intro allI impI)
  fix F bn r bn' assume run: "gbind f k bn = (r, bn')" and o: "owned F bn"
  obtain q b1 where q: "f bn = (q, b1)" by fastforce
  with assms(1) o have "ranged q \<or> owned F b1" unfolding holding_def by blast
  with run q assms(2) show "ranged r \<or> owned F bn'"
    unfolding holding_def by (cases q) (auto simp: gbind_def)
qed

lemma holding_wrap [holding_rules]: "holding f \<Longrightarrow> holding (gwrap ctx f)"
  unfolding holding_def gwrap_def by (fastforce split: prod.splits goRes.splits)

lemma holding_if [holding_rules]: "(b \<Longrightarrow> holding f) \<Longrightarrow> (\<not> b \<Longrightarrow> holding g) \<Longrightarrow> holding (if b then f else g)"
  by simp

lemma holding_discard [holding_rules]: "holding f \<Longrightarrow> holding (discard f)"
  unfolding discard_def by (intro holding_rules)

lemma holding_onTs:
  assumes "\<And>t. onStruct t (own_ts t) f own_ts (\<lambda>_. own_ts)" and "okKeeping f"
  shows "holding (onTs f)"
  unfolding holding_def
proof (intro allI impI)
  fix F bn r bn' assume run: "onTs f bn = (r, bn')" and o: "owned F bn"
  obtain t rt where f: "f (bn_ts bn, bn_rt bn) = (r, (t, rt))" and bn': "bn' = bn\<lparr>bn_ts := t, bn_rt := rt\<rparr>"
    using run by (auto simp: onTs_def split: prod.splits)
  have "ok_ts t" using assms(2) f o unfolding okKeeping_def owned_def by blast
  with assms(1) [of "bn_ts bn"] f o bn' show "ranged r \<or> owned F bn'"
    unfolding onStruct_def owned_def by (cases r) (fastforce+)
qed

lemma holding_onTerm: "(\<And>t. rtl.keeps (f t)) \<Longrightarrow> holding (onTerm f)"
  unfolding onTerm_def
  by (rule holding_onTs) (auto intro!: method_get method_onRt rtl.keeps_takes okKeeping_bind okKeeping_basic)

lemma holding_pty [holding_rules]: "holding (ptyWrite d)" "holding (ptySetsize sz)"
  by (auto simp: holding_def ptyWrite_def ptySetsize_def owned_def split: list.splits option.splits)

lemma keeps_testSelection [uses_rules]: "rtl.keeps (testSelection X term)"
  unfolding testSelection_def by (intro uses_rules)

lemma keeps_snapshotOf [uses_rules]: "rtl.keeps (snapshotOf X format term)"
proof -
  have "rtl.takes (own_formatter f) (gdefer (onLocal f (closeFormatter X)) body) (\<lambda>_. {#}) {#}" if "rtl.keeps body" for f and body :: "('a wasmRuntime, screenDump) go"
    by (rule rtl.takes_defer [OF _ frees_closeFormatter]) (simp add: rtl.keeps_takes that)
  then have shown: "rtl.keeps (gbind (gwrap c (NewFormatter X tm opts)) (\<lambda>f. gdefer (onLocal f (closeFormatter X)) (body f)))" if "\<And>f. rtl.keeps (body f)"
    for c tm opts and body :: "formatter \<Rightarrow> ('a wasmRuntime, screenDump) go"
    using that unfolding rtl.keeps_def [of "gbind _ _"] by (intro rtl.takes_bind [OF rtl.takes_wrap [OF takes_NewFormatter]]) blast
  show ?thesis unfolding snapshotOf_def
    by (rule rtl.keeps_bind, intro uses_rules) (rule shown, intro uses_rules)
qed

lemma holding_screen [holding_rules]: "holding (onTerm (\<lambda>t. VTWrite X t d))" "holding (testSnapshot X format)"
    "holding (onTerm (\<lambda>t. terminalResize X t c r a b))"
  unfolding testSnapshot_def by (auto intro!: holding_onTerm uses_rules simp: terminalResize_def)

lemma holding_readLoop [holding_rules]: "holding (readLoop X reads)"
  by (induction reads rule: readLoop.induct) (auto intro!: holding_rules)

lemma holding_waits [holding_rules]: "holding (waitScreen X match timedOut evs screen)" "holding (stableLoop X d timedOut evs screen since)"
proof -
  show "holding (waitScreen X match timedOut evs screen)"
    by (induction X match timedOut evs screen rule: waitScreen.induct) (auto intro!: holding_rules)
  show "holding (stableLoop X d timedOut evs screen since)"
    by (induction X d timedOut evs screen since rule: stableLoop.induct) (auto simp: Let_def intro!: holding_rules)
qed

lemma holding_encode: "holding (onTs (encodeTestKey X key mods))"
proof (rule holding_onTs)
  have last: "onStruct t (own_ts t) (gbind getObj (\<lambda>t. onRt (gbind (SetOptFromTerminal X (ts_keyEncoder t) (ts_term t)) (\<lambda>_.
      gwrap c (Encode X (ts_keyEncoder t) (ts_keyEvent t)))))) own_ts (\<lambda>_. own_ts)" for t c
    by (intro method_get method_onRt rtl.keeps_takes uses_rules)
  show "onStruct t (own_ts t) (encodeTestKey X key mods) own_ts (\<lambda>_. own_ts)" for t
    unfolding encodeTestKey_def
    by (intro method_bind_method [where G = own_ts] method_event method_setters method_SetUTF8 last)
  show "okKeeping (encodeTestKey X key mods)"
    unfolding encodeTestKey_def SetAction_def SetKey_def SetMods_def SetConsumedMods_def SetComposing_def SetUnshiftedCodepoint_def
    by (intro okKeeping_bind okKeeping_basic okKeeping_event)
qed

lemma holding_keys [holding_rules]: "holding (Type s)" "holding (Key X key mods)" "holding (testResize X c r)"
  unfolding Type_def Key_def testResize_def by (intro holding_rules holding_encode)+

lemma holding_looks [holding_rules]: "holding (Screen X)" "holding (ScreenVT X)" "holding (RowContains X row sub)"
    "holding (CursorRowContains X sub)" "holding (PromptVisible X)"
  unfolding Screen_def ScreenVT_def RowContains_def CursorRowContains_def PromptVisible_def PromptVisibleMatch_def
  by (intro holding_rules)+

lemma holding_waitings [holding_rules]: "holding (WaitFor X sub os evs)" "holding (WaitRowContains X row sub os evs)"
    "holding (WaitCursorRowContains X sub os evs)" "holding (WaitPrompt X os evs)" "holding (WaitStable X d os evs)"
proof -
  have run: "holding (f :: ('a bench, bool) go)" if "\<And>bn. f bn = g bn bn" "\<And>bn. holding (g bn)" for f g
    using that unfolding holding_def by metis
  show "holding (WaitFor X sub os evs)" by (rule run [OF WaitFor_def]) (rule holding_waits)
  show "holding (WaitRowContains X row sub os evs)" by (rule run [OF WaitRowContains_def]) (rule holding_waits)
  show "holding (WaitCursorRowContains X sub os evs)" by (rule run [OF WaitCursorRowContains_def]) (rule holding_waits)
  show "holding (WaitPrompt X os evs)" unfolding WaitPrompt_def by (rule run [OF WaitPromptMatch_def]) (rule holding_waits)
  show "holding (WaitStable X d os evs)" by (rule run [OF WaitStable_def]) (rule holding_waits)
qed

lemma holding_runBench: "holding (runBench X c)"
  by (cases c) (simp_all, (intro holding_rules)+)

lemma holding_runBenches: "holding (runBenches X cs)"
  by (induction cs) (auto intro!: holding_rules holding_runBench)

lemma readLoop_child: "readLoop X reads bn = (r, bn') \<Longrightarrow> bn_child bn' = bn_child bn"
proof (induction reads arbitrary: bn)
  case (Cons x reads)
  have fr: "bn_child (snd (onTerm f b)) = bn_child b" for f :: "terminal \<Rightarrow> ('a wasmRuntime, unit) go" and b :: "'a bench"
    by (simp add: onTerm_def onTs_def split_beta)
  obtain d e where x: "x = (d, e)" by fastforce
  obtain q b1 where q: "(if d \<noteq> [] then onTerm (\<lambda>t. VTWrite X t d) else gret ()) bn = (q, b1)" by fastforce
  then have b1: "bn_child b1 = bn_child bn" using fr [of "\<lambda>t. VTWrite X t d" bn] by (auto simp: gret_def split: if_splits)
  from Cons.prems x q have "(case q of Ret _ \<Rightarrow> (if e then gret () else readLoop X reads) b1 | Err er \<Rightarrow> (Err er, b1) | Panics er \<Rightarrow> (Panics er, b1)) = (r, bn')"
    by (simp add: gbind_def)
  with Cons.IH [of b1] b1 show ?case by (cases q) (auto simp: gret_def split: if_splits)
qed (simp add: gret_def)

lemma closeObjects_frees:
  assumes "owned F bn"
  shows "\<not> rt_bad (bn_rt (snd (closeObjects X bn))) \<and> rt_live (bn_rt (snd (closeObjects X bn))) = F"
  using assms tsClose_frees [of "bn_rt bn" "bn_ts bn" F X] by (auto simp: owned_def closeObjects_def onTs_def split_beta)

lemma takes_newObjects: "rtl.takes {#} (newObjects X opts) own_ts {#}"
proof -
  have close: "rtl.frees (own_encoder enc + own_terminal tm) (gbind (onLocal enc (closeKeyEncoder X)) (\<lambda>_. onLocal tm (closeLocked X)))" for enc tm
    by (rule frees_bind [OF frees_closeKeyEncoder total_closeKeyEncoder frees_closeLocked])
  have enc: "rtl.takes (own_terminal tm) (gonerr (NewKeyEncoder X) (onLocal tm (closeLocked X))) (\<lambda>enc. own_encoder enc + own_terminal tm) {#}" for tm
    using rtl.takes_frame [OF takes_NewKeyEncoder, of "own_terminal tm" X]
    by (intro rtl.takes_onerr [OF _ frees_closeLocked]) (simp, intro calm_rules)
  have event: "rtl.takes (own_encoder enc + own_terminal tm) (gonerr (NewKeyEvent X)
      (gbind (onLocal enc (closeKeyEncoder X)) (\<lambda>_. onLocal tm (closeLocked X)))) (\<lambda>ev. own_event ev + (own_encoder enc + own_terminal tm)) {#}" for enc tm
    using rtl.takes_frame [OF takes_NewKeyEvent, of "own_encoder enc + own_terminal tm" X]
    by (intro rtl.takes_onerr [OF _ close]) (simp, intro calm_rules)
  show ?thesis unfolding newObjects_def
    by (rule rtl.takes_bind [OF rtl.takes_wrap [OF takes_NewTerminal]], rule rtl.takes_bind [OF rtl.takes_wrap [OF enc]],
        rule rtl.takes_bind [OF rtl.takes_wrap [OF event]]) (simp add: rtl.takes_ret own_ts_def)
qed

lemma newObjects_ok: "newObjects X opts s = (Ret t, s') \<Longrightarrow> ok_ts t"
  by (auto simp: newObjects_def gbind_def gwrap_def gonerr_def gret_def ok_ts_def dest: NewKeyEvent_nonnull split: prod.splits goRes.splits)

lemma newObjects_owned:
  assumes "newObjects X opts s = (r, s')" and "\<not> rt_bad s" and "\<not> ranged r"
  shows "\<not> rt_bad s' \<and> (case r of Ret t \<Rightarrow> rt_live s' = own_ts t + rt_live s \<and> ok_ts t | _ \<Rightarrow> rt_live s' = rt_live s)"
  using rtl.usesD [OF takes_newObjects [unfolded rtl.takes_def] assms(1,2) _ assms(3), of "rt_live s"] newObjects_ok assms(1)
  by (cases r) auto

lemma testNew_owned:
  assumes "testNew X stat start command options bn = (r, bn')" and "\<not> rt_bad (bn_rt bn)" and "\<not> ranged r" and "command \<noteq> []"
  shows "case r of Ret _ \<Rightarrow> owned (rt_live (bn_rt bn)) bn' \<and> bn_open bn' \<and> bn_child bn' = ChildRunning
    | _ \<Rightarrow> \<not> rt_bad (bn_rt bn') \<and> rt_live (bn_rt bn') = rt_live (bn_rt bn) \<and> bn_open bn' = bn_open bn \<and> bn_child bn' = bn_child bn"
proof -
  let ?opts = "benchOptionsOf options"
  obtain q rt where q: "newObjects X ?opts (bn_rt bn) = (q, rt)" by fastforce
  obtain name rest where cmd: "command = name # rest" using assms(4) by (cases command) auto
  have nr: "\<not> ranged q" using assms(1,3) q cmd by (auto simp: testNew_def Let_def split: goRes.splits)
  note new = newObjects_owned [OF q assms(2) nr]
  show ?thesis
  proof (cases q)
    case (Ret ts)
    let ?bn = "bn\<lparr>bn_ts := ts, bn_rt := rt\<rparr>"
    have o: "owned (rt_live (bn_rt bn)) ?bn" using new Ret by (simp add: owned_def)
    have frame: "bn_open (snd (closeObjects X b)) = bn_open b" "bn_child (snd (closeObjects X b)) = bn_child b" for b :: "'a bench"
      by (simp_all add: closeObjects_def onTs_def split_beta)
    from assms(1) q Ret cmd o closeObjects_frees [OF o, of X] frame [of ?bn] show ?thesis
      by (auto simp: testNew_def Let_def owned_def split: sum.splits option.splits)
  qed (use assms(1) q new in \<open>auto simp: testNew_def Let_def\<close>)
qed

text \<open>
  A test leaves nothing behind. If \<open>New\<close> fails, every object it had created is closed and no program was
  started. If it succeeds, whatever the test does and however it ends, its clean-up leaves no object of
  the emulator, nothing closed twice, the PTY closed and the program reaped.
\<close>

theorem test_leaves_nothing:
  assumes "testNew X stat start command options bn = (r, bn1)" and "command \<noteq> []" and "\<not> rt_bad (bn_rt bn)" and "\<not> bn_open bn"
    and "\<not> ranged r"
    and "is_Ret r \<Longrightarrow> runBenches X calls bn1 = (q, bn2) \<and> \<not> ranged q \<and> cleanup X rest bn2 = (Ret (), bn3)"
  shows "(\<not> is_Ret r \<longrightarrow> \<not> rt_bad (bn_rt bn1) \<and> rt_live (bn_rt bn1) = rt_live (bn_rt bn) \<and> \<not> bn_open bn1 \<and> bn_child bn1 = bn_child bn)
    \<and> (is_Ret r \<longrightarrow> \<not> rt_bad (bn_rt bn3) \<and> rt_live (bn_rt bn3) = rt_live (bn_rt bn) \<and> \<not> bn_open bn3 \<and> bn_child bn3 = ChildReaped)"
proof (cases "is_Ret r")
  case False
  with testNew_owned [OF assms(1,3,5,2)] assms(4) show ?thesis by (cases r) auto
next
  case True
  then have o: "owned (rt_live (bn_rt bn)) bn1" using testNew_owned [OF assms(1,3,5,2)] by (cases r) auto
  note run = assms(6) [OF True]
  have "owned (rt_live (bn_rt bn)) bn2" using holding_runBenches [of X calls] run o unfolding holding_def by blast
  then have o2: "owned (rt_live (bn_rt bn)) (bn2\<lparr>bn_child := ChildReaped\<rparr>)" by (simp add: owned_def)
  obtain u b where rd: "readLoop X rest (bn2\<lparr>bn_child := ChildReaped\<rparr>) = (u, b)" by fastforce
  have u: "u = Ret ()" "bn3 = snd (closeObjects X (b\<lparr>bn_open := False\<rparr>))"
    using run rd by (auto simp: cleanup_def gbind_def split: goRes.splits)
  have child: "bn_child b = ChildReaped"
    using readLoop_child [OF rd] by simp
  have "owned (rt_live (bn_rt bn)) b" using holding_readLoop [of X rest] rd o2 u(1) unfolding holding_def by fastforce
  then have "owned (rt_live (bn_rt bn)) (b\<lparr>bn_open := False\<rparr>)" by (simp add: owned_def)
  from closeObjects_frees [OF this, of X] u(2) child True show ?thesis
    by (simp add: closeObjects_def onTs_def split_beta)
qed

section \<open>What a test can rely on\<close>

text \<open>
  The program that runs is the first regular file of that name along the first \<open>PATH\<close> of the environment
  given to the test; the \<open>PATH\<close> of the process that runs the tests plays no part.
\<close>

lemma lookPathIn_first:
  assumes "lookPathIn stat name env = Inr p" and "CHR ''/'' \<notin> set name"
  shows "\<exists>before dir after. splitOn (CHR '':'') (pathIn env) = before @ dir # after \<and> p = dir @ ''/'' @ name
    \<and> stat p = Some False \<and> (\<forall>d \<in> set before. stat (d @ ''/'' @ name) \<noteq> Some False)"
proof -
  let ?dirs = "splitOn (CHR '':'') (pathIn env)" and ?cand = "\<lambda>dir. dir @ ''/'' @ name"
  have "find (\<lambda>p. stat p = Some False) (map ?cand ?dirs) = Some p"
    using assms by (auto simp: lookPathIn_def Let_def split: if_splits option.splits)
  then obtain i where i: "i < length ?dirs" "stat (?cand (?dirs ! i)) = Some False" "p = ?cand (?dirs ! i)"
      "\<forall>j < i. stat (?cand (?dirs ! j)) \<noteq> Some False"
    unfolding find_Some_iff by auto
  then have "?dirs = take i ?dirs @ ?dirs ! i # drop (Suc i) ?dirs" by (simp add: id_take_nth_drop)
  moreover have "\<forall>d \<in> set (take i ?dirs). stat (?cand d) \<noteq> Some False" using i(1,4) by (auto simp: in_set_conv_nth)
  ultimately show ?thesis using i(2,3) by metis
qed

text \<open>A wait that returns does so at a tick before the deadline, on a screen that satisfies its condition.\<close>

theorem wait_returns_on_match:
  assumes "waitScreen X match timedOut evs screen bn = (Ret True, bn')"
  shows "\<exists>pre now post dump bn1. evs = pre @ WTick now # post \<and> WDeadline \<notin> set pre
    \<and> testSnapshot X DumpPlain bn1 = (Ret dump, bn') \<and> match dump"
  using assms
proof (induction X match timedOut evs screen arbitrary: bn rule: waitScreen.induct)
  case (2 X match timedOut data evs screen)
  obtain u b where u: "onTerm (\<lambda>t. VTWrite X t data) bn = (u, b)" by fastforce
  with "2.prems" obtain a where "u = Ret a" and "waitScreen X match timedOut evs screen b = (Ret True, bn')"
    by (cases u) (auto simp: gbind_def)
  from "2.IH" [OF this(2)] obtain pre now post dump bn1 where "evs = pre @ WTick now # post" "WDeadline \<notin> set pre"
      "testSnapshot X DumpPlain bn1 = (Ret dump, bn')" "match dump" by blast
  then show ?case by (intro exI [of _ "WRead data # pre"]) auto
next
  case (4 X match timedOut now evs screen)
  obtain u b where u: "testSnapshot X DumpPlain bn = (u, b)" by fastforce
  with "4.prems" obtain dump where d: "u = Ret dump" by (cases u) (auto simp: gbind_def)
  show ?case
  proof (cases "match dump")
    case True
    with "4.prems" u d have "b = bn'" by (simp add: gbind_def gret_def)
    with True u d show ?thesis by (intro exI [of _ "[]"] exI [of _ now] exI [of _ evs]) auto
  next
    case False
    with "4.prems" u d have "waitScreen X match timedOut evs (string_of_bytes (dump_Data dump)) b = (Ret True, bn')" by (simp add: gbind_def)
    from "4.IH" [OF False this] obtain pre now' post dump' bn1 where "evs = pre @ WTick now' # post" "WDeadline \<notin> set pre"
        "testSnapshot X DumpPlain bn1 = (Ret dump', bn')" "match dump'" by blast
    then show ?thesis by (intro exI [of _ "WTick now # pre"]) auto
  qed
qed (auto simp: gret_def gfail_def)

text \<open>
  \<open>WaitStable\<close> takes the screen to have been empty before the first tick, and starts its clock only when
  the screen changes: on a screen that stays blank it never returns, however long the screen is stable.
\<close>

theorem stable_blank_never_returns:
  assumes "\<And>bn dump bn'. testSnapshot X DumpPlain bn = (Ret dump, bn') \<Longrightarrow> dump_Data dump = []"
  shows "fst (WaitStable X stableFor options evs bn) \<noteq> Ret True"
proof -
  have "fst (stableLoop X stableFor timedOut evs [] None bn) \<noteq> Ret True" for timedOut evs bn
  proof (induction evs arbitrary: bn)
    case (Cons ev evs)
    show ?case
    proof (cases ev)
      case (WRead d)
      with Cons.IH show ?thesis by (auto simp: gbind_def split: prod.split goRes.split)
    next
      case (WTick now)
      with Cons.IH assms show ?thesis
        by (auto simp: gbind_def Let_def string_of_bytes_def split: prod.split goRes.split)
    qed (simp add: gfail_def)
  qed (simp add: gret_def)
  then show ?thesis by (simp add: WaitStable_def)
qed

text \<open>
  C28. Tests look at the same screen as the daemon's clients. A snapshot of the harness and the daemon's
  dump of the same terminal (the plain dump a client asks for, and the full dump sent on attach) make the
  same calls to the emulator with the same formatter options and leave it in the same state; they
  return the same text, cursor and screen, and fail for the same reason, to which the harness adds a
  context. Nothing else of the harness changes.
\<close>

theorem harness_sees_daemon_screen:
  "inContext (fst (dumpScreen X (bn_ts bn) (daemonFormat format) (bn_rt bn))) (fst (testSnapshot X format bn))
    \<and> snd (testSnapshot X format bn) = bn\<lparr>bn_rt := snd (dumpScreen X (bn_ts bn) (daemonFormat format) (bn_rt bn))\<rparr>"
proof -
  have "fst (testSnapshot X format bn) = fst (snapshotOf X format (ts_term (bn_ts bn)) (bn_rt bn))"
    and "snd (testSnapshot X format bn) = bn\<lparr>bn_rt := snd (snapshotOf X format (ts_term (bn_ts bn)) (bn_rt bn))\<rparr>"
    by (simp_all add: testSnapshot_def onTerm_def onTs_def gbind_def getObj_def onRt_def split_beta)
  with snapshot_is_dump [of X format "bn_ts bn"] show ?thesis by (simp add: contextOnly_def)
qed

end
