(* ===== verification/Server_Registry.thy ===== *)
theory Server_Registry
  imports Server_Props Server_Loop Store_Refinement
begin

text \<open>
  The daemon against an abstract specification. A registry knows which names are live, with the
  identity of their session, and what is saved under each name; it changes by a handful of events.
  Every step of the daemon (a request, the persister's tick, the end of a session, the shutdown) is a
  run of the registry that consists of the events this step may cause and of those that other
  connections cause meanwhile.
\<close>

section \<open>The registry\<close>

record registry =
  rg_live :: "string \<Rightarrow> nat option"
  rg_saved :: storeMap

datatype regEvent =
    Started string nat
  | Withdrawn string
  | Overwritten string
  | Resumed string
  | PutBack string sessionState
  | Pruned string
  | Checkpoint string sessionState
  | Ended string

text \<open>
  A session starts under a free name with an identity of its own. Pruning takes only what is not live,
  a resumed session is live when its saved state goes, a checkpoint is taken of a live session.
\<close>

inductive regStep :: "regEvent \<Rightarrow> registry \<Rightarrow> registry \<Rightarrow> bool" where
  reg_started: "rg_live g n = None \<Longrightarrow> i \<notin> ran (rg_live g) \<Longrightarrow> plain_name n \<Longrightarrow>
     regStep (Started n i) g (g\<lparr>rg_live := (rg_live g)(n \<mapsto> i)\<rparr>)"
| reg_withdrawn: "regStep (Withdrawn n) g (g\<lparr>rg_live := (rg_live g)(n := None)\<rparr>)"
| reg_ended: "regStep (Ended n) g (g\<lparr>rg_live := (rg_live g)(n := None)\<rparr>)"
| reg_overwritten: "regStep (Overwritten n) g (g\<lparr>rg_saved := (rg_saved g)(n := None)\<rparr>)"
| reg_resumed: "rg_live g n \<noteq> None \<Longrightarrow> regStep (Resumed n) g (g\<lparr>rg_saved := (rg_saved g)(n := None)\<rparr>)"
| reg_pruned: "rg_live g n = None \<Longrightarrow> regStep (Pruned n) g (g\<lparr>rg_saved := (rg_saved g)(n := None)\<rparr>)"
| reg_put_back: "regStep (PutBack n st) g (g\<lparr>rg_saved := (rg_saved g)(n \<mapsto> Inr st)\<rparr>)"
| reg_checkpoint: "rg_live g n \<noteq> None \<Longrightarrow> regStep (Checkpoint n st) g (g\<lparr>rg_saved := (rg_saved g)(n \<mapsto> Inr st)\<rparr>)"

inductive_simps regStep_simps: "regStep e g g'"

inductive regRun :: "regEvent set \<Rightarrow> registry \<Rightarrow> registry \<Rightarrow> bool" for E where
  run_refl: "regRun E g g"
| run_step: "regRun E g g1 \<Longrightarrow> e \<in> E \<Longrightarrow> regStep e g1 g2 \<Longrightarrow> regRun E g g2"

lemma regRun_trans: "regRun E b c \<Longrightarrow> regRun E a b \<Longrightarrow> regRun E a c"
  by (induction rule: regRun.induct) (auto intro: run_step)

lemma regRun_mono: "regRun E a b \<Longrightarrow> E \<subseteq> F \<Longrightarrow> regRun F a b"
  by (induction rule: regRun.induct) (auto intro: regRun.intros)

lemma regRun_one: "e \<in> E \<Longrightarrow> regStep e a b \<Longrightarrow> regRun E a b"
  using run_step [OF run_refl] .

text \<open>What the specification gives: saved state goes only by an event that discards it.\<close>

fun discards :: "string \<Rightarrow> regEvent \<Rightarrow> bool" where
  "discards n (Overwritten m) \<longleftrightarrow> m = n"
| "discards n (Resumed m) \<longleftrightarrow> m = n"
| "discards n (Pruned m) \<longleftrightarrow> m = n"
| "discards n _ \<longleftrightarrow> False"

lemma saved_survives:
  "regRun E a b \<Longrightarrow> \<forall>e \<in> E. \<not> discards n e \<Longrightarrow> rg_saved a n \<noteq> None \<Longrightarrow> rg_saved b n \<noteq> None"
proof (induction rule: regRun.induct)
  case (run_step g g1 e g2)
  then have "rg_saved g1 n \<noteq> None" "\<not> discards n e" by auto
  with run_step(3) show ?case by (auto simp: regStep_simps)
qed

text \<open>A live session keeps its name until it ends or is withdrawn, and no two sessions are the same.\<close>

fun leaves :: "string \<Rightarrow> regEvent \<Rightarrow> bool" where
  "leaves n (Withdrawn m) \<longleftrightarrow> m = n"
| "leaves n (Ended m) \<longleftrightarrow> m = n"
| "leaves n _ \<longleftrightarrow> False"

lemma live_stays:
  "regRun E a b \<Longrightarrow> \<forall>e \<in> E. \<not> leaves n e \<Longrightarrow> rg_live a n = Some i \<Longrightarrow> rg_live b n = Some i"
proof (induction rule: regRun.induct)
  case (run_step g g1 e g2)
  then have "rg_live g1 n = Some i" "\<not> leaves n e" by auto
  with run_step(3) show ?case by (auto simp: regStep_simps)
qed

lemma live_plain: "regRun E a b \<Longrightarrow> \<forall>n. rg_live a n \<noteq> None \<longrightarrow> plain_name n \<Longrightarrow> rg_live b n \<noteq> None \<Longrightarrow> plain_name n"
proof (induction arbitrary: n rule: regRun.induct)
  case (run_step g g1 e g2)
  then have "\<forall>n. rg_live g1 n \<noteq> None \<longrightarrow> plain_name n" by blast
  with run_step(3,6) show ?case by (auto simp: regStep_simps split: if_splits)
qed blast

section \<open>The daemon as a registry\<close>

definition absRegistry :: "'t server \<Rightarrow> registry" where
  "absRegistry sv = \<lparr>rg_live = (\<lambda>n. map_option ls_id (liveSession n sv)), rg_saved = absStore (sv_fs sv)\<rparr>"

definition advances :: "regEvent set \<Rightarrow> 't server \<Rightarrow> 't server \<Rightarrow> bool" where
  "advances E sv sv' \<longleftrightarrow> regRun E (absRegistry sv) (absRegistry sv')"

lemma advances_trans: "advances E a b \<Longrightarrow> advances E b c \<Longrightarrow> advances E a c"
  unfolding advances_def using regRun_trans by blast

lemma advances_same: "absRegistry sv' = absRegistry sv \<Longrightarrow> advances E sv sv'"
  by (simp add: advances_def run_refl)

lemma advances_mono: "advances E a b \<Longrightarrow> E \<subseteq> F \<Longrightarrow> advances F a b"
  unfolding advances_def using regRun_mono by blast

lemma advances_one: "e \<in> E \<Longrightarrow> regStep e (absRegistry a) (absRegistry b) \<Longrightarrow> advances E a b"
  unfolding advances_def using regRun_one by blast

text \<open>Steps that change neither the names nor what is saved.\<close>

lemma absRegistry_same:
  assumes "sv_sessions sv' = sv_sessions sv" and "stored (sv_fs sv') = stored (sv_fs sv)"
  shows "absRegistry sv' = absRegistry sv"
  using assms absStore_cong [of "sv_fs sv'" "sv_fs sv"] by (simp add: absRegistry_def liveSession_def)

lemma absRegistry_put:
  assumes "liveSession name sv = Some ls" and "ls_id ls' = ls_id ls"
  shows "absRegistry (putSession name ls' sv) = absRegistry sv"
  using assms by (auto simp: absRegistry_def fun_eq_iff liveSession_def putSession_def AList.update_conv')

lemma absRegistry_close [simp]: "absRegistry (closeSession ls sv) = absRegistry sv"
  by (simp add: absRegistry_def)

lemma advances_close [simp]: "advances E a (closeSession ls b) = advances E a b"
  by (simp add: advances_def)

lemma absRegistry_start:
  "newSession h spec sv = (r, sv') \<Longrightarrow> absRegistry sv' = absRegistry sv"
  "restoreSession h st spec sv = (r, sv') \<Longrightarrow> absRegistry sv' = absRegistry sv"
proof -
  show "absRegistry sv' = absRegistry sv" if "newSession h spec sv = (r, sv')"
    using newSession_result [OF that] start_fs(1) [OF that]
    by (intro absRegistry_same) (auto simp: same_table_def started_def split: sum.splits)
  show "absRegistry sv' = absRegistry sv" if "restoreSession h st spec sv = (r, sv')"
    using restoreSession_result [OF that] start_fs(2) [OF that]
    by (intro absRegistry_same) (auto simp: same_table_def started_def split: sum.splits)
qed

lemma absRegistry_attachTo: "attachTo h name i spec sv = (r, sv') \<Longrightarrow> absRegistry sv' = absRegistry sv"
  using onSess_same(1) [OF _ name_requests(1)]
  by (fastforce simp: attachTo_def sessionAt_def intro: absRegistry_put split: option.splits prod.splits if_splits)

lemma absRegistry_reads:
  "reserveSessionName h name sv = (r1, sv') \<Longrightarrow> absRegistry sv' = absRegistry sv"
  "readDeadSession name sv = (r2, sv') \<Longrightarrow> absRegistry sv' = absRegistry sv"
  "prepareRestoreDeadSession name sv = (r3, sv') \<Longrightarrow> absRegistry sv' = absRegistry sv"
  "deadSessionNames sv = (r4, sv') \<Longrightarrow> absRegistry sv' = absRegistry sv"
proof -
  show "absRegistry sv' = absRegistry sv" if "reserveSessionName h name sv = (r1, sv')"
    using absRegistry_same fs_onlyD(1) [OF fs_only_reserve [OF that]] reserve_stored(1) [OF that] by blast
  show "absRegistry sv' = absRegistry sv" if "readDeadSession name sv = (r2, sv')"
    using absRegistry_same fs_onlyD(1) [OF fs_only_dead(2) [OF that]] readDeadSession_result(2) [OF that] by blast
  show "absRegistry sv' = absRegistry sv" if "prepareRestoreDeadSession name sv = (r3, sv')"
    using absRegistry_same fs_onlyD(1) [OF fs_only_handlers(5) [OF that]] prepareRestore_result(1) [OF that] by blast
  show "absRegistry sv' = absRegistry sv" if d: "deadSessionNames sv = (r4, sv')"
    using fs_onlyD(1) [OF fs_only_dead(1) [OF d]] listDeadSessions_stored [of "liveSessionNames sv" "sv_fs sv"] d
    by (intro absRegistry_same) (auto simp: deadSessionNames_def withFs_def split: if_splits prod.splits)
qed

text \<open>Steps that are one event.\<close>

lemma absRegistry_fs:
  assumes "sv_sessions sv' = sv_sessions sv"
  shows "absRegistry sv' = (absRegistry sv)\<lparr>rg_saved := absStore (sv_fs sv')\<rparr>"
  using assms by (simp add: absRegistry_def liveSession_def)

lemma remove_advances:
  assumes "removeDeadSession n sv = (r, sv')" and "plain_name n" and "e \<in> E"
    and "\<And>g. rg_live g = rg_live (absRegistry sv) \<Longrightarrow> regStep e g (g\<lparr>rg_saved := (rg_saved g)(n := None)\<rparr>)"
  shows "advances E sv sv'"
proof (cases "sv_persist sv")
  case True
  then have cl: "cleanState n (sv_fs sv) = (r, sv_fs sv')"
    using assms(1) by (auto simp: removeDeadSession_def withFs_def split: prod.splits)
  have live: "sv_sessions sv' = sv_sessions sv" using fs_onlyD(1) [OF fs_only_dead(3) [OF assms(1)]] .
  from clean_refines [OF cl assms(2)]
  consider "absStore (sv_fs sv') = absStore (sv_fs sv)" | "absStore (sv_fs sv') = (absStore (sv_fs sv))(n := None)"
    by (auto simp: specStep_simps)
  then show ?thesis
  proof cases
    case 1
    then show ?thesis using absRegistry_fs [OF live] by (intro advances_same) (simp add: absRegistry_def)
  next
    case 2
    then show ?thesis using assms(3) assms(4) [of "absRegistry sv"] absRegistry_fs [OF live]
      by (intro advances_one [of e]) (simp_all add: absRegistry_def)
  qed
qed (use assms(1) in \<open>simp add: removeDeadSession_def advances_same\<close>)

lemma write_advances:
  assumes "writeDeadSession n st sv = (r, sv')" and "plain_name n" and "PutBack n st \<in> E"
  shows "advances E sv sv'"
proof (cases "sv_persist sv")
  case True
  then have w: "writeState n st (sv_fs sv) = (r, sv_fs sv')"
    using assms(1) by (auto simp: writeDeadSession_def withFs_def split: prod.splits)
  have live: "sv_sessions sv' = sv_sessions sv" using fs_onlyD(1) [OF fs_only_dead(4) [OF assms(1)]] .
  from save_refines [OF w assms(2)]
  consider "absStore (sv_fs sv') = absStore (sv_fs sv)" | "absStore (sv_fs sv') = (absStore (sv_fs sv))(n \<mapsto> Inr st)"
    by (auto simp: specStep_simps)
  then show ?thesis
  proof cases
    case 1
    then show ?thesis using absRegistry_fs [OF live] by (intro advances_same) (simp add: absRegistry_def)
  next
    case 2
    then show ?thesis using assms(3) absRegistry_fs [OF live]
        advances_one [OF assms(3), of sv sv'] reg_put_back [of n st "absRegistry sv"]
      by (simp add: absRegistry_def)
  qed
qed (use assms(1) in \<open>simp add: writeDeadSession_def advances_same\<close>)

lemma insert_advances:
  assumes "insertSessionOrExisting name ls sv = ((ex, b), sv')" and "b \<Longrightarrow> table_ok sv'" and "plain_name name"
    and "Started name (ls_id ls) \<in> E"
  shows "advances E sv sv'"
  using assms(1)
proof (cases rule: insertSessionOrExisting_cases)
  case 1
  have "ls_id ls \<notin> (ls_id \<circ> snd) ` set (sv_sessions sv)" using assms(2) 1(1,4) by (simp add: table_ok_def)
  moreover have "(m, l) \<in> set (sv_sessions sv)" if "liveSession m sv = Some l" for m l
    using map_of_SomeD that by (simp add: liveSession_def)
  ultimately have "ls_id ls \<notin> ran (rg_live (absRegistry sv))" by (force simp: ran_def absRegistry_def)
  moreover have "absRegistry sv' = (absRegistry sv)\<lparr>rg_live := (rg_live (absRegistry sv))(name \<mapsto> ls_id ls)\<rparr>"
    using 1(3,4) by (auto simp: absRegistry_def liveSession_def fun_eq_iff map_add_def split: option.split)
  moreover have "rg_live (absRegistry sv) name = None" using 1(3) by (simp add: absRegistry_def)
  ultimately show ?thesis using advances_one [OF assms(4), of sv sv'] reg_started assms(3) by simp
qed (simp add: advances_same)

lemma absRegistry_removeSession:
  "absRegistry (removeSession name sv) = (absRegistry sv)\<lparr>rg_live := (rg_live (absRegistry sv))(name := None)\<rparr>"
  by (auto simp: absRegistry_def removeSession_def liveSession_def AList.delete_conv' fun_eq_iff)

lemma withdraw_advances: "Withdrawn name \<in> E \<Longrightarrow> advances E sv (closeSession ls (removeSession name sv))"
  using advances_one [of "Withdrawn name" E sv "closeSession ls (removeSession name sv)"] reg_withdrawn
  by (simp add: absRegistry_removeSession)

section \<open>Requests\<close>

text \<open>A requested name, or any name when the daemon picks one.\<close>

definition named :: "string \<Rightarrow> string \<Rightarrow> bool" where
  "named requested n \<longleftrightarrow> requested = [] \<or> requested = n"

definition mayDo :: "message \<Rightarrow> regEvent \<Rightarrow> bool" where
  "mayDo msg e =
     (case msg of
        MCreate m \<Rightarrow>
          (case e of
             Started n i \<Rightarrow> named (create_Name m) n
           | Overwritten n \<Rightarrow> create_Force m \<and> named (create_Name m) n
           | _ \<Rightarrow> False)
      | MAttach m \<Rightarrow>
          (case e of
             Started n i \<Rightarrow> named (attach_Name m) n
           | Withdrawn n \<Rightarrow> named (attach_Name m) n
           | Resumed n \<Rightarrow> attach_Restore m \<and> n = attach_Name m
           | PutBack n st \<Rightarrow> attach_Restore m \<and> n = attach_Name m
           | _ \<Rightarrow> False)
      | MPrune \<Rightarrow> (case e of Pruned n \<Rightarrow> True | _ \<Rightarrow> False)
      | _ \<Rightarrow> False)"

lemma mayDo_simps [simp]:
  "mayDo (MCreate m) (Started n i) = named (create_Name m) n"
  "mayDo (MCreate m) (Overwritten n) = (create_Force m \<and> named (create_Name m) n)"
  "mayDo (MAttach a) (Started n i) = named (attach_Name a) n"
  "mayDo (MAttach a) (Withdrawn n) = named (attach_Name a) n"
  "mayDo (MAttach a) (Resumed n) = (attach_Restore a \<and> n = attach_Name a)"
  "mayDo (MAttach a) (PutBack n st) = (attach_Restore a \<and> n = attach_Name a)"
  "mayDo MPrune (Pruned n)"
  by (simp_all add: mayDo_def)

text \<open>Requests whose names are file names; the daemon does not check this.\<close>

definition plain_request :: "message \<Rightarrow> bool" where
  "plain_request msg =
     (case msg of MCreate m \<Rightarrow> plain_name (create_Name m) | MAttach m \<Rightarrow> plain_name (attach_Name m) | _ \<Rightarrow> True)"

definition registryRely :: "regEvent set \<Rightarrow> 't interference \<Rightarrow> bool" where
  "registryRely E itf \<longleftrightarrow> (\<forall>k s. table_ok s \<longrightarrow> advances E s (itf k s))"

lemma rely_advances: "registryRely E itf \<Longrightarrow> E \<subseteq> F \<Longrightarrow> table_ok s \<Longrightarrow> advances F s (itf k s)"
  unfolding registryRely_def using advances_mono by blast

lemma allNames_plain: "\<forall>n \<in> set allNames. plain_name n"
proof -
  have "\<forall>w \<in> set adjectives \<union> set nouns. CHR ''/'' \<notin> set w" by code_simp
  then show ?thesis by (auto simp: allNames_def plain_name_def)
qed

lemma digits_plain: "CHR ''/'' \<notin> set (string_of_nat n)"
proof (induction n rule: string_of_nat.induct)
  case (1 n)
  have "digit_char (m mod 10) \<noteq> CHR ''/''" for m
  proof
    assume "digit_char (m mod 10) = CHR ''/''"
    then have "(of_char (digit_char (m mod 10)) :: nat) = 47" by simp
    then show False by (simp add: digit_char_def)
  qed
  from this [of n] 1 show ?case by (cases "n < 10") (simp_all add: string_of_nat.simps [of n])
qed

lemma generated_plain:
  assumes "finite {n. existing n}"
  shows "plain_name (the (generateUniqueName rnd existing))"
proof -
  have "plain_name (suffixed (generateName rnd k) i)" for k i
    using allNames_plain generateName_in_allNames [of rnd k] digits_plain [of i] by (auto simp: suffixed_def plain_name_def)
  with generateUniqueName_free [OF assms, of rnd] allNames_plain show ?thesis by auto
qed

lemma reserve_named:
  assumes "reserveSessionName h name sv = (Inr n, sv')" and "plain_name name"
  shows "plain_name n" and "named name n"
proof -
  have live: "finite {n. liveSessionNames sv n}" by (simp add: liveSessionNames_def)
  then have "finite {n. liveSessionNames sv n \<or> n \<in> set dead}" for dead by (simp add: Collect_disj_eq)
  from generated_plain [OF this] generated_plain [OF live] assms show "plain_name n"
    by (auto simp: reserveSessionName_def Let_def split: if_splits sum.splits prod.splits)
  show "named name n" using assms(1) by (cases "name = []") (simp_all add: named_def reserveSessionName_def)
qed

lemma prepareCreate_advances:
  assumes "prepareCreateDeadSession n force sv = (r, sv')" and "plain_name n" and "force \<Longrightarrow> Overwritten n \<in> E"
  shows "advances E sv sv'"
proof -
  obtain q sv1 where rd: "readDeadSession n sv = (q, sv1)" by fastforce
  note same = advances_same [OF absRegistry_reads(2) [OF rd]]
  show ?thesis
  proof (cases force)
    case True
    obtain u sv2 where rm: "removeDeadSession n sv1 = (u, sv2)" by fastforce
    have "sv' = sv2" using assms(1) rd rm True by (auto simp: prepareCreateDeadSession_def split: sum.splits)
    moreover have "advances E sv1 sv2"
      using remove_advances [OF rm assms(2) assms(3) [OF True]] reg_overwritten by blast
    ultimately show ?thesis using advances_trans [OF same] by simp
  next
    case False
    then have "sv' = sv1" using assms(1) rd by (auto simp: prepareCreateDeadSession_def split: sum.splits option.splits)
    then show ?thesis using same by simp
  qed
qed

text \<open>A session is started and inserted while others run.\<close>

lemma start_insert_advances:
  assumes "table_ok sv" and "started name ls sv sv1" and "absRegistry sv1 = absRegistry sv" and "rely n itf" and "registryRely E itf"
    and "insertSessionOrExisting name ls (itf k sv1) = ((ex, b), sv2)" and "plain_name name"
    and "E \<subseteq> F" and "Started name (ls_id ls) \<in> F"
  shows "advances F sv sv2"
proof -
  have "b \<Longrightarrow> table_ok sv2" using start_and_insert(1) [OF assms(1,2,4,6)] keepsD(1) by blast
  from insert_advances [OF assms(6) this assms(7,9)]
  have "advances F (itf k sv1) sv2" .
  moreover have "advances F sv1 (itf k sv1)" using rely_advances [OF assms(5,8) started_ok(1) [OF assms(2,1)]] .
  ultimately show ?thesis using advances_trans advances_same [OF assms(3)] by blast
qed

text \<open>A create up to the start of its session.\<close>

lemma create_prepared:
  assumes "reserveSessionName h (create_Name msg) sv = (Inr name, sv0)"
    and "prepareCreateDeadSession name (create_Force msg) (itf 1 (itf 0 sv0)) = (q, sv1)"
    and "table_ok sv" and "rely n itf" and "registryRely E itf" and "plain_name (create_Name msg)"
    and "E \<union> {e. mayDo (MCreate msg) e} \<subseteq> F"
  shows "advances F sv sv1" and "table_ok (itf 2 sv1)" and "advances F sv (itf 2 sv1)"
proof -
  note rely = rely_advances [OF assms(5), of F]
  note nm = reserve_named [OF assms(1,6)]
  note k0 = reserved_keeps [OF assms(1,3,4)] and k1 = prepared_keeps [OF assms(2) reserved_keeps(2) [OF assms(1,3,4)] assms(4)]
  have "advances F sv0 (itf 0 sv0)" "advances F (itf 0 sv0) (itf 1 (itf 0 sv0))"
    using rely [OF _ keepsD(1) [OF k0(1)]] rely [OF _ keepsD(1) [OF k0(2)]] assms(7) by blast+
  then have "advances F sv (itf 1 (itf 0 sv0))" using advances_trans advances_same [OF absRegistry_reads(1) [OF assms(1)]] by blast
  moreover have "Overwritten name \<in> F" if "create_Force msg" using nm(2) assms(7) that by auto
  then have "advances F (itf 1 (itf 0 sv0)) sv1" using prepareCreate_advances [OF assms(2) nm(1)] by blast
  ultimately show a: "advances F sv sv1" using advances_trans by blast
  show "table_ok (itf 2 sv1)" using keepsD(1) [OF k1(2)] .
  show "advances F sv (itf 2 sv1)" using advances_trans [OF a rely [OF _ keepsD(1) [OF k1(1)]]] assms(7) by blast
qed

lemma create_advances:
  assumes "handleCreate h itf msg sv = (reply, sv')" and "table_ok sv" and "rely n itf" and "registryRely E itf"
    and "plain_name (create_Name msg)"
  shows "advances (E \<union> {e. mayDo (MCreate msg) e}) sv sv'" (is "advances ?F sv sv'")
proof -
  note prepared = create_prepared [OF _ _ assms(2-5) order_refl]
  from assms(1) show ?thesis
  proof (cases rule: handleCreate_cases)
    case unnamed
    then show ?thesis using absRegistry_reads(1) advances_same by blast
  next
    case (exists name sv0)
    have "advances ?F sv0 (itf 0 sv0)"
      using rely_advances [OF assms(4) _ keepsD(1) [OF reserved_keeps(1) [OF exists(1) assms(2,3)]]] by blast
    then show ?thesis using advances_trans advances_same [OF absRegistry_reads(1) [OF exists(1)]] exists(2) by blast
  next
    case saved
    then show ?thesis using prepared(1) by blast
  next
    case (unstarted name sv0 u sv1 e)
    then show ?thesis using prepared(3) advances_same [OF absRegistry_start(1)] advances_trans by blast
  next
    case (added name sv0 u sv1 ls sv2 ex b sv3)
    note nm = reserve_named [OF added(1) assms(5)]
    note p = prepared(2,3) [OF added(1,2)]
    have st: "started name ls (itf 2 sv1) sv2" using newSession_result [OF added(3)] by (simp add: createSpec_def)
    have "E \<subseteq> ?F" "Started name (ls_id ls) \<in> ?F" using nm(2) by auto
    from start_insert_advances [OF p(1) st absRegistry_start(1) [OF added(3)] assms(3,4) added(4) nm(1) this]
    have "advances ?F sv sv3" using advances_trans [OF p(2)] by blast
    then show ?thesis using added(5) by simp
  qed
qed

lemma attachTarget_advances:
  assumes "attachTarget h itf msg name sv = (r, sv')" and "table_ok sv" and "rely n itf" and "registryRely E itf"
    and "plain_name name" and "named (attach_Name msg) name"
  shows "advances (E \<union> {e. mayDo (MAttach msg) e}) sv sv'" (is "advances ?F sv sv'")
proof (cases "liveSession name sv")
  case (Some ls)
  with assms(1) show ?thesis by (simp add: attachTarget_def advances_same)
next
  case None
  have F: "E \<subseteq> ?F" by blast
  note rely = rely_advances [OF assms(4) F]
  obtain r1 sv1 where a1: "readDeadSession name (itf 1 sv) = (r1, sv1)" by fastforce
  have t1: "table_ok (itf 1 sv)" "table_ok sv1"
    using keepsD(1) [OF keeps_rely [OF assms(3,2)]] same_table_ok(1) [OF fs_only_same_table [OF fs_only_dead(2) [OF a1]]] by auto
  have f1: "advances ?F sv sv1"
    using advances_trans [OF rely [OF assms(2)] advances_same [OF absRegistry_reads(2) [OF a1]]] .
  have f2: "advances ?F sv (itf 2 sv1)" using advances_trans [OF f1 rely [OF t1(2)]] .
  have t2: "table_ok (itf 2 sv1)" using keepsD(1) [OF keeps_rely [OF assms(3) t1(2)]] .
  obtain r2 sv2 where a2: "newSession h (attachSpec msg name sv1) (itf 2 sv1) = (r2, sv2)" by fastforce
  note same2 = absRegistry_start(1) [OF a2]
  show ?thesis
  proof (cases "r1 = Inr None \<and> is_ok r2")
    case True
    then obtain ls where ls: "r2 = Inr ls" by (auto simp: is_ok_iff)
    obtain ex b sv3 where ins: "insertSessionOrExisting name ls (itf 3 sv2) = ((ex, b), sv3)" by (metis prod.collapse)
    have st: "started name ls (itf 2 sv1) sv2" using newSession_result [OF a2] ls by (simp add: attachSpec_def)
    have "Started name (ls_id ls) \<in> ?F" using assms(6) by simp
    from start_insert_advances [OF t2 st same2 assms(3,4) ins assms(5) F this] f2
    have "advances ?F sv sv3" using advances_trans by blast
    moreover have "sv' = (if b then sv3 else closeSession ls sv3)"
      using assms(1) None a1 True a2 ls ins by (auto simp: attachTarget_def split: bool.splits)
    ultimately show ?thesis by simp
  next
    case False
    then have "sv' = sv1 \<or> sv' = sv2"
      using assms(1) None a1 a2 by (auto simp: attachTarget_def split: sum.splits option.splits)
    then show ?thesis using f1 advances_trans [OF f2 advances_same [OF same2]] by blast
  qed
qed

lemma attachNew_advances:
  assumes "handleAttachNew h itf msg clientRev sv = (out, sv')" and "table_ok sv" and "rely n itf" and "registryRely E itf"
    and "n \<le> sv_nextId sv" and "plain_name (attach_Name msg)"
  shows "advances (E \<union> {e. mayDo (MAttach msg) e}) sv sv'" (is "advances ?F sv sv'")
proof -
  note rely = rely_advances [OF assms(4), of ?F]
  obtain r0 sv0 where a0: "reserveSessionName h (attach_Name msg) sv = (r0, sv0)" by fastforce
  note k0 = reserved_keeps [OF a0 assms(2,3)]
  have f0: "advances ?F sv sv0" using advances_same [OF absRegistry_reads(1) [OF a0]] .
  then have f1: "advances ?F sv (itf 0 sv0)" using advances_trans rely [OF _ keepsD(1) [OF k0(1)]] by blast
  show ?thesis
  proof (cases r0)
    case (Inl e)
    with assms(1) a0 f0 show ?thesis by (auto simp: handleAttachNew_def)
  next
    case name: (Inr name)
    note nm = reserve_named [OF a0 [unfolded name] assms(6)]
    obtain r1 sv1 where a1: "attachTarget h itf msg name (itf 0 sv0) = (r1, sv1)" by fastforce
    have f2: "advances ?F sv sv1"
      using advances_trans [OF f1 attachTarget_advances [OF a1 keepsD(1) [OF k0(2)] assms(3,4) nm]] .
    have "n \<le> sv_nextId (itf 0 sv0)" using assms(5) keepsD(3) [OF k0(2)] by simp
    then have t1: "table_ok sv1" using attachTarget_keeps(1) [OF a1 keepsD(1) [OF k0(2)] assms(3)] keepsD(1) by blast
    show ?thesis
    proof (cases r1)
      case (Inl e)
      with assms(1) a0 name a1 f2 show ?thesis by (auto simp: handleAttachNew_def)
    next
      case (Inr p)
      obtain ls created where p: "p = (ls, created)" by fastforce
      obtain r2 sv2 where a2: "attachTo h name (ls_id ls) (clientSpec msg clientRev created) (itf 4 sv1) = (r2, sv2)" by fastforce
      have f3: "advances ?F sv sv2"
        using advances_trans [OF advances_trans [OF f2 rely [OF _ t1]] advances_same [OF absRegistry_attachTo [OF a2]]] by blast
      have "advances ?F sv (closeSession ls (removeSession name sv2))"
        using advances_trans [OF f3 withdraw_advances] nm(2) by simp
      then show ?thesis using assms(1) a0 name a1 Inr p a2 f3
        by (auto simp: handleAttachNew_def split: sum.splits if_splits)
    qed
  qed
qed

lemma commit_advances:
  assumes "commitRestoreDeadSession n sv = (r, sv')" and "plain_name n" and "liveSession n sv \<noteq> None" and "Resumed n \<in> E"
  shows "advances E sv sv'"
proof -
  obtain q sv1 where a: "removeDeadSession n sv = (q, sv1)" by fastforce
  then have "sv' = sv1" using assms(1) by (auto simp: commitRestoreDeadSession_def split: sum.splits)
  moreover have "rg_live (absRegistry sv) n \<noteq> None" using assms(3) by (simp add: absRegistry_def)
  then have "advances E sv sv1" using remove_advances [OF a assms(2,4)] reg_resumed by simp
  ultimately show ?thesis by simp
qed

lemma rollback_advances:
  assumes "rollbackRestoreDeadSession n st e sv = (err, sv')" and "plain_name n" and "PutBack n st \<in> E"
  shows "advances E sv sv'"
proof -
  obtain q sv1 where a: "writeDeadSession n st sv = (q, sv1)" by fastforce
  then have "sv' = sv1" using assms(1) by (auto simp: rollbackRestoreDeadSession_def split: sum.splits)
  with write_advances [OF a assms(2,3)] show ?thesis by simp
qed

text \<open>A restore up to the insertion, its commit and its attach, each with what others do before it.\<close>

lemma restore_start_advances:
  assumes "prepareRestoreDeadSession name sv = (Inr state, sv0)"
    and "restoreSession h state (attachSpec msg name sv0) (itf 0 sv0) = (r1, sv1)"
    and "table_ok sv" and "rely n itf" and "registryRely E itf" and "E \<subseteq> F"
  shows "advances F sv sv1"
    and "r1 = Inr ls \<Longrightarrow> insertSessionOrExisting name ls (itf 1 sv1) = ((ex, b), sv2) \<Longrightarrow> plain_name name \<Longrightarrow>
      Started name (ls_id ls) \<in> F \<Longrightarrow> advances F sv sv2"
proof -
  have k0: "keeps sv sv0" using keeps_fs_only [OF assms(3) fs_only_handlers(5) [OF assms(1)]] .
  have t1: "table_ok (itf 0 sv0)" using keepsD(1) [OF keeps_rely [OF assms(4) keepsD(1) [OF k0]]] .
  note same = absRegistry_start(2) [OF assms(2)]
  have f1: "advances F sv (itf 0 sv0)"
    using advances_trans [OF advances_same [OF absRegistry_reads(3) [OF assms(1)]] rely_advances [OF assms(5,6) keepsD(1) [OF k0]]] .
  then show "advances F sv sv1" using advances_trans advances_same [OF same] by blast
  assume r: "r1 = Inr ls" "insertSessionOrExisting name ls (itf 1 sv1) = ((ex, b), sv2)" "plain_name name" "Started name (ls_id ls) \<in> F"
  have "started name ls (itf 0 sv0) sv1" using restoreSession_result [OF assms(2)] r(1) by (simp add: attachSpec_def)
  from start_insert_advances [OF t1 this same assms(4,5) r(2,3) assms(6) r(4)] show "advances F sv sv2"
    using advances_trans [OF f1] by blast
qed

lemma restore_commit_advances:
  assumes "prepareRestoreDeadSession name sv = (Inr state, sv0)"
    and "restoreSession h state (attachSpec msg name sv0) (itf 0 sv0) = (Inr ls, sv1)"
    and "insertSessionOrExisting name ls (itf 1 sv1) = ((ex, True), sv2)"
    and "commitRestoreDeadSession name (itf 2 sv2) = (q, sv3)"
    and ok: "table_ok sv" "rely n itf" "registryRely E itf" "n \<le> sv_nextId sv" "plain_name name"
    and F: "E \<subseteq> F" "Started name (ls_id ls) \<in> F" "Resumed name \<in> F"
  shows "advances F sv sv3" and "advances F sv (itf 3 sv3)"
proof -
  note rely = rely_advances [OF ok(3) F(1)]
  note ins = restore_inserted(2,3) [OF assms(1-3) ok(1,2,4) TrueI] restore_inserted(4) [OF assms(1-3) ok(1,2,4)]
  have f2: "advances F sv (itf 2 sv2)"
    using advances_trans [OF restore_start_advances(2) [OF assms(1,2) ok(1-3) F(1) refl assms(3) ok(5) F(2)] rely [OF keepsD(1) [OF ins(1)]]] .
  have "liveSession name (itf 2 sv2) \<noteq> None" using rely_live [OF ok(2) keepsD(1) [OF ins(1)] ins(2,3)] by auto
  from commit_advances [OF assms(4) ok(5) this F(3)] show f3: "advances F sv sv3" using advances_trans [OF f2] by blast
  show "advances F sv (itf 3 sv3)"
    using advances_trans [OF f3 rely [OF keepsD(1) [OF restore_committed(1) [OF assms(4) ins ok(2)]]]] .
qed

lemma restore_advances:
  assumes "handleAttachRestore h itf msg clientRev sv = (out, sv')" and "table_ok sv" and "rely n itf" and "registryRely E itf"
    and "n \<le> sv_nextId sv" and "plain_name (attach_Name msg)" and "attach_Restore msg"
  shows "advances (E \<union> {e. mayDo (MAttach msg) e}) sv sv'" (is "advances ?F sv sv'")
proof -
  let ?name = "attach_Name msg"
  have F: "E \<subseteq> ?F" by blast
  have may: "Started ?name i \<in> ?F" "Withdrawn ?name \<in> ?F" "Resumed ?name \<in> ?F" "PutBack ?name st \<in> ?F" for i st
    using assms(7) by (simp_all add: named_def)
  note start = restore_start_advances [OF _ _ assms(2-4) F]
  note committed = restore_commit_advances [OF _ _ _ _ assms(2-6) F may(1,3)]
  have run: "handleAttachRestore h itf msg clientRev sv = ((fst out, snd out), sv')" using assms(1) by simp
  then show ?thesis
  proof (cases rule: handleAttachRestore_cases)
    case unsaved
    then show ?thesis using advances_same [OF absRegistry_reads(3)] by blast
  next
    case unstarted
    then show ?thesis using start(1) by blast
  next
    case taken
    then show ?thesis using start(2) [OF taken(1,2) refl taken(3) assms(6) may(1)] by simp
  next
    case c: uncommitted
    show ?thesis using advances_trans [OF committed(1) [OF c(1-4)] withdraw_advances [OF may(2)]] c(5) by simp
  next
    case c: refused
    note undone = advances_trans [OF committed(2) [OF c(1-4)] advances_same [OF absRegistry_attachTo [OF c(5)]]]
    show ?thesis using advances_trans [OF advances_trans [OF undone withdraw_advances [OF may(2)]] rollback_advances [OF c(6) assms(6) may(4)]] .
  next
    case c: attached
    show ?thesis using advances_trans [OF committed(2) [OF c(1-4)] advances_same [OF absRegistry_attachTo [OF c(5)]]] .
  qed
qed

text \<open>Pruning: the names listed are plain and not live.\<close>

lemma listed_names:
  assumes "deadSessionNames sv = (Inr names, sv')" and "m \<in> set names"
  shows "plain_name m" and "liveSession m sv = None"
proof -
  obtain w entries where "osReadDir (stateDir (fs_env (sv_fs sv))) (sv_fs sv) = (Inr entries, w)"
    and names: "m \<in> set (deadNames (liveSessionNames sv) entries)"
    using assms by (auto simp: deadSessionNames_def withFs_def listDeadSessions_def split: if_splits prod.splits sum.splits)
  then have "CHR ''/'' \<notin> set (m @ ''.state'')"
    using dirEntries_names by (force simp: osReadDir_def deadNames_mem split: option.splits if_splits prod.splits)
  then show "plain_name m" by (simp add: plain_name_def)
  have "m \<notin> fst ` set (sv_sessions sv)" using names by (simp add: deadNames_mem liveSessionNames_def)
  then show "liveSession m sv = None" by (simp add: liveSession_def map_of_eq_None_iff)
qed

lemma pruneEach_advances:
  assumes "pruneEach names c sv = (r, sv')" and "\<forall>m \<in> set names. plain_name m \<and> liveSession m sv = None" and "\<And>m. Pruned m \<in> E"
  shows "advances E sv sv'"
  using assms(1,2)
proof (induction names arbitrary: c sv)
  case Nil
  then show ?case by (simp add: advances_same)
next
  case (Cons m names)
  obtain q sv1 where rm: "removeDeadSession m sv = (q, sv1)" by fastforce
  have "rg_live (absRegistry sv) m = None" using Cons.prems(2) by (simp add: absRegistry_def)
  with remove_advances [OF rm _ assms(3), of m] Cons.prems(2) reg_pruned have f: "advances E sv sv1" by simp
  have "liveSession k sv1 = liveSession k sv" for k using same_table_ok(3) [OF fs_only_same_table [OF fs_only_dead(3) [OF rm]]] .
  with Cons rm f show ?case by (cases q) (auto intro: advances_trans)
qed

lemma prune_advances:
  assumes "handlePrune sv = (r, sv')" and "\<And>m. Pruned m \<in> E"
  shows "advances E sv sv'"
proof -
  obtain q sv1 where d: "deadSessionNames sv = (q, sv1)" by fastforce
  note same = absRegistry_reads(4) [OF d]
  have live: "liveSession m sv1 = liveSession m sv" for m using same_table_ok(3) [OF fs_only_same_table [OF fs_only_dead(1) [OF d]]] .
  show ?thesis
  proof (cases q)
    case (Inl e)
    with assms(1) d have "sv' = sv1" by (simp add: handlePrune_def pruneDeadSessions_def)
    then show ?thesis using advances_same [OF same] by simp
  next
    case (Inr names)
    obtain q2 where p: "pruneEach names 0 sv1 = (q2, sv')"
      using assms(1) d Inr by (auto simp: handlePrune_def pruneDeadSessions_def split: sum.splits prod.splits)
    have "advances E sv1 sv'"
      by (rule pruneEach_advances [OF p _ assms(2)]) (use listed_names [OF d [unfolded Inr]] live in auto)
    then show ?thesis using advances_trans [OF advances_same [OF same]] by blast
  qed
qed

section \<open>Requests that leave the registry alone\<close>

lemma absRegistry_deadRows: "deadRows names sv = (r, sv') \<Longrightarrow> absRegistry sv' = absRegistry sv"
proof (induction names arbitrary: sv r)
  case (Cons m names)
  obtain q sv1 where rd: "readDeadSession m sv = (q, sv1)" by fastforce
  have "absRegistry sv1 = absRegistry sv" using absRegistry_reads(2) [OF rd] .
  with Cons rd show ?case by (auto split: sum.splits option.splits prod.splits)
qed simp

lemma absRegistry_table:
  assumes "map fst ys = map fst (sv_sessions sv)" and "map (ls_id \<circ> snd) ys = map (ls_id \<circ> snd) (sv_sessions sv)"
  shows "absRegistry (sv\<lparr>sv_sessions := ys\<rparr>) = absRegistry sv"
proof -
  have "map_option ls_id (map_of xs n) = map_of (zip (map fst xs) (map (ls_id \<circ> snd) xs)) n"
    for xs :: "(string \<times> 'a tableEntry) list" and n
    by (induction xs) auto
  with assms show ?thesis by (simp add: absRegistry_def liveSession_def)
qed

lemma absRegistry_list:
  assumes "handleList h m sv = (r, sv')"
  shows "absRegistry sv' = absRegistry sv"
proof -
  obtain rws ys where l: "listEach h (list_IncludeClients m) (sv_sessions sv) = (rws, ys)" by fastforce
  obtain q sv1 where d: "deadSessionNames (sv\<lparr>sv_sessions := ys\<rparr>) = (q, sv1)" by fastforce
  have "absRegistry sv1 = absRegistry sv"
    using absRegistry_reads(4) [OF d] absRegistry_table [OF listEach_same(1,2) [OF l]] by simp
  moreover have "sv' = sv1 \<or> (\<exists>names q2. deadRows names sv1 = (q2, sv'))"
    using assms l d by (auto simp: handleList_def deadSessionRows_def split: sum.splits prod.splits)
  ultimately show ?thesis using absRegistry_deadRows by metis
qed

lemma absRegistry_dump: "handleDump h m sv = (r, sv') \<Longrightarrow> absRegistry sv' = absRegistry sv"
  by (auto simp: handleDump_def dumpDeadSession_def dest!: absRegistry_reads(2) split: option.splits sum.splits prod.splits)

lemma absRegistry_status:
  assumes "handleStatus h m sv = (r, sv')"
  shows "absRegistry sv' = absRegistry sv"
proof -
  obtain x sv1 where st: "statusSnapshot h (status_Name m) sv = (x, sv1)" by fastforce
  have "absRegistry sv1 = absRegistry sv"
    using st onSess_same(1) [OF _ name_requests(5)]
    by (auto simp: statusSnapshot_def Let_def split: option.splits if_splits prod.splits intro!: absRegistry_put)
  moreover obtain q sv2 where d: "deadSessionNames sv1 = (q, sv2)" by fastforce
  moreover have "sv' = sv2" using assms st d by (auto simp: handleStatus_def split: sum.splits prod.splits)
  ultimately show ?thesis using absRegistry_reads(4) by metis
qed

lemma absRegistry_control:
  "handleKick h m1 sv = (r, sv') \<Longrightarrow> absRegistry sv' = absRegistry sv"
  "handleKill m2 sv = (r, sv') \<Longrightarrow> absRegistry sv' = absRegistry sv"
  "handleSend m3 sv = (r, sv') \<Longrightarrow> absRegistry sv' = absRegistry sv"
  "handleSendKey h m4 sv = (r, sv') \<Longrightarrow> absRegistry sv' = absRegistry sv"
proof -
  show "absRegistry sv' = absRegistry sv" if "handleKick h m1 sv = (r, sv')"
    using that onSess_same(1) [OF _ name_requests(3)]
    by (auto simp: handleKick_def split: if_splits option.splits prod.splits intro!: absRegistry_put)
  show "absRegistry sv' = absRegistry sv" if "handleKill m2 sv = (r, sv')"
    using that by (auto simp: handleKill_def killSession_def split: option.splits intro!: absRegistry_put)
  show "absRegistry sv' = absRegistry sv" if "handleSend m3 sv = (r, sv')"
    using that by (auto simp: handleSend_def sendInput_def split: option.splits intro!: absRegistry_put)
  show "absRegistry sv' = absRegistry sv" if "handleSendKey h m4 sv = (r, sv')"
    using that by (auto simp: handleSendKey_def sendInput_def split: option.splits sum.splits if_splits intro!: absRegistry_put)
qed

lemma absRegistry_onAttached:
  "(\<And>ls. ls_id (f ls) = ls_id ls) \<Longrightarrow> absRegistry (onAttached f at sv) = absRegistry sv"
  by (auto simp: onAttached_def sessionAt_def split: option.splits if_splits intro: absRegistry_put)

lemma absRegistry_stream: "streamStep h at msg sv = (b, sv') \<Longrightarrow> absRegistry sv' = absRegistry sv"
  by (auto simp: streamStep_def detachConn_def absRegistry_onAttached split: message.splits if_splits)

text \<open>Every request.\<close>

definition requestAllows :: "connState \<Rightarrow> message \<Rightarrow> regEvent set" where
  "requestAllows cn msg = (if cn_attached cn = None then {e. mayDo msg e} else {})"

lemma control_advances:
  assumes "controlStep h itf clientRev msg sv = (out, sv')" and "table_ok sv" and "rely n itf" and "registryRely E itf"
    and "n \<le> sv_nextId sv" and "plain_request msg"
  shows "advances (E \<union> {e. mayDo msg e}) sv sv'"
proof -
  note same = absRegistry_list absRegistry_dump absRegistry_status absRegistry_control
  show ?thesis
  proof (cases msg)
    case (MCreate m)
    with assms(1,6) create_advances [OF _ assms(2-4)] show ?thesis
      by (auto simp: controlStep_def plain_request_def split: prod.splits)
  next
    case (MAttach m)
    with assms(1,6) attachNew_advances [OF _ assms(2-5)] restore_advances [OF _ assms(2-5)] show ?thesis
      by (auto simp: controlStep_def plain_request_def handleAttach_def split: prod.splits if_splits)
  next
    case MPrune
    with assms(1) obtain q where "handlePrune sv = (q, sv')" by (auto simp: controlStep_def split: prod.splits)
    from prune_advances [OF this] MPrune show ?thesis by simp
  qed (use assms(1) same in \<open>auto simp: controlStep_def intro!: advances_same split: prod.splits\<close>)
qed

lemma request_advances:
  assumes "connStep h itf msg cn sv = (out, sv')" and "table_ok sv" and "rely n itf" and "registryRely E itf"
    and "n \<le> sv_nextId sv" and "plain_request msg"
  shows "advances (E \<union> requestAllows cn msg) sv sv'"
proof (cases "cn_attached cn")
  case (Some at)
  with assms(1) absRegistry_stream show ?thesis by (fastforce simp: connStep_def intro: advances_same split: prod.splits)
next
  case None
  with assms(1) control_advances [OF _ assms(2-6)] show ?thesis
    by (fastforce simp: connStep_def requestAllows_def split: prod.splits)
qed

section \<open>The persister, ended sessions and shutdown\<close>

lemma saveSession_advances:
  assumes "saveSession (stateDir (fs_env w)) now snap sizeOf m x w = (r, w')" and "plain_name m"
  shows "fs_env w' = fs_env w"
    and "absStore w' = absStore w \<or> (\<exists>st. absStore w' = (absStore w)(m \<mapsto> Inr st))"
proof -
  consider "w' = w" | st where "writeState m st w = (r, w')"
    using assms(1) by (auto simp: saveSession_def writeState_def Let_def split: sum.splits prod.splits)
  then have "fs_env w' = fs_env w \<and> (absStore w' = absStore w \<or> (\<exists>st. absStore w' = (absStore w)(m \<mapsto> Inr st)))"
  proof cases
    case (2 st)
    have "fs_env w' = fs_env w"
      using writeStateInDir_stored(3) [OF clean_dir_stateDir assms(2,2) 2 [unfolded writeState_def]] .
    with save_refines [OF 2 assms(2)] show ?thesis by (auto simp: specStep_simps)
  qed simp
  then show "fs_env w' = fs_env w" and "absStore w' = absStore w \<or> (\<exists>st. absStore w' = (absStore w)(m \<mapsto> Inr st))"
    by simp_all
qed

text \<open>Only live names are saved.\<close>

lemma saveEach_advances:
  assumes "saveEach (saveSession (stateDir (fs_env w)) now snap sizeOf) sessions names w = (errs, w')"
    and "\<forall>m. map_of sessions m \<noteq> None \<longrightarrow> plain_name m \<and> (\<forall>st. Checkpoint m st \<in> E) \<and> live m \<noteq> None"
  shows "regRun E \<lparr>rg_live = live, rg_saved = absStore w\<rparr> \<lparr>rg_live = live, rg_saved = absStore w'\<rparr>"
  using assms(1)
proof (induction names arbitrary: w errs)
  case Nil
  then show ?case by (simp add: run_refl)
next
  case (Cons m names)
  show ?case
  proof (cases "map_of sessions m")
    case None
    with Cons show ?thesis by simp
  next
    case (Some x)
    obtain q w1 where sv: "saveSession (stateDir (fs_env w)) now snap sizeOf m x w = (q, w1)" by fastforce
    have m: "plain_name m" "\<forall>st. Checkpoint m st \<in> E" "live m \<noteq> None" using assms(2) Some by auto
    note one = saveSession_advances [OF sv m(1)]
    have "regRun E \<lparr>rg_live = live, rg_saved = absStore w\<rparr> \<lparr>rg_live = live, rg_saved = absStore w1\<rparr>"
      using one(2)
    proof
      assume "\<exists>st. absStore w1 = (absStore w)(m \<mapsto> Inr st)"
      then obtain st where st: "absStore w1 = (absStore w)(m \<mapsto> Inr st)" by blast
      show ?thesis
        using regRun_one [of "Checkpoint m st" E] reg_checkpoint [of "\<lparr>rg_live = live, rg_saved = absStore w\<rparr>" m st] m st by simp
    qed (simp add: run_refl)
    moreover obtain errs' where "saveEach (saveSession (stateDir (fs_env w1)) now snap sizeOf) sessions names w1 = (errs', w')"
      using Cons.prems Some sv one(1) by (cases q) (auto split: prod.splits)
    ultimately show ?thesis using Cons.IH regRun_trans by blast
  qed
qed

definition plain_live :: "'t server \<Rightarrow> bool" where
  "plain_live sv \<longleftrightarrow> (\<forall>n. liveSession n sv \<noteq> None \<longrightarrow> plain_name n)"

lemma saveTick_advances:
  assumes "plain_live sv" and "\<And>m st. liveSession m sv \<noteq> None \<Longrightarrow> Checkpoint m st \<in> E"
  shows "advances E sv (saveTick h sv)"
proof -
  obtain errs w' where w: "saveAllWith (persistOne h sv) (sv_sessions sv) (sv_fs sv) = (errs, w')" by fastforce
  have "regRun E \<lparr>rg_live = rg_live (absRegistry sv), rg_saved = absStore (sv_fs sv)\<rparr>
      \<lparr>rg_live = rg_live (absRegistry sv), rg_saved = absStore w'\<rparr>"
    by (rule saveEach_advances [OF w [unfolded saveAllWith_def persistOne_def]])
      (use assms in \<open>auto simp: plain_live_def liveSession_def absRegistry_def\<close>)
  moreover have "saveTick h sv = sv\<lparr>sv_fs := w'\<rparr>" using w by (simp add: saveTick_def withFs_def)
  ultimately show ?thesis by (simp add: advances_def absRegistry_def liveSession_def)
qed

lemma end_all: "dom live \<subseteq> set names \<Longrightarrow> (\<And>m. m \<in> set names \<Longrightarrow> Ended m \<in> E) \<Longrightarrow>
    regRun E \<lparr>rg_live = live, rg_saved = st\<rparr> \<lparr>rg_live = Map.empty, rg_saved = st\<rparr>"
proof (induction names arbitrary: live)
  case Nil
  then show ?case by (simp add: run_refl)
next
  case (Cons m names)
  have "regRun E \<lparr>rg_live = live, rg_saved = st\<rparr> \<lparr>rg_live = live(m := None), rg_saved = st\<rparr>"
    using regRun_one [of "Ended m" E] reg_ended [of m "\<lparr>rg_live = live, rg_saved = st\<rparr>"] Cons.prems(2) by simp
  moreover have "dom (live(m := None)) \<subseteq> set names" using Cons.prems(1) by auto
  moreover have "Ended k \<in> E" if "k \<in> set names" for k using that Cons.prems(2) by simp
  ultimately show ?case using regRun_trans [OF Cons.IH] by blast
qed

text \<open>The files a shutdown removes are not state files.\<close>

definition ownPaths :: "'t server \<Rightarrow> bool" where
  "ownPaths sv \<longleftrightarrow> \<not> hasSuffix (sv_socketPath sv) ''.state'' \<and> \<not> hasSuffix (sv_pidPath sv) ''.state''"

lemma osRemove_absStore:
  assumes "\<not> hasSuffix p ''.state''"
  shows "absStore (snd (osRemove p w)) = absStore w"
proof (rule absStore_cong)
  fix m assume "plain_name m"
  then have "statePath (stateDir (fs_env w)) m \<noteq> p"
    using assms statePath_plain [OF clean_dir_stateDir, of m "fs_env w"] by (auto simp: hasSuffix_iff)
  then show "stored (snd (osRemove p w)) m = stored w m"
    using osRemove_steps [of p w, OF prod.collapse [symmetric]]
    by (auto simp: steps_def stored_def storedIn_def AList.delete_conv' split: if_splits)
qed

lemma shutdownFiles_same:
  assumes "ownPaths sv"
  shows "absRegistry (shutdownFiles sv) = absRegistry sv"
  using assms osRemove_absStore
  by (simp add: shutdownFiles_def ownPaths_def withFs_def split_beta absRegistry_def liveSession_def)

lemma closing_frame:
  fixes sv :: "'t server" and xs :: "(string \<times> 't tableEntry) list"
  shows "sv_fs (foldl (\<lambda>sv (name, ls). closeSession ls sv) sv xs) = sv_fs sv"
  "sv_socketPath (foldl (\<lambda>sv (name, ls). closeSession ls sv) sv xs) = sv_socketPath sv"
  "sv_pidPath (foldl (\<lambda>sv (name, ls). closeSession ls sv) sv xs) = sv_pidPath sv"
  "sv_nextId (foldl (\<lambda>sv (name, ls). closeSession ls sv) sv xs) = sv_nextId sv"
  "distinct (sv_procs sv) \<Longrightarrow> distinct (sv_procs (foldl (\<lambda>sv (name, ls). closeSession ls sv) sv xs))"
  "set (sv_procs (foldl (\<lambda>sv (name, ls). closeSession ls sv) sv xs)) \<subseteq> set (sv_procs sv)"
proof (induction xs arbitrary: sv)
  case (Cons x xs)
  obtain name ls where x: "x = (name, ls)" by fastforce
  have frame: "sv_socketPath (closeSession ls sv) = sv_socketPath sv" "sv_pidPath (closeSession ls sv) = sv_pidPath sv"
    for sv :: "'t server" by (simp_all add: closeSession_def)
  { case 1 show ?case using Cons.IH(1) by (simp add: x) }
  { case 2 show ?case using Cons.IH(2) frame by (simp add: x) }
  { case 3 show ?case using Cons.IH(3) frame by (simp add: x) }
  { case 4 show ?case using Cons.IH(4) by (simp add: x) }
  { case 5 then show ?case using Cons.IH(5) by (simp add: x) }
  { case 6 show ?case using Cons.IH(6) [of "closeSession ls sv"] set_remove1_subset by (fastforce simp: x) }
qed simp_all

lemma shutdown_advances:
  assumes "plain_live sv" and "ownPaths sv"
    and "\<And>m st. liveSession m sv \<noteq> None \<Longrightarrow> Checkpoint m st \<in> E \<and> Ended m \<in> E"
  shows "advances E sv (shutdown h sv)"
proof -
  define sv1 where "sv1 = (if sv_persist sv then saveTick h sv else sv)"
  have f1: "advances E sv sv1" using saveTick_advances [OF assms(1)] assms(3) by (simp add: sv1_def advances_same)
  have live: "sv_sessions sv1 = sv_sessions sv" using saveTick_same_table [of sv h] by (simp add: sv1_def same_table_def)
  have paths: "sv_socketPath sv1 = sv_socketPath sv" "sv_pidPath sv1 = sv_pidPath sv"
    by (simp_all add: sv1_def saveTick_def withFs_def split_beta)
  let ?sv2 = "shutdownSessions h sv"
  have sv2: "?sv2 = (foldl (\<lambda>sv (name, ls). closeSession ls sv) (releaseLock (sv1\<lparr>sv_ctxDone := True\<rparr>)) (sv_sessions sv1))\<lparr>sv_sessions := []\<rparr>"
    by (simp add: shutdownSessions_def sv1_def Let_def releaseLock_def)
  have "absRegistry ?sv2 = \<lparr>rg_live = Map.empty, rg_saved = absStore (sv_fs sv1)\<rparr>"
    by (simp add: sv2 absRegistry_def liveSession_def closing_frame releaseLock_def)
  moreover have "regRun E (absRegistry sv1) \<lparr>rg_live = Map.empty, rg_saved = absStore (sv_fs sv1)\<rparr>"
    unfolding absRegistry_def
    by (rule end_all [of _ "map fst (sv_sessions sv)"])
      (use live assms(3) in \<open>auto simp: liveSession_def map_of_eq_None_iff dest!: map_of_SomeD intro: rev_image_eqI\<close>)
  ultimately have "advances E sv1 ?sv2" by (simp add: advances_def)
  moreover have "ownPaths ?sv2" using assms(2) paths by (simp add: ownPaths_def sv2 closing_frame releaseLock_def)
  then have "advances E ?sv2 (shutdown h sv)" using advances_same [OF shutdownFiles_same] by (simp add: shutdown_halves)
  ultimately show ?thesis using advances_trans f1 by blast
qed

lemma shutdown_table_ok: "table_ok sv \<Longrightarrow> table_ok (shutdown h sv)"
proof -
  assume ok: "table_ok sv"
  define sv1 where "sv1 = releaseLock ((if sv_persist sv then saveTick h sv else sv)\<lparr>sv_ctxDone := True\<rparr>)"
  have same: "sv_procs sv1 = sv_procs sv" "sv_nextId sv1 = sv_nextId sv"
    using saveTick_same_table [of sv h] by (simp_all add: sv1_def releaseLock_def same_table_def)
  have "table_ok (shutdownSessions h sv)"
    using ok same closing_frame(4-6) [of sv1 "sv_sessions sv1"]
    by (auto simp: shutdownSessions_def Let_def table_ok_def tableIds_def simp flip: sv1_def)
  moreover have "same_table (shutdownSessions h sv) (shutdownFiles (shutdownSessions h sv))"
    by (simp add: shutdownFiles_def same_table_def withFs_def split_beta)
  note same_table_ok(1) [OF this]
  ultimately show ?thesis by (simp add: shutdown_halves)
qed

lemma Shutdown_advances:
  assumes "plain_live sv" and "ownPaths sv"
    and "\<And>m st. liveSession m sv \<noteq> None \<Longrightarrow> Checkpoint m st \<in> E \<and> Ended m \<in> E"
  shows "advances E sv (Shutdown h sv)"
  using shutdown_advances [of "sv\<lparr>sv_shutdownOnce := True\<rparr>" E h] assms
  by (auto simp: Shutdown_def advances_def run_refl plain_live_def ownPaths_def absRegistry_def liveSession_def)

lemma Shutdown_table_ok: "table_ok sv \<Longrightarrow> table_ok (Shutdown h sv)"
  using shutdown_table_ok [of "sv\<lparr>sv_shutdownOnce := True\<rparr>" h] by (simp add: Shutdown_def table_ok_def tableIds_def)

lemma ended_steps:
  assumes "table_ok sv" and "liveSession name sv = Some ls" and "plain_live sv" and "ownPaths sv"
  shows "advances {e. \<exists>st. e = Checkpoint name st \<or> e = Ended name} sv (sessionEnded h ls sv)" (is "advances ?E _ _")
    and "table_ok (sessionEnded h ls sv)"
proof -
  have name: "se_Name (ls_sess ls) = name"
    using assms(1,2) map_of_SomeD by (fastforce simp: table_ok_def liveSession_def)
  define sv1 where "sv1 = (if sv_persist sv \<and> \<not> sv_ctxDone sv then snd (withFs (persistOne h sv name ls) sv) else sv)"
  have same: "fs_only sv sv1" unfolding sv1_def using withFs_fs_only [OF prod.collapse [symmetric]] by auto
  have pl: "plain_name name" using assms(2,3) by (simp add: plain_live_def)
  have f1: "advances ?E sv sv1"
  proof (cases "sv_persist sv \<and> \<not> sv_ctxDone sv")
    case True
    obtain q w' where w: "persistOne h sv name ls (sv_fs sv) = (q, w')" by fastforce
    from saveEach_advances [of "sv_fs sv" "ho_now h" "\<lambda>ls. ho_snapshot h (se_term (ls_sess ls))" "\<lambda>ls. sessionSize (ls_sess ls)"
        "[(name, ls)]" "[name]" _ w' ?E "rg_live (absRegistry sv)"] w pl assms(2)
    have "regRun ?E (absRegistry sv) \<lparr>rg_live = rg_live (absRegistry sv), rg_saved = absStore w'\<rparr>"
      by (cases q) (auto simp: persistOne_def absRegistry_def)
    moreover have "sv1 = sv\<lparr>sv_fs := w'\<rparr>" using True w by (simp add: sv1_def withFs_def)
    ultimately show ?thesis by (simp add: advances_def absRegistry_def liveSession_def)
  next
    case False
    then have "sv1 = sv" unfolding sv1_def by auto
    then show ?thesis by (simp add: advances_same)
  qed
  let ?sv2 = "removeSession name sv1"
  have f2: "advances ?E sv ?sv2"
    using advances_trans [OF f1 advances_one [of "Ended name" ?E sv1 ?sv2]] reg_ended by (simp add: absRegistry_removeSession)
  have live1: "liveSession name sv1 = Some ls" "table_ok sv1"
    using same_table_ok(1,3) [OF fs_only_same_table [OF same]] assms(1,2) by auto
  have t2: "table_ok ?sv2" using remove_ok(1) [OF live1(2,1)] .
  have out: "sessionEnded h ls sv = (if sv_autoExit ?sv2 \<and> sv_sessions ?sv2 = [] then Shutdown h ?sv2 else ?sv2)"
    by (simp add: sessionEnded_def name sv1_def Let_def)
  then show "table_ok (sessionEnded h ls sv)" using t2 Shutdown_table_ok by auto
  have paths: "ownPaths ?sv2" using assms(4) same by (auto simp: ownPaths_def removeSession_def fs_only_def)
  have "advances ?E ?sv2 (Shutdown h ?sv2)" if "sv_sessions ?sv2 = []"
    by (rule Shutdown_advances [OF _ paths]) (use that in \<open>simp_all add: plain_live_def liveSession_def\<close>)
  then show "advances ?E sv (sessionEnded h ls sv)" using f2 out advances_trans by auto
qed

section \<open>Refinement\<close>

inductive chain :: "('e \<Rightarrow> 's \<Rightarrow> 's \<Rightarrow> bool) \<Rightarrow> 'e list \<Rightarrow> 's \<Rightarrow> 's \<Rightarrow> bool" for step where
  chain_nil: "chain step [] s s"
| chain_cons: "step ev s s1 \<Longrightarrow> chain step evs s1 s' \<Longrightarrow> chain step (ev # evs) s s'"

text \<open>
  The interface between an implementation of the registry and those who reason about its runs: every
  step keeps an invariant and is a run of the registry made of the events the step allows.
\<close>

locale registry_refinement =
  fixes view :: "'s \<Rightarrow> registry" and inv :: "'s \<Rightarrow> bool" and step :: "'e \<Rightarrow> 's \<Rightarrow> 's \<Rightarrow> bool" and allows :: "'e \<Rightarrow> regEvent set"
  assumes simulates: "inv s \<Longrightarrow> step ev s s' \<Longrightarrow> regRun (allows ev) (view s) (view s')"
    and invariant: "inv s \<Longrightarrow> step ev s s' \<Longrightarrow> inv s'"
begin

lemma chain_refines:
  "chain step evs s s' \<Longrightarrow> inv s \<Longrightarrow> inv s' \<and> regRun (\<Union>ev \<in> set evs. allows ev) (view s) (view s')"
proof (induction rule: chain.induct)
  case (chain_cons ev s s1 evs s')
  then have "inv s'" and rest: "regRun (\<Union>ev \<in> set evs. allows ev) (view s1) (view s')" using invariant by blast+
  moreover have "regRun (\<Union>ev \<in> set (ev # evs). allows ev) (view s) (view s')"
    using regRun_trans [OF regRun_mono [OF rest] regRun_mono [OF simulates [OF chain_cons.prems chain_cons.hyps(1)]]] by auto
  ultimately show ?case by blast
qed (simp add: run_refl)

lemma chain_saved:
  assumes "chain step evs s s'" and "inv s" and "\<forall>ev \<in> set evs. \<forall>e \<in> allows ev. \<not> discards n e" and "rg_saved (view s) n \<noteq> None"
  shows "rg_saved (view s') n \<noteq> None"
  using saved_survives [OF conjunct2 [OF chain_refines [OF assms(1,2)]], of n] assms(3,4) by blast

lemma chain_live:
  assumes "chain step evs s s'" and "inv s" and "\<forall>ev \<in> set evs. \<forall>e \<in> allows ev. \<not> leaves n e" and "rg_live (view s) n = Some i"
  shows "rg_live (view s') n = Some i"
  using live_stays [OF conjunct2 [OF chain_refines [OF assms(1,2)]], of n i] assms(3,4) by blast

end

text \<open>
  The steps of the daemon. A request comes with what other connections do while its handler has
  released the lock, and with the events they may cause.
\<close>

datatype 't daemonEvent =
    DRequest connState message "regEvent set" "'t interference"
  | DTick
  | DEnded string
  | DShutdown

fun daemonStep :: "'t host \<Rightarrow> 't daemonEvent \<Rightarrow> 't server \<Rightarrow> 't server" where
  "daemonStep h (DRequest cn msg E itf) sv = snd (connStep h itf msg cn sv)"
| "daemonStep h DTick sv = saveTick h sv"
| "daemonStep h (DEnded name) sv = (case liveSession name sv of None \<Rightarrow> sv | Some ls \<Rightarrow> sessionEnded h ls sv)"
| "daemonStep h DShutdown sv = Shutdown h sv"

fun admissible :: "'t daemonEvent \<Rightarrow> 't server \<Rightarrow> bool" where
  "admissible (DRequest cn msg E itf) sv \<longleftrightarrow> plain_request msg \<and> rely (sv_nextId sv) itf \<and> registryRely E itf"
| "admissible DTick sv \<longleftrightarrow> True"
| "admissible (DEnded name) sv \<longleftrightarrow> ownPaths sv"
| "admissible DShutdown sv \<longleftrightarrow> ownPaths sv"

definition daemonMove :: "'t host \<Rightarrow> 't daemonEvent \<Rightarrow> 't server \<Rightarrow> 't server \<Rightarrow> bool" where
  "daemonMove h ev sv sv' \<longleftrightarrow> admissible ev sv \<and> sv' = daemonStep h ev sv"

fun daemonAllows :: "'t daemonEvent \<Rightarrow> regEvent set" where
  "daemonAllows (DRequest cn msg E itf) = E \<union> requestAllows cn msg"
| "daemonAllows DTick = {e. \<exists>n st. e = Checkpoint n st}"
| "daemonAllows (DEnded name) = {e. \<exists>st. e = Checkpoint name st \<or> e = Ended name}"
| "daemonAllows DShutdown = {e. \<exists>n st. e = Checkpoint n st \<or> e = Ended n}"

definition registryInv :: "'t server \<Rightarrow> bool" where
  "registryInv sv \<longleftrightarrow> table_ok sv \<and> plain_live sv"

lemma daemonMove_advances:
  assumes "registryInv sv" and "daemonMove h ev sv sv'"
  shows "advances (daemonAllows ev) sv sv'" and "table_ok sv'"
proof -
  have ok: "table_ok sv" "plain_live sv" using assms(1) by (simp_all add: registryInv_def)
  have adm: "admissible ev sv" and sv': "sv' = daemonStep h ev sv" using assms(2) by (simp_all add: daemonMove_def)
  have "advances (daemonAllows ev) sv sv' \<and> table_ok sv'"
  proof (cases ev)
    case (DRequest cn msg E itf)
    with adm have r: "plain_request msg" "rely (sv_nextId sv) itf" "registryRely E itf" by simp_all
    note run = prod.collapse [symmetric, of "connStep h itf msg cn sv"]
    show ?thesis
      using request_advances [OF run ok(1) r(2,3) order_refl r(1)] keepsD(1) [OF connStep_keeps [OF run ok(1) r(2) order_refl]]
        DRequest sv' by simp
  next
    case DTick
    with sv' saveTick_advances [OF ok(2)] same_table_ok(1) [OF saveTick_same_table, of h sv] ok(1) show ?thesis by auto
  next
    case (DEnded name)
    with adm sv' ended_steps [OF ok(1) _ ok(2)] ok(1) show ?thesis by (auto simp: advances_same split: option.split)
  next
    case DShutdown
    with adm sv' Shutdown_advances [OF ok(2)] Shutdown_table_ok [OF ok(1)] show ?thesis by auto
  qed
  then show "advances (daemonAllows ev) sv sv'" and "table_ok sv'" by simp_all
qed

interpretation daemon: registry_refinement absRegistry registryInv "daemonMove h" daemonAllows for h
proof
  fix sv ev sv' assume inv: "registryInv sv" and move: "daemonMove h ev sv sv'"
  note a = daemonMove_advances [OF inv move]
  then show run: "regRun (daemonAllows ev) (absRegistry sv) (absRegistry sv')" by (simp add: advances_def)
  have "plain_live sv'"
    using live_plain [OF run] inv by (simp add: registryInv_def plain_live_def absRegistry_def)
  with a(2) show "registryInv sv'" by (simp add: registryInv_def)
qed

section \<open>Properties\<close>


text \<open>A session is created beside a saved one, saved by the persister, and ends.\<close>

definition registry_conn :: connState where
  "registry_conn = \<lparr>cn_rev = ''v1'', cn_attached = None, cn_closed = False\<rparr>"

definition registry_create :: "string \<Rightarrow> bool \<Rightarrow> createMsg" where
  "registry_create name force = \<lparr>create_Name = name, create_Command = [''/bin/sh''], create_Env = [], create_CWD = ''/'',
     create_Scrollback = 0, create_Force = force\<rparr>"

definition registry_s1 :: "(byte list) server" where
  "registry_s1 = snd (connStep demo_host no_interference (MCreate (registry_create ''new'' False)) registry_conn saved_server)"

definition registry_s2 :: "(byte list) server" where
  "registry_s2 = saveTick demo_host registry_s1"

definition registry_s3 :: "(byte list) server" where
  "registry_s3 = daemonStep demo_host (DEnded ''new'') registry_s2"

lemma saved_work: "stored (sv_fs saved_server) ''work'' \<noteq> None"
  by code_simp


text \<open>
  The daemon does not check that a name is a file name: a forced session named \<open>x/../work\<close> discards the
  saved session \<open>work\<close>.
\<close>

theorem forced_name_discards_another:
  "savedState saved_server ''work'' \<noteq> None
    \<and> savedState (snd (handleCreate demo_host no_interference (registry_create ''x/../work'' True) saved_server)) ''work'' = None"
proof -
  have "stored (sv_fs (snd (handleCreate demo_host no_interference (registry_create ''x/../work'' True) saved_server))) ''work'' = None"
    by code_simp
  with saved_work show ?thesis by (simp add: savedState_eq)
qed

end
