(* ===== verification/Spec2Isabelle.thy ===== *)
theory Spec2Isabelle
  imports Wire_Props Name_Gen Shell_Env Pty_Gather Session_Props Store_Refinement Terminal_Keys Ht_Config Server_Props
    Client_Attach Terminal_Props Cli_Props Session_Close Server_Loop Ghostty_Queries Attach_Flow Term_Test
    Server_Registry
begin

text \<open>
  \<^bold>\<open>hauntty.\<close> hauntty keeps terminal sessions alive behind a daemon. A client (\<open>ht\<close>) connects to
  the daemon over a Unix socket and speaks a framed binary protocol. The daemon holds a table of
  sessions. Each session owns a process on a PTY, a terminal emulator (libghostty, compiled to
  WebAssembly) that keeps the screen, a run loop goroutine that serialises everything that
  happens to the session, and one writer goroutine for each attached client. Sessions are saved
  to state files periodically and at shutdown; a saved session that is not running is "dead" and
  can be restored, dumped or pruned.

  \<^bold>\<open>Theories and sources.\<close> All sources are under \<open>src/\<close>; definitions keep the names of the code.
  \<^item> \<open>Ht_Prelude\<close>: machine integers, byte strings, Go errors as sums, decimal printing, the functions of
    Go's \<open>strings\<close>, \<open>bytes\<close> and \<open>filepath\<close> packages that the code calls. \<open>Go_Paths\<close>: lexical facts on
    cleaned and joined paths.
  \<^item> \<open>Wire_Encoding\<close> (\<open>protocol/encoding.go\<close>), \<open>Wire_Messages\<close> (\<open>messages*.go\<close>), \<open>Wire_Conn\<close>
    (\<open>codec.go\<close>), \<open>Wire_Props\<close>. The locale \<open>codec\<close> is the contract between an encoder and a decoder: what
    is written is read back, a decoder is unaffected by what follows, every proper prefix is
    refused. It is interpreted for each primitive, each of the messages, the frame, and
    \<open>WriteMessage\<close>/\<open>ReadMessage\<close>, so that the stream properties C1, C2 and C4 are facts of the interface.
  \<^item> \<open>Name_Gen\<close> (\<open>daemon/namegen.go\<close>): C7.
  \<^item> \<open>Shell_Env\<close> (\<open>daemon/shell.go\<close>, \<open>launchSessionProcess\<close> of \<open>session_lifecycle.go\<close>): C9, C10. The
    locale \<open>env_store\<close> states what the launch code relies on of \<open>getEnv\<close> and \<open>setEnv\<close>.
  \<^item> \<open>State_File\<close> and \<open>Persist_Store\<close> (\<open>daemon/persist.go\<close>): the state file format (C12, C13) and its
    files (C14, C15, C17). The locale \<open>state_store\<close> is the interface the daemon uses;
    \<open>Store_Refinement\<close> shows that it implements a map from names to states (C40).
  \<^item> \<open>Pty_Gather\<close> (\<open>gatherPTYReads\<close>, \<open>exitCodeFromWaitStatus\<close>): C18.
  \<^item> \<open>Session_Clients\<close> (\<open>session.go\<close>, \<open>session_clients.go\<close>), \<open>Session_Loop\<close> (\<open>Session.run\<close>, \<open>feedLoop\<close>,
    \<open>writeLoop\<close>), \<open>Session_Inv\<close> (the invariant), \<open>Session_Props\<close>: C19, C20, C22 to C24. \<open>exec\<close> is the
    step function of the machine and \<open>reachable\<close> its closure.
  \<^item> \<open>Session_Close\<close> (\<open>Session.close\<close>, \<open>readPTY\<close>): who waits for whom when a session ends, with the
    child's exit, SIGHUP and SIGKILL: C26.
  \<^item> \<open>Terminal_Keys\<close> (\<open>client/keys.go\<close>, the key half of \<open>daemon/terminal_state.go\<close>, the key numbers of
    \<open>libghostty/key_event.go\<close>, \<open>protocol/dump.go\<close>): C29, C30.
  \<^item> \<open>Ghostty_Runtime\<close> (\<open>libghostty/wasm.go\<close>, \<open>result.go\<close>), \<open>Ghostty_Terminal\<close> (\<open>terminal.go\<close>,
    \<open>terminal_data.go\<close>, \<open>grid_ref.go\<close>, \<open>snapshot.go\<close>) and \<open>Ghostty_Objects\<close> (\<open>formatter.go\<close>, \<open>key_encoder.go\<close>,
    \<open>key_event.go\<close>): the bindings, as functions from the runtime to a result (a value, an error or a
    panic) and the runtime. The module they call is a record of arbitrary functions on its own
    state. A ledger beside it records what the bindings hold of it (objects, buffers) and every free
    of something they do not hold. The locale \<open>ledger\<close> is the calculus of what an operation takes,
    keeps and gives back, also when it fails or panics; it is interpreted on the runtime.
    \<open>Ghostty_Queries\<close> has the getters of key events and the locking wrappers.
  \<^item> \<open>Terminal_State\<close> (\<open>daemon/terminal_state.go\<close>: creating, restoring, feeding, dumping, closing a
    terminal) and \<open>Terminal_Props\<close>: C21, C25.
  \<^item> \<open>Ht_Config\<close> (\<open>config/config.go\<close>, \<open>config/paths.go\<close>): C32.
  \<^item> \<open>Server_State\<close> (the \<open>Server\<close> struct, the table, the requests a handler sends to a session),
    \<open>Dead_State\<close> (\<open>dead_state.go\<close>: C27), \<open>Server_Handlers\<close> (\<open>server_attach.go\<close>, \<open>server_control.go\<close>,
    \<open>server_inspect.go\<close>), \<open>Server_Conn\<close> (\<open>server.go\<close>), \<open>Server_Inv\<close> (the invariant of the table),
    \<open>Server_Props\<close>: C33 to C38. \<open>Server_Loop\<close>: \<open>Listen\<close> with its accept loop, the persister's loop, and
    what a daemon that shuts down does to its successor.
  \<^item> \<open>Server_Registry\<close>: the abstract specification of the daemon, a registry of live names and saved states
    with eight events. Every step of the daemon (a request under interference, the persister's tick, the
    end of a session, the shutdown) is a run of the registry made of the events this step allows (C16).
    The locale \<open>registry_refinement\<close> carries this from steps to runs and derives that saved states and
    live names survive what is not meant to remove them; it is interpreted on the daemon. Requested names
    are assumed to be file names there: the code does not check it, and the theory shows what a name with
    slashes does.
  \<^item> \<open>Client_Requests\<close> (\<open>client/client.go\<close>, \<open>errors.go\<close>, \<open>daemon_probe.go\<close>) and \<open>Client_Attach\<close>
    (\<open>client/attach.go\<close>): C5.
  \<^item> \<open>Attach_Flow\<close> composes session, writer, wire and \<open>RunAttach\<close> (C3: the user sees what the session
    printed), and \<open>forwardHostInput\<close>, wire, \<open>handleConn\<close> and PTY (C8: what is typed reaches the program).
    The locale \<open>client_law\<close> lifts a property of a client that survives each elementary change of the run
    loop and the writers to every reachable state.
  \<^item> \<open>Daemon_Start\<close> (\<open>ensureDaemonDetached\<close> and its helpers in \<open>cmd/ht/main.go\<close>): C11. \<open>Cli_Base\<close> (the
    helpers of \<open>main.go\<close>, \<open>version.go\<close>), \<open>Cli_Completion\<close> (\<open>cmd/ht/completion.go\<close>,
    \<open>internal/completion/completion.go\<close>), \<open>Cli_Commands\<close> (the \<open>Run\<close> methods of \<open>main.go\<close>, their dispatch
    and \<open>main\<close> after parsing) and \<open>Cli_Props\<close>: C31, C39, and that every command closes its connection.
  \<^item> \<open>Term_Test\<close> (\<open>internal/termtest/termtest.go\<close>): the harness of the end-to-end tests. A test releases
    whatever it obtained, however it ends; the waits return at the first match; a blank screen is never
    stable; a snapshot of the harness is the daemon's dump of the same terminal (C28).
  \<^item> This theory puts client, wire and daemon together: C6.

  \<^bold>\<open>State.\<close> A Go struct is a record with a field prefix (\<open>se_\<close> for \<open>Session\<close>, \<open>cl_\<close> for a client,
  \<open>sv_\<close> for \<open>Server\<close>); pointers shared between lists are references into a heap (the clients of a
  session) or numbers (the sessions of the daemon). Integers are words of the width of the source.
  An error is \<open>Inl\<close> of its message, and every error path of the code is a branch. Channels are
  lists with a closed flag; what panics in Go sets \<open>se_panic\<close>, and C20 shows that it never is set.

  \<^bold>\<open>Concurrency.\<close> In a session, one step of \<open>exec\<close> is what a goroutine does between two points at which
  others can observe it: the part of the run loop before its select, one branch of the select,
  one message of a writer, one chunk of the feeder. The session properties hold in every
  reachable state, so for every interleaving of these steps. In the daemon, a handler runs
  sequentially and \<open>itf k\<close>, a parameter, is an arbitrary change to the server by other connections at
  the \<open>k\<close>-th point at which the handler does not hold the server's lock; C34 assumes of it
  only that it keeps the table consistent (\<open>rely\<close>), which is what the same theorem shows of every
  request. A request that a handler sends to a session's loop (\<open>attach\<close>, \<open>kickClient\<close>, \<open>resizeClient\<close>)
  is served at once.

  \<^bold>\<open>Parameters.\<close> What is not code of the repository, or is generated, is an argument: the terminal
  emulator (\<open>emulator\<close>: feeding, resizing, dumping, snapshots, key encoding), the start of a process
  on a PTY, the random source, the clock, the results of flock, listen and the peer's
  credentials (the record \<open>host\<close> and arguments of \<open>Server_Conn\<close>), the TOML decoder and encoder,
  \<open>url.Parse\<close>, the regular expression engine, the local time zone, the answers of the system while a
  daemon is started (\<open>startEnv\<close>), the connection's peer and the bytes of standard input (scripts),
  \<open>os.Stat\<close> and the program a test runs.
  Nothing is assumed of the emulator: the session properties hold for every one, and the properties
  of the bindings for every module they may call.

  \<^bold>\<open>Faults and fuel.\<close> A writer of the wire model may fail at any byte. Each call of the file system
  model consumes an entry of a fault script, so the store's properties hold for every combination
  of failing calls; a crash is a prefix of the trace of elementary changes (C14). There is no fuel
  in the development: the loops of the code are structural recursions over scripts and lists (\<open>ht wait\<close>
  recurses over the readings of the clock and is still waiting when they end; C39 shows that it
  returns once one is past the deadline; the waits of the test harness recurse over the events of their
  select); \<open>connReads\<close>, the reads of a connection, terminates because each message shortens the stream; the one loop without a bound, the numeric suffix of
  \<open>generateUniqueName\<close>, is a \<open>partial_function\<close>, and C7 shows that it returns.

  \<^bold>\<open>Not modelled.\<close>
  \<^item> The generated WebAssembly module under \<open>libghostty/internal/wasmvt\<close> (machine-translated code): a
    parameter of the bindings. The session and server theories take the emulator as a parameter of
    its own, not as the composition with the bindings, because the bindings change the module's
    memory also when they only read.
  \<^item> Real time: durations only appear as scripts (turns before a deadline, ticks, readings of the clock)
    and delivery of signals as events. Logging.
  \<^item> Parsing of the command line, which a third-party package does.
\<close>

section \<open>Client and daemon together\<close>

text \<open>The requests of the client library other than attach, each with the operation that sends it.\<close>

datatype clientCall =
    CallCreate createSessionOpts
  | CallList bool
  | CallKill string
  | CallSend string "byte list"
  | CallSendKey string u32 u32
  | CallDump string u8
  | CallPrune
  | CallStatus string
  | CallKick string string

fun callOp :: "clientCall \<Rightarrow> string" where
  "callOp (CallCreate opts) = ''create''"
| "callOp (CallList b) = ''list''"
| "callOp (CallKill n) = ''kill''"
| "callOp (CallSend n d) = ''send''"
| "callOp (CallSendKey n k m) = ''send key''"
| "callOp (CallDump n f) = ''dump''"
| "callOp CallPrune = ''prune''"
| "callOp (CallStatus n) = ''status''"
| "callOp (CallKick n i) = ''kick''"

fun callMsg :: "clientCall \<Rightarrow> message" where
  "callMsg (CallCreate opts) = createRequest opts"
| "callMsg (CallList b) = MList \<lparr>list_IncludeClients = b\<rparr>"
| "callMsg (CallKill n) = MKill \<lparr>kill_Name = n\<rparr>"
| "callMsg (CallSend n d) = MSend \<lparr>send_Name = n, send_Data = d\<rparr>"
| "callMsg (CallSendKey n k m) = MSendKey \<lparr>sendKey_Name = n, sendKey_Key = k, sendKey_Mods = m\<rparr>"
| "callMsg (CallDump n f) = MDump \<lparr>dump_Name = n, dump_Format = f\<rparr>"
| "callMsg CallPrune = MPrune"
| "callMsg (CallStatus n) = MStatus \<lparr>status_Name = n\<rparr>"
| "callMsg (CallKick n i) = MKick \<lparr>kick_Name = n, kick_ClientID = i\<rparr>"

fun runCall :: "clientCall \<Rightarrow> conn \<Rightarrow> unit outcome \<times> conn" where
  "runCall (CallCreate opts) c = mapOutcome (\<lambda>_. ()) (CreateSession opts c)"
| "runCall (CallList b) c = mapOutcome (\<lambda>_. ()) (ListSessions b c)"
| "runCall (CallKill n) c = clientKill n c"
| "runCall (CallSend n d) c = clientSend n d c"
| "runCall (CallSendKey n k m) c = clientSendKey n k m c"
| "runCall (CallDump n f) c = mapOutcome (\<lambda>_. ()) (clientDump n f c)"
| "runCall CallPrune c = mapOutcome (\<lambda>_. ()) (clientPrune c)"
| "runCall (CallStatus n) c = mapOutcome (\<lambda>_. ()) (clientStatusOf n c)"
| "runCall (CallKick n i) c = clientKick n i c"

text \<open>The reply type the client asserts for a call.\<close>

fun understood :: "clientCall \<Rightarrow> message \<Rightarrow> bool" where
  "understood (CallCreate opts) m = (asCreated m \<noteq> None)"
| "understood (CallList b) m = (asSessions m \<noteq> None)"
| "understood (CallDump n f) m = (asDumpResponse m \<noteq> None)"
| "understood CallPrune m = (asPruneResponse m \<noteq> None)"
| "understood (CallStatus n) m = (asStatusResponse m \<noteq> None)"
| "understood _ m = (asOK m \<noteq> None)"

definition isError :: "message \<Rightarrow> bool" where
  "isError m \<longleftrightarrow> (case m of MError e \<Rightarrow> True | _ \<Rightarrow> False)"

lemma isError_iff: "isError m \<longleftrightarrow> (\<exists>e. m = MError e)"
  by (simp add: isError_def split: message.split)

lemma request_understood:
  assumes "wire_ok msg" and "sink_room (c_sink c) = None" and "wire_ok reply" and "c_in c = wire_bytes reply @ rest"
    and "isError reply \<or> asT reply \<noteq> None"
  shows "is_ok (fst (request asT op msg c)) \<or> (\<exists>e. reply = MError e \<and> fst (request asT op msg c) = Inl (ServerError op (error_Message e)))"
  using request_reply(1) [OF assms(1-4), of asT op] assms(5)
  by (auto simp: isError_iff is_ok_iff split: message.splits)

lemma outcome_map [simp]: "is_ok (map_sum id f r) = is_ok r" "map_sum id f r = Inl e \<longleftrightarrow> r = Inl e"
  by (cases r; simp)+

lemmas call_defs = CreateSession_def ListSessions_def clientKill_def clientSend_def clientSendKey_def clientDump_def
  clientPrune_def clientStatusOf_def clientKick_def requestOK_def

lemma runCall_understood:
  assumes "wire_ok (callMsg call)" and "sink_room (c_sink c) = None" and "wire_ok reply" and "c_in c = wire_bytes reply @ rest"
    and "isError reply \<or> understood call reply"
  shows "(is_ok (fst (runCall call c)) \<or> (\<exists>e. reply = MError e \<and> fst (runCall call c) = Inl (ServerError (callOp call) (error_Message e))))
    \<and> c_in (snd (runCall call c)) = rest
    \<and> sink_out (c_sink (snd (runCall call c))) = sink_out (c_sink c) @ wire_bytes (callMsg call)"
proof -
  note q = request_understood [OF assms(1-4)] request_reply(2,3) [OF assms(1-4)]
  show ?thesis
  proof (cases call)
    case (CallCreate opts)
    with q [of asCreated "''create''"] assms(5) show ?thesis by (simp add: call_defs)
  next
    case (CallList b)
    with q [of asSessions "''list''"] assms(5) show ?thesis by (simp add: call_defs)
  next
    case (CallKill n)
    with q [of asOK "''kill''"] assms(5) show ?thesis by (simp add: call_defs)
  next
    case (CallSend n d)
    with q [of asOK "''send''"] assms(5) show ?thesis by (simp add: call_defs)
  next
    case (CallSendKey n k m)
    with q [of asOK "''send key''"] assms(5) show ?thesis by (simp add: call_defs)
  next
    case (CallDump n f)
    with q [of asDumpResponse "''dump''"] assms(5) show ?thesis by (simp add: call_defs)
  next
    case CallPrune
    with q [of asPruneResponse "''prune''"] assms(5) show ?thesis by (simp add: call_defs)
  next
    case (CallStatus n)
    with q [of asStatusResponse "''status''"] assms(5) show ?thesis by (simp add: call_defs)
  next
    case (CallKick n i)
    with q [of asOK "''kick''"] assms(5) show ?thesis by (simp add: call_defs)
  qed
qed

text \<open>What the handlers answer: an error or the reply type of the request, and the connection stays.\<close>

lemma handler_replies:
  "\<exists>m. fst (handleCreate h itf m1 sv) = Some m \<and> (isError m \<or> asCreated m \<noteq> None)"
  "\<exists>m. fst (handleList h m2 sv) = Some m \<and> (isError m \<or> asSessions m \<noteq> None)"
  "\<exists>m. fst (handleKill m3 sv) = Some m \<and> (isError m \<or> asOK m \<noteq> None)"
  "\<exists>m. fst (handleSend m4 sv) = Some m \<and> (isError m \<or> asOK m \<noteq> None)"
  "\<exists>m. fst (handleSendKey h m5 sv) = Some m \<and> (isError m \<or> asOK m \<noteq> None)"
  "\<exists>m. fst (handleDump h m6 sv) = Some m \<and> (isError m \<or> asDumpResponse m \<noteq> None)"
  "\<exists>m. fst (handlePrune sv) = Some m \<and> (isError m \<or> asPruneResponse m \<noteq> None)"
  "\<exists>m. fst (handleStatus h m7 sv) = Some m \<and> (isError m \<or> asStatusResponse m \<noteq> None)"
  "\<exists>m. fst (handleKick h m8 sv) = Some m \<and> (isError m \<or> asOK m \<noteq> None)"
proof -
  note replies = writeError_def writeOK_def isError_def asOK_def asCreated_def asSessions_def asDumpResponse_def
    asPruneResponse_def asStatusResponse_def
  show "\<exists>m. fst (handleCreate h itf m1 sv) = Some m \<and> (isError m \<or> asCreated m \<noteq> None)"
    by (auto simp: handleCreate_def Let_def replies split: prod.split sum.split bool.split)
  show "\<exists>m. fst (handleList h m2 sv) = Some m \<and> (isError m \<or> asSessions m \<noteq> None)"
    by (auto simp: handleList_def replies split: prod.split sum.split)
  show "\<exists>m. fst (handleKill m3 sv) = Some m \<and> (isError m \<or> asOK m \<noteq> None)"
    by (auto simp: handleKill_def replies split: option.split)
  show "\<exists>m. fst (handleSend m4 sv) = Some m \<and> (isError m \<or> asOK m \<noteq> None)"
    by (auto simp: handleSend_def replies split: prod.split option.split)
  show "\<exists>m. fst (handleSendKey h m5 sv) = Some m \<and> (isError m \<or> asOK m \<noteq> None)"
    by (auto simp: handleSendKey_def replies split: prod.split option.split sum.split)
  show "\<exists>m. fst (handleDump h m6 sv) = Some m \<and> (isError m \<or> asDumpResponse m \<noteq> None)"
    by (auto simp: handleDump_def replies split: prod.split option.split sum.split)
  show "\<exists>m. fst (handlePrune sv) = Some m \<and> (isError m \<or> asPruneResponse m \<noteq> None)"
    by (auto simp: handlePrune_def replies split: prod.split sum.split)
  show "\<exists>m. fst (handleStatus h m7 sv) = Some m \<and> (isError m \<or> asStatusResponse m \<noteq> None)"
    by (auto simp: handleStatus_def replies split: prod.split sum.split)
  show "\<exists>m. fst (handleKick h m8 sv) = Some m \<and> (isError m \<or> asOK m \<noteq> None)"
    by (auto simp: handleKick_def replies split: prod.split option.split)
qed

lemma controlStep_replies:
  assumes "controlStep h itf clientRev (callMsg call) sv = ((reply, at, stays), sv')"
  shows "stays \<and> at = None \<and> (\<exists>m. reply = Some m \<and> (isError m \<or> understood call m))"
proof (cases call)
  case (CallCreate opts)
  with assms handler_replies(1) [where sv = sv] show ?thesis
    by (auto simp: controlStep_def createRequest_def split_beta)
next
  case (CallList b)
  with assms handler_replies(2) [where sv = sv] show ?thesis
    by (auto simp: controlStep_def split_beta)
next
  case (CallKill n)
  with assms handler_replies(3) [where sv = sv] show ?thesis
    by (auto simp: controlStep_def split_beta)
next
  case (CallSend n d)
  with assms handler_replies(4) [where sv = sv] show ?thesis
    by (auto simp: controlStep_def split_beta)
next
  case (CallSendKey n k m)
  with assms handler_replies(5) [where sv = sv] show ?thesis
    by (auto simp: controlStep_def split_beta)
next
  case (CallDump n f)
  with assms handler_replies(6) [where sv = sv] show ?thesis
    by (auto simp: controlStep_def split_beta)
next
  case CallPrune
  with assms handler_replies(7) [where sv = sv] show ?thesis
    by (auto simp: controlStep_def split_beta)
next
  case (CallStatus n)
  with assms handler_replies(8) [where sv = sv] show ?thesis
    by (auto simp: controlStep_def split_beta)
next
  case (CallKick n i)
  with assms handler_replies(9) [where sv = sv] show ?thesis
    by (auto simp: controlStep_def split_beta)
qed

text \<open>
  C6. Client and daemon understand each other. For every request of the client library but attach,
  the daemon reads the very message the client wrote, answers it and keeps the connection, and
  the client, reading the answer, gets its result or the daemon's error message under the
  operation's name; never an unexpected reply type, and nothing of the stream is left over or lost.
\<close>

theorem client_understands_daemon:
  assumes "controlStep h itf clientRev (callMsg call) sv = ((reply, at, stays), sv')"
    and "wire_ok (callMsg call)" and "wire_ok (the reply)"
    and "sink_room (c_sink c) = None" and "c_in c = wire_bytes (the reply) @ rest"
  shows "(\<exists>sent. sink_out (c_sink (snd (runCall call c))) = sink_out (c_sink c) @ sent \<and> ReadMessage sent = (Inr (callMsg call), []))
    \<and> reply \<noteq> None \<and> at = None \<and> stays
    \<and> c_in (snd (runCall call c)) = rest
    \<and> (is_ok (fst (runCall call c))
       \<or> (\<exists>e. reply = Some (MError e) \<and> fst (runCall call c) = Inl (ServerError (callOp call) (error_Message e))))"
proof -
  obtain m where m: "reply = Some m" "isError m \<or> understood call m" and stay: "stays" "at = None"
    using controlStep_replies [OF assms(1)] by blast
  note r = runCall_understood [OF assms(2,4), of m rest] m(2) assms(3,5) m(1)
  have "ReadMessage (wire_bytes (callMsg call)) = (Inr (callMsg call), [])" using ReadMessage_wire [OF assms(2), of "[]"] by simp
  with r stay show ?thesis by auto
qed

theorem client_understands_daemon_witness:
  "let c = \<lparr>c_sink = buffer, c_in = wire_bytes (MError \<lparr>error_Message = ''session not found''\<rparr>)\<rparr>
   in fst (fst (controlStep demo_host no_interference ''v1'' (callMsg (CallKill ''work'')) demo_server))
        = Some (MError \<lparr>error_Message = ''session not found''\<rparr>)
      \<and> c_in (snd (runCall (CallKill ''work'') c)) = []"
proof -
  let ?e = "MError \<lparr>error_Message = ''session not found''\<rparr>"
  let ?c = "\<lparr>c_sink = buffer, c_in = wire_bytes ?e\<rparr>"
  have step: "controlStep demo_host no_interference ''v1'' (callMsg (CallKill ''work'')) demo_server = ((Some ?e, None, True), demo_server)"
    by (simp add: controlStep_def handleKill_def liveSession_def demo_server_def writeError_def)
  have w: "wire_ok (callMsg (CallKill ''work''))" "wire_ok ?e"
    by (simp_all add: demo_unfold ok_Error_def encode_Error_def codec_simps)
  from client_understands_daemon [OF step w(1), of ?c "[]"] w(2) step show ?thesis
    by (simp add: Let_def buffer_def)
qed

end
